(* ===== verification/Kmesh_Prelude.thy ===== *)
theory Kmesh_Prelude
  imports
    Main
    "HOL-Library.Word"
    "HOL-Library.AList"
    "HOL-Library.Monad_Syntax"
    "HOL-Library.Multiset"
begin

text \<open>
  Shared vocabulary of the development: the widths of Go's integers, byte strings, fixed
  arrays, the error values of the program, Go's map types, and the generic lemmas on lists,
  options, maps and words that the component theories use.

  \<^item> A Go map that is only indexed is a partial function \<open>'k \<rightharpoonup> 'v\<close>.
  \<^item> A Go map or set that some loop ranges over is the association list (the list of keys)
    in the order the range visits it, with distinct keys.  Go leaves that order unspecified;
    a theorem about every such list is a theorem about every order.
  \<^item> A fixed array \<open>[n]T\<close> is a list of length n; an index out of range panics.
  \<^item> A panic (index out of range, nil dereference, write to a nil map) and a loop that never
    ends are the value \<^const>\<open>None\<close> of an option type, so \<open>Some (r, s)\<close> says that the
    function returned \<open>r\<close> and left the state \<open>s\<close>.
\<close>

unbundle bit_operations_syntax

named_theorems go_defs \<open>unfolding rules of small model operations\<close>
named_theorems go_inv \<open>preservation lemmas\<close>

subsection \<open>Integers and bytes\<close>

type_synonym u8 = "8 word"
type_synonym u16 = "16 word"
type_synonym u32 = "32 word"
type_synonym u64 = "64 word"
type_synonym bytes = "u8 list"

abbreviation max_u32 :: u32 where
  "max_u32 \<equiv> - 1"

text \<open>The bytes of a Go string.\<close>

definition str_bytes :: "string \<Rightarrow> bytes" where
  "str_bytes s = map of_char s"

subsection \<open>Errors\<close>

text \<open>
  Error values.  \<open>KeyNotExist\<close> is the sentinel \<open>ebpf.ErrKeyNotExist\<close>, the only error whose
  identity the code inspects; any other kernel error is \<open>KernelErr n\<close>; \<open>GoErr\<close> is an error
  built from a message and \<open>GoWrap\<close> one formatted around another error with \<open>%v\<close>.
\<close>

datatype go_err = KeyNotExist | KernelErr nat | GoErr string | GoWrap string go_err

text \<open>\<open>errors.Is (err, ebpf.ErrKeyNotExist)\<close> of an error a map operation returned.\<close>

fun is_not_exist :: "go_err \<Rightarrow> bool" where
  "is_not_exist KeyNotExist = True"
| "is_not_exist _ = False"

subsection \<open>Fixed arrays\<close>

text \<open>Reading and writing a Go array; an index out of range panics.\<close>

definition arr_get :: "'a list \<Rightarrow> nat \<Rightarrow> 'a option" where
  "arr_get xs i = (if i < length xs then Some (xs ! i) else None)"

definition arr_set :: "'a list \<Rightarrow> nat \<Rightarrow> 'a \<Rightarrow> 'a list option" where
  "arr_set xs i x = (if i < length xs then Some (xs[i := x]) else None)"

lemma arr_get_Some [simp]: "arr_get xs i = Some x \<longleftrightarrow> i < length xs \<and> xs ! i = x"
  by (auto simp: arr_get_def)

lemma arr_get_None [simp]: "arr_get xs i = None \<longleftrightarrow> length xs \<le> i"
  by (auto simp: arr_get_def)

lemma arr_set_Some [simp]: "arr_set xs i x = Some ys \<longleftrightarrow> i < length xs \<and> ys = xs[i := x]"
  by (auto simp: arr_set_def)

lemma arr_set_None [simp]: "arr_set xs i x = None \<longleftrightarrow> length xs \<le> i"
  by (auto simp: arr_set_def)

subsection \<open>Go sets that are ranged over\<close>

text \<open>
  A Go set (a map to the empty struct) as the distinct list of its members: insertion keeps
  a member that is there and otherwise adds it, deletion removes it if it is there.
\<close>

definition set_ins :: "'a \<Rightarrow> 'a list \<Rightarrow> 'a list" where
  "set_ins x xs = (if x \<in> set xs then xs else xs @ [x])"

definition set_del :: "'a \<Rightarrow> 'a list \<Rightarrow> 'a list" where
  "set_del x xs = filter (\<lambda>y. y \<noteq> x) xs"

lemma set_set_ins [simp]: "set (set_ins x xs) = insert x (set xs)"
  by (auto simp: set_ins_def)

lemma set_set_del [simp]: "set (set_del x xs) = set xs - {x}"
  by (auto simp: set_del_def)

lemma distinct_set_ins [simp, intro]: "distinct xs \<Longrightarrow> distinct (set_ins x xs)"
  by (auto simp: set_ins_def)

lemma distinct_set_del [simp, intro]: "distinct xs \<Longrightarrow> distinct (set_del x xs)"
  by (auto simp: set_del_def)

lemma set_ins_not_Nil [simp]: "set_ins x xs \<noteq> []"
  by (auto simp: set_ins_def)

lemma set_del_Nil_iff: "set_del x xs = [] \<longleftrightarrow> set xs \<subseteq> {x}"
  by (auto simp: set_del_def filter_empty_conv)

subsection \<open>Go maps that are ranged over\<close>

lemma map_of_AList_update [simp]: "map_of (AList.update k v al) = (map_of al)(k \<mapsto> v)"
  by (rule AList.update_conv')

lemma map_of_AList_delete [simp]: "map_of (AList.delete k al) = (map_of al)(k := None)"
  by (rule AList.delete_conv')

lemma set_AList_delete: "set (AList.delete k xs) = {p \<in> set xs. fst p \<noteq> k}"
  by (auto simp: AList.delete_eq)

lemma set_AList_update:
  "distinct (map fst xs) \<Longrightarrow> set (AList.update k v xs) = insert (k, v) {p \<in> set xs. fst p \<noteq> k}"
  by (induction xs) (auto simp: image_iff split: if_splits)

subsection \<open>Words as counters\<close>

lemma unat_inc:
  fixes w :: "'a::len word"
  assumes "w \<noteq> - 1"
  shows "unat (w + 1) = Suc (unat w)"
proof -
  from assms have "1 + w \<noteq> 0" by (auto simp: add_eq_0_iff)
  then show ?thesis by (simp add: unatSuc add.commute)
qed

lemma unat_dec:
  fixes w :: "'a::len word"
  assumes "w \<noteq> 0"
  shows "unat (w - 1) = unat w - 1"
  using assms by (simp add: unat_minus_one)

lemma less_max_u32_iff: "(w :: u32) < max_u32 \<longleftrightarrow> w \<noteq> max_u32"
  by (metis less_le word_order.extremum word_order.not_eq_extremum)

subsection \<open>Loops\<close>

text \<open>
  A range loop whose body may panic, and one that also returns early at the first error.
\<close>

fun for_each :: "('a \<Rightarrow> 's \<Rightarrow> 's option) \<Rightarrow> 'a list \<Rightarrow> 's \<Rightarrow> 's option" where
  "for_each f [] s = Some s"
| "for_each f (x # xs) s = do { s' \<leftarrow> f x s; for_each f xs s' }"

fun for_each_err :: "('a \<Rightarrow> 's \<Rightarrow> (go_err option \<times> 's) option) \<Rightarrow> 'a list \<Rightarrow> 's \<Rightarrow> (go_err option \<times> 's) option" where
  "for_each_err f [] s = Some (None, s)"
| "for_each_err f (x # xs) s = do {
     (e, s') \<leftarrow> f x s;
     (case e of Some err \<Rightarrow> Some (Some err, s') | None \<Rightarrow> for_each_err f xs s') }"

lemma for_each_map: "for_each f (map g ks) s = for_each (\<lambda>k. f (g k)) ks s"
proof (induction ks arbitrary: s)
  case (Cons k ks)
  then show ?case by (cases "f (g k) s") simp_all
qed simp

lemma for_each_inv:
  assumes "\<And>x s. x \<in> set xs \<Longrightarrow> I s \<Longrightarrow> \<exists>s'. f x s = Some s' \<and> I s' \<and> R s s'"
    and "\<And>s. I s \<Longrightarrow> R s s" and "\<And>a b c. R a b \<Longrightarrow> R b c \<Longrightarrow> R a c" and "I s"
  shows "\<exists>s'. for_each f xs s = Some s' \<and> I s' \<and> R s s'"
  using assms(1,4)
proof (induction xs arbitrary: s)
  case Nil
  then show ?case using assms(2) by auto
next
  case (Cons x xs)
  then obtain s1 where s1: "f x s = Some s1" "I s1" "R s s1" by (meson list.set_intros(1))
  obtain s2 where "for_each f xs s1 = Some s2" "I s2" "R s1 s2"
    using Cons.IH [OF _ s1(2)] Cons.prems(1) by (meson list.set_intros(2))
  then show ?case using s1 assms(3) by (metis bind.bind_lunit for_each.simps(2))
qed

lemma for_each_err_inv:
  assumes "\<And>x s. x \<in> set xs \<Longrightarrow> I s \<Longrightarrow> \<exists>e s'. f x s = Some (e, s') \<and> I s' \<and> R s s'"
    and "\<And>s. I s \<Longrightarrow> R s s" and "\<And>a b c. R a b \<Longrightarrow> R b c \<Longrightarrow> R a c" and "I s"
  shows "\<exists>e s'. for_each_err f xs s = Some (e, s') \<and> I s' \<and> R s s'"
  using assms(1,4)
proof (induction xs arbitrary: s)
  case Nil
  then show ?case using assms(2) by auto
next
  case (Cons x xs)
  then obtain e s1 where s1: "f x s = Some (e, s1)" "I s1" "R s s1" by (meson list.set_intros(1))
  show ?case
  proof (cases e)
    case None
    obtain e2 s2 where "for_each_err f xs s1 = Some (e2, s2)" "I s2" "R s1 s2"
      using Cons.IH [OF _ s1(2)] Cons.prems(1) by (meson list.set_intros(2))
    then show ?thesis using s1 None assms(3) [of s s1 s2] by auto
  next
    case (Some err)
    then show ?thesis using s1 by auto
  qed
qed

end
