(* ===== verification/Nets.thy ===== *)
theory Nets
  imports Kmesh_Prelude
begin

text \<open>
  Byte order and address helpers (\<open>pkg/nets/nets.go\<close>): the two port conversions, copying an
  address into a fixed 16-byte array, the IPv4 test of \<open>IpString\<close>, and the comparison of two
  address lists.  The parts that open sockets or read the interfaces of the host are not here.
\<close>

subsection \<open>encoding/binary on two bytes\<close>

definition be_put16 :: "u16 \<Rightarrow> bytes" where
  "be_put16 w = [ucast (drop_bit 8 w), ucast w]"

definition le_put16 :: "u16 \<Rightarrow> bytes" where
  "le_put16 w = [ucast w, ucast (drop_bit 8 w)]"

definition le_get16 :: "bytes \<Rightarrow> u16" where
  "le_get16 b = ucast (b ! 0) OR push_bit 8 (ucast (b ! 1))"

definition be_get16 :: "bytes \<Rightarrow> u16" where
  "be_get16 b = ucast (b ! 1) OR push_bit 8 (ucast (b ! 0))"

definition ConvertPortToBigEndian :: "u32 \<Rightarrow> u32" where
  "ConvertPortToBigEndian little =
     (let little16 = (ucast little :: u16);
          tmp = be_put16 little16;
          big16 = le_get16 tmp
      in ucast big16)"

definition ConvertPortToLittleEndian :: "u32 \<Rightarrow> u32" where
  "ConvertPortToLittleEndian big =
     (let tmp = le_put16 (ucast big);
          little16 = be_get16 tmp
      in ucast little16)"

subsection \<open>Addresses\<close>

text \<open>
  \<open>copy(dst[:], src)\<close> overwrites the first \<open>len(src)\<close> bytes only, so a 4-byte source leaves the
  last twelve bytes of the destination as they were.
\<close>

definition CopyIpByteFromSlice :: "bytes \<Rightarrow> bytes \<Rightarrow> bytes" where
  "CopyIpByteFromSlice dst src =
     (let len = length src
      in if len \<noteq> 4 \<and> len \<noteq> 16 then dst
         else take (length dst) src @ drop len dst)"

abbreviation zero_ip :: bytes where
  "zero_ip \<equiv> replicate 16 0"

definition isZeros :: "bytes \<Rightarrow> bool" where
  "isZeros p = list_all (\<lambda>b. b = 0) p"

text \<open>
  \<open>IpString\<close> up to the standard library's formatting: the slice that \<open>net.IP.String\<close> prints,
  four bytes when the bytes from index 5 on are all zero.
\<close>

definition IpString_slice :: "bytes \<Rightarrow> bytes" where
  "IpString_slice ip = (if isZeros (drop 5 ip) then take 4 ip else ip)"

text \<open>
  \<open>netip.AddrFromSlice\<close>: a 4-byte or 16-byte slice is an address, anything else is the zero
  \<open>netip.Addr\<close>.
\<close>

type_synonym netip_addr = "bytes option"

definition AddrFromSlice :: "bytes \<Rightarrow> netip_addr" where
  "AddrFromSlice b = (if length b = 4 \<or> length b = 16 then Some b else None)"

text \<open>
  \<open>CompareIpByte\<close>.  The Go map is keyed by \<open>ip.String()\<close>, which is injective on \<open>netip.Addr\<close>
  values, so the model keys it by the address.
\<close>

primrec CompareIpByte_scan :: "netip_addr set \<Rightarrow> bytes list \<Rightarrow> bytes list" where
  "CompareIpByte_scan aSet [] = []"
| "CompareIpByte_scan aSet (item # b) =
     (if AddrFromSlice item \<notin> aSet then item # CompareIpByte_scan aSet b
      else CompareIpByte_scan (aSet - {AddrFromSlice item}) b)"

definition CompareIpByte :: "bytes list \<Rightarrow> bytes list \<Rightarrow> bytes list" where
  "CompareIpByte a b = CompareIpByte_scan (AddrFromSlice ` set a) b"

subsection \<open>Ports\<close>

lemma bit_ConvertPortToBigEndian:
  "bit (ConvertPortToBigEndian p) n \<longleftrightarrow>
     n < 16 \<and> (if n < 8 then bit p (8 + n) else bit p (n - 8))"
  by (auto simp: ConvertPortToBigEndian_def be_put16_def le_get16_def Let_def bit_simps
      dest: bit_imp_le_length)

lemma bit_ConvertPortToLittleEndian:
  "bit (ConvertPortToLittleEndian p) n \<longleftrightarrow>
     n < 16 \<and> (if n < 8 then bit p (8 + n) else bit p (n - 8))"
  by (auto simp: ConvertPortToLittleEndian_def le_put16_def be_get16_def Let_def bit_simps
      dest: bit_imp_le_length)

lemma port_swap_swap:
  "ConvertPortToLittleEndian (ConvertPortToBigEndian p) = take_bit 16 p"
  by (rule bit_word_eqI) (auto simp: bit_ConvertPortToLittleEndian bit_ConvertPortToBigEndian
      bit_take_bit_iff)

lemma ConvertPort_same: "ConvertPortToLittleEndian p = ConvertPortToBigEndian p"
  by (rule bit_word_eqI)
    (simp add: bit_ConvertPortToLittleEndian bit_ConvertPortToBigEndian)

lemma take_bit_16_port: "unat p < 65536 \<Longrightarrow> take_bit 16 (p :: u32) = p"
  by (simp add: word_unat_eq_iff unsigned_take_bit_eq take_bit_nat_eq_self)

text \<open>
  The two port conversions undo each other on every port number: converting a port below
  65536 to network order and back, in either order, gives the port.
\<close>

theorem port_roundtrip:
  assumes "unat p < 65536"
  shows "ConvertPortToLittleEndian (ConvertPortToBigEndian p) = p \<and>
         ConvertPortToBigEndian (ConvertPortToLittleEndian p) = p"
  using port_swap_swap [of p] take_bit_16_port [OF assms] by (simp add: ConvertPort_same)

theorem port_roundtrip_witness:
  "unat (15008 :: u32) < 65536 \<and>
   ConvertPortToLittleEndian (ConvertPortToBigEndian 15008) = 15008"
  using port_roundtrip [of 15008] by simp

subsection \<open>Copying and comparing addresses\<close>

lemma length_CopyIpByteFromSlice [simp]:
  "length dst = 16 \<Longrightarrow> length (CopyIpByteFromSlice dst src) = 16"
  by (auto simp: CopyIpByteFromSlice_def Let_def)

lemma CopyIp_16: "length dst = 16 \<Longrightarrow> length src = 16 \<Longrightarrow> CopyIpByteFromSlice dst src = src"
  by (simp add: CopyIpByteFromSlice_def)

lemma CopyIp_4:
  "length dst = 16 \<Longrightarrow> length src = 4 \<Longrightarrow> CopyIpByteFromSlice dst src = src @ drop 4 dst"
  by (simp add: CopyIpByteFromSlice_def)

lemma CopyIp_bad:
  "length src \<noteq> 4 \<Longrightarrow> length src \<noteq> 16 \<Longrightarrow> CopyIpByteFromSlice dst src = dst"
  by (simp add: CopyIpByteFromSlice_def)

lemma CompareIpByte_scan_distinct:
  "distinct (map AddrFromSlice b) \<Longrightarrow>
   CompareIpByte_scan A b = filter (\<lambda>x. AddrFromSlice x \<notin> A) b"
proof (induction b arbitrary: A)
  case Nil
  then show ?case by simp
next
  case (Cons x b)
  from Cons.prems have "\<forall>y \<in> set b. AddrFromSlice y \<noteq> AddrFromSlice x" by (auto simp: image_iff)
  then have "filter (\<lambda>y. AddrFromSlice y \<notin> A - {AddrFromSlice x}) b
           = filter (\<lambda>y. AddrFromSlice y \<notin> A) b"
    by (intro filter_cong) auto
  with Cons show ?case by simp
qed

lemma CompareIpByte_scan_superset:
  "x \<in> set b \<Longrightarrow> AddrFromSlice x \<notin> A \<Longrightarrow> x \<in> set (CompareIpByte_scan A b)"
  by (induction b arbitrary: A) auto

end
