(* ===== verification/Workload_Api.thy ===== *)
theory Workload_Api
  imports Nets
begin

text \<open>
  The resources of the workload API (\<open>api/v2/workloadapi\<close>): services, workloads and the
  messages inside them, with the fields the controllers read.  A message pointer that may be
  nil is an option, a repeated field a list (nil and empty are the same list, as they are after
  unmarshalling), the map of a workload's services the association list in iteration order.

  \<open>svc_obj\<close> is the identity of the Go object a service pointer refers to, which one comparison
  of the service cache inspects; every service received from the control plane is a new object.
\<close>

record NetworkAddress =
  na_network :: string
  na_address :: bytes

datatype Destination = DestHostname string string | DestAddress NetworkAddress

record GatewayAddress =
  gw_destination :: "Destination option"
  gw_hbone_mtls_port :: u32

record Port =
  service_port :: u32
  target_port :: u32

datatype LB_Scope = UNSPECIFIED_SCOPE | REGION | ZONE | SUBZONE | NODE | CLUSTER | NETWORK

text \<open>The load balancing mode is stored as its number: 0 is \<open>UNSPECIFIED_MODE\<close>.\<close>

abbreviation (input) UNSPECIFIED_MODE :: u32 where "UNSPECIFIED_MODE \<equiv> 0"
abbreviation (input) STRICT :: u32 where "STRICT \<equiv> 1"
abbreviation (input) FAILOVER :: u32 where "FAILOVER \<equiv> 2"

record LoadBalancing =
  routing_preference :: "LB_Scope list"
  lb_mode :: u32

record Service =
  svc_obj :: nat
  svc_name :: string
  svc_namespace :: string
  svc_hostname :: string
  svc_addresses :: "NetworkAddress list"
  svc_ports :: "Port list"
  svc_waypoint :: "GatewayAddress option"
  svc_load_balancing :: "LoadBalancing option"

record Locality =
  loc_region :: string
  loc_zone :: string
  loc_subzone :: string

datatype NetworkMode = STANDARD | HOST_NETWORK
datatype WorkloadStatus = HEALTHY | UNHEALTHY

record Workload =
  wl_uid :: string
  wl_name :: string
  wl_namespace :: string
  wl_addresses :: "bytes list"
  wl_network :: string
  wl_trust_domain :: string
  wl_service_account :: string
  wl_waypoint :: "GatewayAddress option"
  wl_node :: string
  wl_services :: "(string \<times> Port list) list"
  wl_authorization_policies :: "string list"
  wl_status :: WorkloadStatus
  wl_cluster_id :: string
  wl_locality :: "Locality option"
  wl_network_mode :: NetworkMode

subsection \<open>Getters\<close>

text \<open>A getter on a nil message returns the zero value of the field.\<close>

definition GetRegion :: "Locality option \<Rightarrow> string" where
  "GetRegion l = (case l of None \<Rightarrow> '''' | Some x \<Rightarrow> loc_region x)"

definition GetZone :: "Locality option \<Rightarrow> string" where
  "GetZone l = (case l of None \<Rightarrow> '''' | Some x \<Rightarrow> loc_zone x)"

definition GetSubzone :: "Locality option \<Rightarrow> string" where
  "GetSubzone l = (case l of None \<Rightarrow> '''' | Some x \<Rightarrow> loc_subzone x)"

definition GetRoutingPreference :: "LoadBalancing option \<Rightarrow> LB_Scope list" where
  "GetRoutingPreference lb = (case lb of None \<Rightarrow> [] | Some x \<Rightarrow> routing_preference x)"

definition GetMode :: "LoadBalancing option \<Rightarrow> u32" where
  "GetMode lb = (case lb of None \<Rightarrow> UNSPECIFIED_MODE | Some x \<Rightarrow> lb_mode x)"

definition gw_address :: "GatewayAddress \<Rightarrow> NetworkAddress option" where
  "gw_address g = (case gw_destination g of Some (DestAddress a) \<Rightarrow> Some a | _ \<Rightarrow> None)"

text \<open>\<open>GetAddress()\<close> of a possibly nil waypoint: nil unless it names an IP address.\<close>

definition waypoint_address :: "GatewayAddress option \<Rightarrow> NetworkAddress option" where
  "waypoint_address w = (case w of None \<Rightarrow> None | Some g \<Rightarrow> gw_address g)"

text \<open>\<open>GetHostname()\<close>: namespace and hostname, both empty on a nil message.\<close>

definition gw_hostname :: "GatewayAddress \<Rightarrow> string \<times> string" where
  "gw_hostname g = (case gw_destination g of Some (DestHostname ns h) \<Rightarrow> (ns, h) | _ \<Rightarrow> ('''', ''''))"

definition Workload_ResourceName :: "Workload \<Rightarrow> string" where
  "Workload_ResourceName x = wl_uid x"

definition Service_ResourceName :: "Service \<Rightarrow> string" where
  "Service_ResourceName x = svc_namespace x @ ''/'' @ svc_hostname x"

definition GetIpAddresses :: "Service \<Rightarrow> bytes list" where
  "GetIpAddresses x = map na_address (svc_addresses x)"

lemmas getter_defs = GetRegion_def GetZone_def GetSubzone_def GetRoutingPreference_def GetMode_def
  gw_address_def waypoint_address_def gw_hostname_def

end
