(* ===== verification/Bpf_Maps.thy ===== *)
theory Bpf_Maps
  imports Workload_Api
begin

text \<open>
  The five bpf maps of the workload mode and the library that accesses them.

  The maps live in the kernel and are reached through \<open>cilium/ebpf\<close>, which is not part of the
  repository: the operations of a map are a parameter \<open>map_ops\<close> over an abstract kernel state,
  and the maps of one kernel state are a \<open>kernel\<close>.  What the code relies on is \<open>kernel_laws\<close>:
  an update or deletion that reports success changes exactly the entry it names, one that
  reports an error changes nothing (a deletion that reports a missing key leaves it missing),
  no operation touches another map, and iterating yields every entry once.  Operations may
  fail at any time.  \<open>kernel_reliable\<close> adds that updates and deletions do not fail.

  A kernel also keeps the history of its states (\<open>KmHistory\<close>), the sequence of views a bpf
  program running between two system calls can see; no operation reads it.
\<close>

subsection \<open>Keys and values\<close>

abbreviation MaxPortNum :: nat where "MaxPortNum \<equiv> 10"
abbreviation MaxServiceNum :: nat where "MaxServiceNum \<equiv> 10"
abbreviation PrioCount :: nat where "PrioCount \<equiv> 7"

record ServiceValue =
  EndpointCount :: "u32 list"
  LbPolicy :: u32
  ServicePort :: "u32 list"
  TargetPort :: "u32 list"
  sv_WaypointAddr :: bytes
  sv_WaypointPort :: u32

definition zero_ServiceValue :: ServiceValue where
  "zero_ServiceValue = \<lparr>EndpointCount = replicate PrioCount 0, LbPolicy = 0,
     ServicePort = replicate MaxPortNum 0, TargetPort = replicate MaxPortNum 0,
     sv_WaypointAddr = zero_ip, sv_WaypointPort = 0\<rparr>"

text \<open>An endpoint key is the triple of service id, priority and backend index.\<close>

datatype EndpointKey = EndpointKey (ek_ServiceId: u32) (ek_Prio: u32) (ek_BackendIndex: u32)

record BackendValue =
  bv_Ip :: bytes
  bv_ServiceCount :: u32
  bv_Services :: "u32 list"
  bv_WaypointAddr :: bytes
  bv_WaypointPort :: u32

definition zero_BackendValue :: BackendValue where
  "zero_BackendValue = \<lparr>bv_Ip = zero_ip, bv_ServiceCount = 0, bv_Services = replicate MaxServiceNum 0,
     bv_WaypointAddr = zero_ip, bv_WaypointPort = 0\<rparr>"

text \<open>
  The structs with one field are that field: a frontend key is an address, a frontend value an
  upstream id, a service, backend and workload policy key an id, an endpoint value a backend
  uid and a workload policy value the array of four policy ids.
\<close>

type_synonym FrontendKey = bytes
type_synonym WorkloadPolicyValue = "u32 list"

subsection \<open>The kernel\<close>

record ('m, 'k, 'v) map_ops =
  m_lookup :: "'m \<Rightarrow> 'k \<Rightarrow> go_err + 'v"
  m_update :: "'m \<Rightarrow> 'k \<Rightarrow> 'v \<Rightarrow> go_err option \<times> 'm"
  m_delete :: "'m \<Rightarrow> 'k \<Rightarrow> go_err option \<times> 'm"
  m_iterate :: "'m \<Rightarrow> ('k \<times> 'v) list"

text \<open>What the five maps hold, as the partial functions that lookups see.\<close>

record kview =
  v_frontend :: "FrontendKey \<rightharpoonup> u32"
  v_service :: "u32 \<rightharpoonup> ServiceValue"
  v_endpoint :: "EndpointKey \<rightharpoonup> u32"
  v_backend :: "u32 \<rightharpoonup> BackendValue"
  v_wlpolicy :: "u32 \<rightharpoonup> WorkloadPolicyValue"

record 'm kernel =
  KmFrontend :: "('m, FrontendKey, u32) map_ops"
  KmService :: "('m, u32, ServiceValue) map_ops"
  KmEndpoint :: "('m, EndpointKey, u32) map_ops"
  KmBackend :: "('m, u32, BackendValue) map_ops"
  KmWlpolicy :: "('m, u32, WorkloadPolicyValue) map_ops"
  KmHistory :: "'m \<Rightarrow> kview list"

definition contents :: "('m, 'k, 'v) map_ops \<Rightarrow> 'm \<Rightarrow> 'k \<rightharpoonup> 'v" where
  "contents M m k = (case m_lookup M m k of Inl _ \<Rightarrow> None | Inr v \<Rightarrow> Some v)"

definition kview_of :: "'m kernel \<Rightarrow> 'm \<Rightarrow> kview" where
  "kview_of K m = \<lparr>v_frontend = contents (KmFrontend K) m, v_service = contents (KmService K) m,
     v_endpoint = contents (KmEndpoint K) m, v_backend = contents (KmBackend K) m,
     v_wlpolicy = contents (KmWlpolicy K) m\<rparr>"

text \<open>
  The law of one map: \<open>put\<close> replaces the map's contents in a view.  Every operation appends the
  view it produces to the history.
\<close>

definition put_result :: "('k \<rightharpoonup> 'v) \<Rightarrow> 'k \<Rightarrow> 'v \<Rightarrow> go_err option \<Rightarrow> 'k \<rightharpoonup> 'v" where
  "put_result c k v e = (if e = None then c(k \<mapsto> v) else c)"

definition del_result :: "('k \<rightharpoonup> 'v) \<Rightarrow> 'k \<Rightarrow> go_err option \<Rightarrow> 'k \<rightharpoonup> 'v" where
  "del_result c k e = (case e of None \<Rightarrow> c(k := None) | Some x \<Rightarrow> if is_not_exist x then c(k := None) else c)"

definition map_law :: "'m kernel \<Rightarrow> ('m, 'k, 'v) map_ops \<Rightarrow> (('k \<rightharpoonup> 'v) \<Rightarrow> kview \<Rightarrow> kview) \<Rightarrow> bool" where
  "map_law K M put \<longleftrightarrow>
     (\<forall>m k v. kview_of K (snd (m_update M m k v)) =
        put (put_result (contents M m) k v (fst (m_update M m k v))) (kview_of K m)) \<and>
     (\<forall>m k v. KmHistory K (snd (m_update M m k v)) =
        kview_of K (snd (m_update M m k v)) # KmHistory K m) \<and>
     (\<forall>m k. kview_of K (snd (m_delete M m k)) =
        put (del_result (contents M m) k (fst (m_delete M m k))) (kview_of K m)) \<and>
     (\<forall>m k. KmHistory K (snd (m_delete M m k)) =
        kview_of K (snd (m_delete M m k)) # KmHistory K m) \<and>
     (\<forall>m. distinct (map fst (m_iterate M m)) \<and> map_of (m_iterate M m) = contents M m)"

definition kernel_laws :: "'m kernel \<Rightarrow> bool" where
  "kernel_laws K \<longleftrightarrow>
     map_law K (KmFrontend K) (\<lambda>c v. v\<lparr>v_frontend := c\<rparr>) \<and>
     map_law K (KmService K) (\<lambda>c v. v\<lparr>v_service := c\<rparr>) \<and>
     map_law K (KmEndpoint K) (\<lambda>c v. v\<lparr>v_endpoint := c\<rparr>) \<and>
     map_law K (KmBackend K) (\<lambda>c v. v\<lparr>v_backend := c\<rparr>) \<and>
     map_law K (KmWlpolicy K) (\<lambda>c v. v\<lparr>v_wlpolicy := c\<rparr>)"

definition map_reliable :: "('m, 'k, 'v) map_ops \<Rightarrow> bool" where
  "map_reliable M \<longleftrightarrow>
     (\<forall>m k v. fst (m_update M m k v) = None) \<and>
     (\<forall>m k. case fst (m_delete M m k) of None \<Rightarrow> True | Some e \<Rightarrow> is_not_exist e)"

definition kernel_reliable :: "'m kernel \<Rightarrow> bool" where
  "kernel_reliable K \<longleftrightarrow> map_reliable (KmFrontend K) \<and> map_reliable (KmService K) \<and>
     map_reliable (KmEndpoint K) \<and> map_reliable (KmBackend K) \<and> map_reliable (KmWlpolicy K)"

lemma kview_of_sel [simp]:
  "v_frontend (kview_of K m) = contents (KmFrontend K) m"
  "v_service (kview_of K m) = contents (KmService K) m"
  "v_endpoint (kview_of K m) = contents (KmEndpoint K) m"
  "v_backend (kview_of K m) = contents (KmBackend K) m"
  "v_wlpolicy (kview_of K m) = contents (KmWlpolicy K) m"
  by (simp_all add: kview_of_def)

text \<open>Each law in the form proofs use it: destructors for one map operation.\<close>

lemma map_lawD:
  assumes "map_law K M put" and "m_update M m k v = (e, m')"
  shows "kview_of K m' = put (put_result (contents M m) k v e) (kview_of K m)"
    and "KmHistory K m' = kview_of K m' # KmHistory K m"
  using assms unfolding map_law_def by (metis fst_conv snd_conv)+

lemma map_law_deleteD:
  assumes "map_law K M put" and "m_delete M m k = (e, m')"
  shows "kview_of K m' = put (del_result (contents M m) k e) (kview_of K m)"
    and "KmHistory K m' = kview_of K m' # KmHistory K m"
  using assms unfolding map_law_def by (metis fst_conv snd_conv)+

lemma map_law_iterateD:
  assumes "map_law K M put"
  shows "distinct (map fst (m_iterate M m))" "map_of (m_iterate M m) = contents M m"
    "(k, v) \<in> set (m_iterate M m) \<longleftrightarrow> contents M m k = Some v"
  using assms unfolding map_law_def by (auto simp: map_of_eq_Some_iff [symmetric])

lemma kernel_lawsD:
  assumes "kernel_laws K"
  shows "map_law K (KmFrontend K) (\<lambda>c v. v\<lparr>v_frontend := c\<rparr>)"
    "map_law K (KmService K) (\<lambda>c v. v\<lparr>v_service := c\<rparr>)"
    "map_law K (KmEndpoint K) (\<lambda>c v. v\<lparr>v_endpoint := c\<rparr>)"
    "map_law K (KmBackend K) (\<lambda>c v. v\<lparr>v_backend := c\<rparr>)"
    "map_law K (KmWlpolicy K) (\<lambda>c v. v\<lparr>v_wlpolicy := c\<rparr>)"
  using assms by (simp_all add: kernel_laws_def)

subsection \<open>A kernel of association lists\<close>

text \<open>
  The laws can be met: a kernel state that keeps each map as an association list and never
  fails.  Witnesses run the model on it.
\<close>

record refmaps =
  r_frontend :: "(FrontendKey \<times> u32) list"
  r_service :: "(u32 \<times> ServiceValue) list"
  r_endpoint :: "(EndpointKey \<times> u32) list"
  r_backend :: "(u32 \<times> BackendValue) list"
  r_wlpolicy :: "(u32 \<times> WorkloadPolicyValue) list"
  r_history :: "kview list"

definition ref_view :: "refmaps \<Rightarrow> kview" where
  "ref_view m = \<lparr>v_frontend = map_of (r_frontend m), v_service = map_of (r_service m),
     v_endpoint = map_of (r_endpoint m), v_backend = map_of (r_backend m),
     v_wlpolicy = map_of (r_wlpolicy m)\<rparr>"

definition ref_log :: "refmaps \<Rightarrow> refmaps" where
  "ref_log m = m\<lparr>r_history := ref_view m # r_history m\<rparr>"

definition ref_ops :: "(refmaps \<Rightarrow> ('k \<times> 'v) list) \<Rightarrow> (('k \<times> 'v) list \<Rightarrow> refmaps \<Rightarrow> refmaps) \<Rightarrow>
    (refmaps, 'k, 'v) map_ops" where
  "ref_ops get put = \<lparr>
     m_lookup = (\<lambda>m k. case map_of (get m) k of None \<Rightarrow> Inl KeyNotExist | Some v \<Rightarrow> Inr v),
     m_update = (\<lambda>m k v. (None, ref_log (put (AList.update k v (get m)) m))),
     m_delete = (\<lambda>m k. (case map_of (get m) k of None \<Rightarrow> Some KeyNotExist | Some _ \<Rightarrow> None,
                        ref_log (put (AList.delete k (get m)) m))),
     m_iterate = (\<lambda>m. AList.clearjunk (get m))\<rparr>"

definition ref_kernel :: "refmaps kernel" where
  "ref_kernel = \<lparr>
     KmFrontend = ref_ops r_frontend (\<lambda>l m. m\<lparr>r_frontend := l\<rparr>),
     KmService = ref_ops r_service (\<lambda>l m. m\<lparr>r_service := l\<rparr>),
     KmEndpoint = ref_ops r_endpoint (\<lambda>l m. m\<lparr>r_endpoint := l\<rparr>),
     KmBackend = ref_ops r_backend (\<lambda>l m. m\<lparr>r_backend := l\<rparr>),
     KmWlpolicy = ref_ops r_wlpolicy (\<lambda>l m. m\<lparr>r_wlpolicy := l\<rparr>),
     KmHistory = r_history\<rparr>"

definition empty_maps :: refmaps where
  "empty_maps = \<lparr>r_frontend = [], r_service = [], r_endpoint = [], r_backend = [], r_wlpolicy = [],
     r_history = []\<rparr>"

lemma contents_ref_ops [simp]: "contents (ref_ops get put) m = map_of (get m)"
  by (auto simp: fun_eq_iff contents_def ref_ops_def split: option.splits)

lemma kview_of_ref: "kview_of ref_kernel = ref_view"
  by (simp add: fun_eq_iff kview_of_def ref_view_def ref_kernel_def)

lemma ref_view_log [simp]: "ref_view (ref_log m) = ref_view m" "r_history (ref_log m) = ref_view m # r_history m"
  by (simp_all add: ref_view_def ref_log_def)

lemma ref_ops_sel [simp]:
  "m_lookup (ref_ops get put) m k = (case map_of (get m) k of None \<Rightarrow> Inl KeyNotExist | Some v \<Rightarrow> Inr v)"
  "m_update (ref_ops get put) m k v = (None, ref_log (put (AList.update k v (get m)) m))"
  "m_delete (ref_ops get put) m k = (case map_of (get m) k of None \<Rightarrow> Some KeyNotExist | Some _ \<Rightarrow> None,
     ref_log (put (AList.delete k (get m)) m))"
  "m_iterate (ref_ops get put) m = AList.clearjunk (get m)"
  by (simp_all add: ref_ops_def)

lemma ref_kernel_sel [simp]:
  "KmFrontend ref_kernel = ref_ops r_frontend (\<lambda>l m. m\<lparr>r_frontend := l\<rparr>)"
  "KmService ref_kernel = ref_ops r_service (\<lambda>l m. m\<lparr>r_service := l\<rparr>)"
  "KmEndpoint ref_kernel = ref_ops r_endpoint (\<lambda>l m. m\<lparr>r_endpoint := l\<rparr>)"
  "KmBackend ref_kernel = ref_ops r_backend (\<lambda>l m. m\<lparr>r_backend := l\<rparr>)"
  "KmWlpolicy ref_kernel = ref_ops r_wlpolicy (\<lambda>l m. m\<lparr>r_wlpolicy := l\<rparr>)"
  "KmHistory ref_kernel = r_history"
  by (simp_all add: ref_kernel_def)

lemma map_law_ref_ops:
  assumes "\<And>l m. ref_view (put l m) = upd (map_of l) (ref_view m)"
    and "\<And>l m. r_history (put l m) = r_history m"
  shows "map_law ref_kernel (ref_ops get put) upd"
  unfolding map_law_def kview_of_ref
  by (auto simp: assms put_result_def del_result_def distinct_clearjunk map_of_clearjunk
      split: option.splits)

lemma ref_kernel_laws: "kernel_laws ref_kernel"
  unfolding kernel_laws_def ref_kernel_sel
  by (intro conjI map_law_ref_ops) (simp_all add: ref_view_def)

lemma ref_kernel_reliable: "kernel_reliable ref_kernel"
  by (auto simp: kernel_reliable_def map_reliable_def split: option.splits)

end
