(* ===== verification/Hash_Name.thy ===== *)
theory Hash_Name
  imports Kmesh_Prelude
begin

text \<open>
  The table that turns resource names into the 32-bit keys of the BPF maps
  (\<open>pkg/utils/hash_name.go\<close>): FNV-1a of the name, linear probing, both directions of the
  mapping in memory and the forward direction persisted in a YAML file.

  The YAML codec is a third-party package: it is the pair of functions \<open>yaml_codec\<close> that the
  operations take as an argument.  Whether a write to the file succeeds is decided by the
  environment (\<open>io_ok\<close>); the code only logs a failed write.
\<close>

subsection \<open>hash/fnv\<close>

text \<open>FNV-1a on 32 bits, as \<open>hash/fnv\<close> computes it: xor with the byte, then multiply.\<close>

definition fnv32a_step :: "u32 \<Rightarrow> u8 \<Rightarrow> u32" where
  "fnv32a_step h b = (h XOR ucast b) * 16777619"

definition fnv32a :: "string \<Rightarrow> u32" where
  "fnv32a s = foldl fnv32a_step 2166136261 (str_bytes s)"

subsection \<open>State\<close>

record yaml_codec =
  yaml_marshal :: "(string \<times> u32) list \<Rightarrow> string"
  yaml_unmarshal :: "string \<Rightarrow> bool \<times> (string \<times> u32) list"

record hash_name =
  numToStr :: "u32 \<rightharpoonup> string"
  strToNum :: "(string \<times> u32) list"
  persist :: "string option"

definition lookup_num :: "hash_name \<Rightarrow> string \<Rightarrow> u32 option" where
  "lookup_num h str = map_of (strToNum h) str"

subsection \<open>Persistence\<close>

definition decimal_digit :: "nat \<Rightarrow> char" where
  "decimal_digit d = char_of (48 + d)"

fun decimal :: "nat \<Rightarrow> string" where
  "decimal n = (if n < 10 then [decimal_digit n] else decimal (n div 10) @ [decimal_digit (n mod 10)])"

declare decimal.simps [simp del]

text \<open>
  \<open>yaml.Unmarshal\<close> reports success and leaves a map behind in either case; a file that cannot
  be read leaves the empty map.
\<close>

definition readFromPersistFile :: "yaml_codec \<Rightarrow> string option \<Rightarrow> bool \<times> (string \<times> u32) list" where
  "readFromPersistFile Y disk =
     (case disk of None \<Rightarrow> (False, []) | Some data \<Rightarrow> yaml_unmarshal Y data)"

definition NewHashName :: "yaml_codec \<Rightarrow> string option \<Rightarrow> hash_name" where
  "NewHashName Y disk =
     (let (ok, m) = readFromPersistFile Y disk
      in if \<not> ok then \<lparr>numToStr = Map.empty, strToNum = m, persist = disk\<rparr>
         else \<lparr>numToStr = fold (\<lambda>(str, num) acc. acc(num \<mapsto> str)) m Map.empty,
               strToNum = m, persist = disk\<rparr>)"

definition flush :: "yaml_codec \<Rightarrow> bool \<Rightarrow> hash_name \<Rightarrow> hash_name" where
  "flush Y io_ok h =
     (if \<not> io_ok then h
      else if strToNum h = [] then h\<lparr>persist := Some ''''\<rparr>
      else h\<lparr>persist := Some (yaml_marshal Y (strToNum h))\<rparr>)"

text \<open>The file is opened for appending and created when it is not there.\<close>

definition flushDelta :: "bool \<Rightarrow> string \<Rightarrow> u32 \<Rightarrow> hash_name \<Rightarrow> hash_name" where
  "flushDelta io_ok str num h =
     (if \<not> io_ok then h
      else h\<lparr>persist := Some ((case persist h of None \<Rightarrow> '''' | Some d \<Rightarrow> d)
               @ str @ '': '' @ decimal (unat num) @ [CHR 10])\<rparr>)"

subsection \<open>Hashing\<close>

text \<open>
  The probing loop of \<open>Hash\<close>: \<open>for num = sum; num < math.MaxUint32; num++\<close>, leaving at the
  first free slot.  The value is the \<open>num\<close> the loop ends with.
\<close>

function probe :: "(u32 \<rightharpoonup> string) \<Rightarrow> u32 \<Rightarrow> u32" where
  "probe N num =
     (if num < max_u32
      then if N num = None then num
           else probe N ((if num = max_u32 then 0 else num) + 1)
      else num)"
  by pat_completeness auto
termination
  by (relation "measure (\<lambda>(N, num). unat max_u32 - unat num)")
    (auto simp: unat_inc less_max_u32_iff unsigned_less word_less_nat_alt)

declare probe.simps [simp del]

definition Hash :: "bool \<Rightarrow> hash_name \<Rightarrow> string \<Rightarrow> u32 \<times> hash_name" where
  "Hash io_ok h str =
     (case lookup_num h str of
        Some num \<Rightarrow> (num, h)
      | None \<Rightarrow>
          (let num = probe (numToStr h) (fnv32a str)
           in if num < max_u32
              then (num, flushDelta io_ok str num
                           (h\<lparr>numToStr := (numToStr h)(num \<mapsto> str),
                              strToNum := AList.update str num (strToNum h)\<rparr>))
              else (num, h)))"

text \<open>Reading an absent key of a Go map gives the zero value.\<close>

definition NumToStr :: "hash_name \<Rightarrow> u32 \<Rightarrow> string" where
  "NumToStr h num = (case numToStr h num of None \<Rightarrow> '''' | Some s \<Rightarrow> s)"

definition StrToNum :: "hash_name \<Rightarrow> string \<Rightarrow> u32" where
  "StrToNum h str = (case lookup_num h str of None \<Rightarrow> 0 | Some n \<Rightarrow> n)"

definition GetStrToNum :: "hash_name \<Rightarrow> (string \<times> u32) list" where
  "GetStrToNum h = strToNum h"

definition Delete :: "yaml_codec \<Rightarrow> bool \<Rightarrow> hash_name \<Rightarrow> string \<Rightarrow> hash_name" where
  "Delete Y io_ok h str =
     (case lookup_num h str of
        None \<Rightarrow> h
      | Some num \<Rightarrow>
          flush Y io_ok (h\<lparr>numToStr := (numToStr h)(num := None),
                           strToNum := AList.delete str (strToNum h)\<rparr>))"

subsection \<open>Lemmas\<close>

lemma flushDelta_simps [simp]:
  "numToStr (flushDelta io str num h) = numToStr h"
  "strToNum (flushDelta io str num h) = strToNum h"
  "lookup_num (flushDelta io str num h) = lookup_num h"
  by (simp_all add: flushDelta_def lookup_num_def fun_eq_iff)

lemma flush_simps [simp]:
  "numToStr (flush Y io h) = numToStr h"
  "strToNum (flush Y io h) = strToNum h"
  "lookup_num (flush Y io h) = lookup_num h"
  by (simp_all add: flush_def lookup_num_def fun_eq_iff)

lemma probe_free: "probe N num \<noteq> max_u32 \<Longrightarrow> N (probe N num) = None"
proof (induction N num rule: probe.induct)
  case (1 N num)
  then show ?case
    by (subst (asm) probe.simps, subst probe.simps) (auto simp: less_max_u32_iff split: if_splits)
qed

lemma probe_ge: "num \<le> probe N num"
proof (induction N num rule: probe.induct)
  case (1 N num)
  then show ?case
    by (subst probe.simps)
      (auto simp: less_max_u32_iff word_le_nat_alt unat_inc)
qed

lemma probe_first:
  "num \<le> k \<Longrightarrow> k < probe N num \<Longrightarrow> N k \<noteq> None"
proof (induction N num rule: probe.induct)
  case (1 N num)
  show ?case
  proof (cases "num < max_u32 \<and> N num \<noteq> None")
    case True
    then have p: "probe N num = probe N (num + 1)"
      by (subst probe.simps) (auto simp: less_max_u32_iff)
    show ?thesis
    proof (cases "k = num")
      case True
      with \<open>num < max_u32 \<and> N num \<noteq> None\<close> show ?thesis by simp
    next
      case False
      with 1(2) True have "num + 1 \<le> k"
        by (auto simp: word_le_nat_alt unat_inc less_max_u32_iff word_unat_eq_iff)
      with 1(1) [of] 1(3) p True show ?thesis by (auto simp: less_max_u32_iff)
    qed
  next
    case False
    then have "probe N num = num" by (subst probe.simps) auto
    with 1(2,3) show ?thesis by simp
  qed
qed

subsection \<open>The table as an interface\<close>

text \<open>
  What the processors rely on: a name keeps its number until it is deleted, a recorded number
  belongs to one name, and hashing or deleting a name leaves the other names alone.  \<open>bad\<close> is
  the one number that a name may be given without being recorded under it.
\<close>

locale name_table =
  fixes inv :: "'h \<Rightarrow> bool"
    and num :: "'h \<Rightarrow> string \<Rightarrow> u32 option"
    and name_of :: "'h \<Rightarrow> u32 \<Rightarrow> string option"
    and hash :: "'h \<Rightarrow> string \<Rightarrow> u32 \<times> 'h"
    and del :: "'h \<Rightarrow> string \<Rightarrow> 'h"
    and bad :: u32
  assumes inverse: "inv h \<Longrightarrow> num h s = Some n \<longleftrightarrow> name_of h n = Some s"
    and inv_hash: "inv h \<Longrightarrow> inv (snd (hash h s))"
    and inv_del: "inv h \<Longrightarrow> inv (del h s)"
    and hash_known: "num h s = Some n \<Longrightarrow> hash h s = (n, h)"
    and hash_new: "inv h \<Longrightarrow> num h s = None \<Longrightarrow> fst (hash h s) \<noteq> bad \<Longrightarrow>
        num (snd (hash h s)) = (num h)(s \<mapsto> fst (hash h s))"
    and hash_bad: "inv h \<Longrightarrow> fst (hash h s) = bad \<Longrightarrow> snd (hash h s) = h"
    and del_num: "inv h \<Longrightarrow> num (del h s) = (num h)(s := None)"
begin

lemma hash_keeps:
  assumes "inv h" and "num h t = Some m"
  shows "num (snd (hash h s)) t = Some m"
proof (cases "num h s")
  case None
  with assms show ?thesis
    by (cases "fst (hash h s) = bad") (auto simp: hash_new hash_bad)
next
  case (Some n)
  then show ?thesis using assms by (simp add: hash_known)
qed

lemma hash_records:
  assumes "inv h" and "fst (hash h s) \<noteq> bad"
  shows "num (snd (hash h s)) s = Some (fst (hash h s))"
  using assms by (cases "num h s") (auto simp: hash_new hash_known)

lemma hash_stable:
  assumes "inv h" and "fst (hash h s) \<noteq> bad"
  shows "hash (snd (hash h s)) s = hash h s"
  using hash_known [OF hash_records [OF assms]] by simp

lemma num_inj:
  assumes "inv h" and "num h s = Some n" and "num h t = Some n"
  shows "s = t"
  using assms inverse [of h s n] inverse [of h t n] by simp

lemma hash_inj:
  assumes "inv h" and "fst (hash h s) \<noteq> bad" and "fst (hash (snd (hash h s)) t) \<noteq> bad"
    and "fst (hash h s) = fst (hash (snd (hash h s)) t)"
  shows "s = t"
proof -
  let ?h1 = "snd (hash h s)" and ?h2 = "snd (hash (snd (hash h s)) t)"
  have i1: "inv ?h1" and i2: "inv ?h2" using assms(1) by (auto intro: inv_hash)
  have "num ?h2 s = Some (fst (hash h s))"
    using hash_keeps [OF i1 hash_records [OF assms(1,2)]] .
  moreover have "num ?h2 t = Some (fst (hash h s))"
    using hash_records [OF i1 assms(3)] assms(4) by simp
  ultimately show ?thesis using num_inj [OF i2] by blast
qed

lemma del_then_hash_other:
  assumes "inv h" and "num h t = Some m" and "t \<noteq> s"
  shows "hash (del h s) t = (m, del h s)"
  using assms by (simp add: hash_known del_num)

end

subsection \<open>The invariant, and the table as an instance of the interface\<close>

definition hn_inv :: "hash_name \<Rightarrow> bool" where
  "hn_inv h \<longleftrightarrow>
     distinct (map fst (strToNum h)) \<and>
     (\<forall>s n. lookup_num h s = Some n \<longleftrightarrow> numToStr h n = Some s) \<and>
     numToStr h max_u32 = None"

lemma hn_inv_empty: "hn_inv \<lparr>numToStr = Map.empty, strToNum = [], persist = d\<rparr>"
  by (simp add: hn_inv_def lookup_num_def)

lemma Hash_known: "lookup_num h s = Some n \<Longrightarrow> Hash io h s = (n, h)"
  by (simp add: Hash_def)

lemma hn_inv_num: "hn_inv h \<Longrightarrow> lookup_num h s = Some n \<longleftrightarrow> numToStr h n = Some s"
  and hn_inv_max: "hn_inv h \<Longrightarrow> numToStr h max_u32 = None"
  and hn_inv_distinct: "hn_inv h \<Longrightarrow> distinct (map fst (strToNum h))"
  by (simp_all add: hn_inv_def)

lemma Hash_unrecorded:
  assumes "hn_inv h" and "fst (Hash io h s) = max_u32"
  shows "Hash io h s = (max_u32, h)"
proof (cases "lookup_num h s")
  case None
  with assms(2) show ?thesis by (auto simp: Hash_def Let_def split: if_splits)
next
  case (Some n)
  with assms hn_inv_num [OF assms(1), of s n] show ?thesis
    by (simp add: Hash_known hn_inv_max)
qed

lemma Hash_new:
  assumes "hn_inv h" and "lookup_num h s = None" and "fst (Hash io h s) \<noteq> max_u32"
  shows "lookup_num (snd (Hash io h s)) = (lookup_num h)(s \<mapsto> fst (Hash io h s))"
    and "numToStr (snd (Hash io h s)) = (numToStr h)(fst (Hash io h s) \<mapsto> s)"
    and "numToStr h (fst (Hash io h s)) = None"
    and "strToNum (snd (Hash io h s)) = AList.update s (fst (Hash io h s)) (strToNum h)"
  using assms probe_free [of "numToStr h" "fnv32a s"]
  by (auto simp: Hash_def Let_def less_max_u32_iff lookup_num_def split: if_splits)

lemma hn_inv_Hash:
  assumes "hn_inv h"
  shows "hn_inv (snd (Hash io h s))"
proof (cases "lookup_num h s = None \<and> fst (Hash io h s) \<noteq> max_u32")
  case True
  note new = Hash_new [OF assms True [THEN conjunct1] True [THEN conjunct2]]
  have "numToStr h n \<noteq> Some s" for n using True hn_inv_num [OF assms, of s n] by simp
  then show ?thesis
    using assms True new(3) unfolding hn_inv_def new(1,2,4)
    by (auto simp: distinct_update)
next
  case False
  then show ?thesis
    using assms Hash_unrecorded [OF assms, of io s] by (auto simp: Hash_known)
qed

lemma lookup_num_Delete:
  "lookup_num (Delete Y io h s) = (lookup_num h)(s := None)"
  by (auto simp: Delete_def lookup_num_def fun_eq_iff split: option.splits)

lemma numToStr_Delete:
  assumes "hn_inv h"
  shows "numToStr (Delete Y io h s) = (\<lambda>n. if numToStr h n = Some s then None else numToStr h n)"
  using hn_inv_num [OF assms, of s]
  by (auto simp: Delete_def fun_eq_iff split: option.splits) (metis option.inject)

lemma hn_inv_Delete:
  assumes "hn_inv h"
  shows "hn_inv (Delete Y io h s)"
proof -
  have "distinct (map fst (strToNum (Delete Y io h s)))"
    using hn_inv_distinct [OF assms] by (simp add: Delete_def distinct_delete split: option.split)
  then show ?thesis
    using assms by (auto simp: hn_inv_def lookup_num_Delete numToStr_Delete [OF assms])
qed

interpretation hn: name_table hn_inv lookup_num numToStr "Hash io" "Delete Y io" max_u32
proof unfold_locales
  fix h s n
  assume "hn_inv h"
  then show "(lookup_num h s = Some n) = (numToStr h n = Some s)" by (simp add: hn_inv_def)
next
  fix h s
  assume i: "hn_inv h"
  show "hn_inv (snd (Hash io h s))" by (rule hn_inv_Hash [OF i])
  show "hn_inv (Delete Y io h s)" by (rule hn_inv_Delete [OF i])
  show "lookup_num (Delete Y io h s) = (lookup_num h)(s := None)" by (rule lookup_num_Delete)
next
  fix h s n
  assume "lookup_num h s = Some n"
  then show "Hash io h s = (n, h)" by (rule Hash_known)
next
  fix h s
  assume "hn_inv h" "lookup_num h s = None" "fst (Hash io h s) \<noteq> max_u32"
  then show "lookup_num (snd (Hash io h s)) = (lookup_num h)(s \<mapsto> fst (Hash io h s))"
    by (rule Hash_new)
next
  fix h s
  assume "hn_inv h" "fst (Hash io h s) = max_u32"
  then show "snd (Hash io h s) = h" using Hash_unrecorded by fastforce
qed

subsection \<open>Properties\<close>


abbreviation empty_hash_name :: hash_name where
  "empty_hash_name \<equiv> \<lparr>numToStr = Map.empty, strToNum = [], persist = None\<rparr>"

lemma fnv32a_default_foo: "fnv32a ''default/foo'' = 3688090093"
  by code_simp


text \<open>
  No two names share a key: hashing two different names one after the other gives two
  different numbers, as long as neither number is MaxUint32.
\<close>

theorem Hash_no_collision:
  assumes "hn_inv h" and "Hash io h s = (n, h1)" and "Hash io' h1 t = (m, h2)" and "s \<noteq> t"
    and "n \<noteq> max_u32" and "m \<noteq> max_u32"
  shows "n \<noteq> m"
proof
  assume "n = m"
  have i1: "hn_inv h1" using hn_inv_Hash [OF assms(1), of io s] assms(2) by simp
  have i2: "hn_inv h2" using hn_inv_Hash [OF i1, of io' t] assms(3) by simp
  have "lookup_num h1 s = Some n" using assms(2,5) hn.hash_records [OF assms(1), of io s] by simp
  then have "lookup_num h2 s = Some n" using hn.hash_keeps [OF i1, of s n io' t] assms(3) by simp
  moreover have "lookup_num h2 t = Some n"
    using hn.hash_records [OF i1, of io' t] assms(3,6) \<open>n = m\<close> by simp
  ultimately show False using hn.num_inj [OF i2] assms(4) by blast
qed

theorem Hash_no_collision_witness:
  "\<exists>n m h1 h2. Hash True empty_hash_name ''default/foo'' = (n, h1) \<and>
     Hash True h1 ''default/bar'' = (m, h2) \<and> n \<noteq> m"
proof -
  let ?h1 = "snd (Hash True empty_hash_name ''default/foo'')"
  have n: "fst (Hash True empty_hash_name ''default/foo'') \<noteq> max_u32"
    by (simp add: Hash_def lookup_num_def fnv32a_default_foo Let_def probe.simps)
  have f: "fnv32a ''default/bar'' = 345473228" by code_simp
  have m: "fst (Hash True ?h1 ''default/bar'') \<noteq> max_u32"
    by (simp add: Hash_def lookup_num_def fnv32a_default_foo f Let_def probe.simps flushDelta_def)
  have "fst (Hash True empty_hash_name ''default/foo'') \<noteq> fst (Hash True ?h1 ''default/bar'')"
    by (rule Hash_no_collision [OF hn_inv_empty surjective_pairing surjective_pairing _ n m]) simp
  then show ?thesis by (intro exI conjI) (rule surjective_pairing)+
qed

text \<open>
  The exception is real.  When every slot from the FNV value of a name up to
  MaxUint32 - 1 is taken, the probing loop runs off the end: \<open>Hash\<close> answers MaxUint32, records
  nothing, and so every such name is given the same number.  The wrap-around written in the
  loop body is never executed, because the loop guard already excludes MaxUint32.
\<close>

theorem Hash_wraps_never:
  assumes "lookup_num h s = None"
    and "\<And>k. fnv32a s \<le> k \<Longrightarrow> k < max_u32 \<Longrightarrow> numToStr h k \<noteq> None"
  shows "Hash io h s = (max_u32, h)"
proof -
  have "probe (numToStr h) (fnv32a s) = max_u32"
  proof (rule ccontr)
    assume a: "probe (numToStr h) (fnv32a s) \<noteq> max_u32"
    then have "numToStr h (probe (numToStr h) (fnv32a s)) = None" by (rule probe_free)
    with assms(2) [OF probe_ge, of "numToStr h"] a show False by (simp add: less_max_u32_iff)
  qed
  with assms(1) show ?thesis by (simp add: Hash_def)
qed

theorem Hash_wraps_never_witness:
  "Hash True empty_hash_name ''default/roczzxr'' = (max_u32, empty_hash_name) \<and>
   Hash True empty_hash_name ''test/hgshwdr'' = (max_u32, empty_hash_name)"
proof -
  have f: "fnv32a ''default/roczzxr'' = max_u32" "fnv32a ''test/hgshwdr'' = max_u32"
    by code_simp+
  show ?thesis
    by (intro conjI Hash_wraps_never) (auto simp: f lookup_num_def less_le_not_le)
qed

text \<open>
  Deleting a name frees its number and changes nothing else, and the table stays well
  formed.
\<close>

theorem Delete_correct:
  assumes "hn_inv h"
  shows "hn_inv (Delete Y io h s) \<and>
         StrToNum (Delete Y io h s) s = 0 \<and>
         (\<forall>n. lookup_num h s = Some n \<longrightarrow> numToStr (Delete Y io h s) n = None) \<and>
         (\<forall>t. t \<noteq> s \<longrightarrow> lookup_num (Delete Y io h s) t = lookup_num h t)"
  using assms hn_inv_num [OF assms, of s]
  by (simp add: hn_inv_Delete lookup_num_Delete numToStr_Delete StrToNum_def)

theorem Delete_correct_witness:
  "hn_inv (snd (Hash True empty_hash_name ''default/foo'')) \<and>
   StrToNum (Delete \<lparr>yaml_marshal = \<lambda>_. '''', yaml_unmarshal = \<lambda>_. (True, [])\<rparr> True
       (snd (Hash True empty_hash_name ''default/foo'')) ''default/foo'') ''default/foo'' = 0"
  using hn_inv_Hash [OF hn_inv_empty] Delete_correct [OF hn_inv_Hash [OF hn_inv_empty]] by blast

end
