(* ===== verification/Bpf_Cache.thy ===== *)
theory Bpf_Cache
  imports Bpf_Maps Hash_Name
begin

text \<open>
  The bpf cache (\<open>pkg/controller/workload/bpfcache\<close>): typed access to the five maps, and the
  index of endpoint keys by workload that the cache keeps in user space.  An index entry is the
  set of keys whose endpoint is that workload; the invariant \<open>index_ok\<close> says that it is exactly
  that, and every operation on endpoints keeps it when the kernel does not fail.
\<close>

record 'm cache =
  bpfMap :: 'm
  endpointKeys :: "u32 \<rightharpoonup> EndpointKey list"

definition NewCache :: "'m \<Rightarrow> 'm cache" where
  "NewCache m = \<lparr>bpfMap = m, endpointKeys = Map.empty\<rparr>"

definition GetEndpointKeys :: "'m cache \<Rightarrow> u32 \<Rightarrow> EndpointKey list" where
  "GetEndpointKeys c uid = (case endpointKeys c uid of None \<Rightarrow> [] | Some s \<Rightarrow> s)"

text \<open>One system call of the cache, and the deletion that forgives a missing key.\<close>

definition map_Update :: "('m, 'k, 'v) map_ops \<Rightarrow> 'k \<Rightarrow> 'v \<Rightarrow> 'm cache \<Rightarrow> go_err option \<times> 'm cache" where
  "map_Update M key value c =
     (let (e, m) = m_update M (bpfMap c) key value in (e, c\<lparr>bpfMap := m\<rparr>))"

definition map_Delete :: "('m, 'k, 'v) map_ops \<Rightarrow> 'k \<Rightarrow> 'm cache \<Rightarrow> go_err option \<times> 'm cache" where
  "map_Delete M key c =
     (let (e, m) = m_delete M (bpfMap c) key in
      (case e of None \<Rightarrow> None | Some err \<Rightarrow> if is_not_exist err then None else Some err, c\<lparr>bpfMap := m\<rparr>))"

definition LookupAll :: "('m, 'k, 'v) map_ops \<Rightarrow> 'm cache \<Rightarrow> 'v list" where
  "LookupAll M c = map snd (m_iterate M (bpfMap c))"

subsection \<open>Frontend, service, backend and workload policy maps\<close>

definition FrontendUpdate :: "'m kernel \<Rightarrow> FrontendKey \<Rightarrow> u32 \<Rightarrow> 'm cache \<Rightarrow> go_err option \<times> 'm cache" where
  "FrontendUpdate K key value c = map_Update (KmFrontend K) key value c"

definition FrontendDelete :: "'m kernel \<Rightarrow> FrontendKey \<Rightarrow> 'm cache \<Rightarrow> go_err option \<times> 'm cache" where
  "FrontendDelete K key c = map_Delete (KmFrontend K) key c"

definition FrontendLookup :: "'m kernel \<Rightarrow> FrontendKey \<Rightarrow> 'm cache \<Rightarrow> go_err + u32" where
  "FrontendLookup K key c = m_lookup (KmFrontend K) (bpfMap c) key"

definition FrontendIterFindKey :: "'m kernel \<Rightarrow> u32 \<Rightarrow> 'm cache \<Rightarrow> FrontendKey list" where
  "FrontendIterFindKey K upstreamId c =
     map fst (filter (\<lambda>(key, value). value = upstreamId) (m_iterate (KmFrontend K) (bpfMap c)))"

definition FrontendLookupAll :: "'m kernel \<Rightarrow> 'm cache \<Rightarrow> u32 list" where
  "FrontendLookupAll K c = LookupAll (KmFrontend K) c"

definition ServiceUpdate :: "'m kernel \<Rightarrow> u32 \<Rightarrow> ServiceValue \<Rightarrow> 'm cache \<Rightarrow> go_err option \<times> 'm cache" where
  "ServiceUpdate K key value c = map_Update (KmService K) key value c"

definition ServiceDelete :: "'m kernel \<Rightarrow> u32 \<Rightarrow> 'm cache \<Rightarrow> go_err option \<times> 'm cache" where
  "ServiceDelete K key c = map_Delete (KmService K) key c"

definition ServiceLookup :: "'m kernel \<Rightarrow> u32 \<Rightarrow> 'm cache \<Rightarrow> go_err + ServiceValue" where
  "ServiceLookup K key c = m_lookup (KmService K) (bpfMap c) key"

definition ServiceLookupAll :: "'m kernel \<Rightarrow> 'm cache \<Rightarrow> ServiceValue list" where
  "ServiceLookupAll K c = LookupAll (KmService K) c"

definition BackendUpdate :: "'m kernel \<Rightarrow> u32 \<Rightarrow> BackendValue \<Rightarrow> 'm cache \<Rightarrow> go_err option \<times> 'm cache" where
  "BackendUpdate K key value c = map_Update (KmBackend K) key value c"

definition BackendDelete :: "'m kernel \<Rightarrow> u32 \<Rightarrow> 'm cache \<Rightarrow> go_err option \<times> 'm cache" where
  "BackendDelete K key c = map_Delete (KmBackend K) key c"

definition BackendLookup :: "'m kernel \<Rightarrow> u32 \<Rightarrow> 'm cache \<Rightarrow> go_err + BackendValue" where
  "BackendLookup K key c = m_lookup (KmBackend K) (bpfMap c) key"

definition BackendLookupAll :: "'m kernel \<Rightarrow> 'm cache \<Rightarrow> BackendValue list" where
  "BackendLookupAll K c = LookupAll (KmBackend K) c"

definition WorkloadPolicyUpdate :: "'m kernel \<Rightarrow> u32 \<Rightarrow> WorkloadPolicyValue \<Rightarrow> 'm cache \<Rightarrow>
    go_err option \<times> 'm cache" where
  "WorkloadPolicyUpdate K key value c = map_Update (KmWlpolicy K) key value c"

definition WorkloadPolicyDelete :: "'m kernel \<Rightarrow> u32 \<Rightarrow> 'm cache \<Rightarrow> go_err option \<times> 'm cache" where
  "WorkloadPolicyDelete K key c = map_Delete (KmWlpolicy K) key c"

definition WorkloadPolicyLookup :: "'m kernel \<Rightarrow> u32 \<Rightarrow> 'm cache \<Rightarrow> go_err + WorkloadPolicyValue" where
  "WorkloadPolicyLookup K key c = m_lookup (KmWlpolicy K) (bpfMap c) key"

subsection \<open>Endpoint map\<close>

definition index_insert :: "u32 \<Rightarrow> EndpointKey \<Rightarrow> (u32 \<rightharpoonup> EndpointKey list) \<Rightarrow> (u32 \<rightharpoonup> EndpointKey list)" where
  "index_insert uid key eks = (case eks uid of None \<Rightarrow> eks(uid \<mapsto> [key]) | Some s \<Rightarrow> eks(uid \<mapsto> set_ins key s))"

definition index_remove :: "u32 \<Rightarrow> EndpointKey \<Rightarrow> (u32 \<rightharpoonup> EndpointKey list) \<Rightarrow> (u32 \<rightharpoonup> EndpointKey list)" where
  "index_remove uid key eks =
     (case eks uid of
        None \<Rightarrow> eks
      | Some s \<Rightarrow> if set_del key s = [] then eks(uid := None) else eks(uid \<mapsto> set_del key s))"

definition EndpointLookup :: "'m kernel \<Rightarrow> EndpointKey \<Rightarrow> 'm cache \<Rightarrow> go_err + u32" where
  "EndpointLookup K key c = m_lookup (KmEndpoint K) (bpfMap c) key"

definition EndpointUpdate :: "'m kernel \<Rightarrow> EndpointKey \<Rightarrow> u32 \<Rightarrow> 'm cache \<Rightarrow> go_err option \<times> 'm cache" where
  "EndpointUpdate K key uid c =
     (let c1 = c\<lparr>endpointKeys := index_insert uid key (endpointKeys c)\<rparr> in
      map_Update (KmEndpoint K) key uid c1)"

definition EndpointDelete :: "'m kernel \<Rightarrow> EndpointKey \<Rightarrow> 'm cache \<Rightarrow> go_err option \<times> 'm cache" where
  "EndpointDelete K key c =
     (case m_lookup (KmEndpoint K) (bpfMap c) key of
        Inl _ \<Rightarrow> (None, c)
      | Inr uid \<Rightarrow>
          (let c1 = c\<lparr>endpointKeys := index_remove uid key (endpointKeys c)\<rparr> in
           map_Delete (KmEndpoint K) key c1))"

text \<open>\<open>EndpointSwap\<close>; inserting into the set of a workload that has none writes to a nil map.\<close>

definition EndpointSwap :: "'m kernel \<Rightarrow> u32 \<Rightarrow> u32 \<Rightarrow> u32 \<Rightarrow> u32 \<Rightarrow> u32 \<Rightarrow> 'm cache \<Rightarrow>
    (go_err option \<times> 'm cache) option" where
  "EndpointSwap K currentIndex backendUid lastIndex serviceId prio c =
     (if currentIndex > lastIndex then
        Some (Some (GoErr (''currentIndex '' @ decimal (unat currentIndex) @ '' > lastIndex '' @
                           decimal (unat lastIndex))), c)
      else if currentIndex = lastIndex \<and> lastIndex \<le> 1 then Some (None, c)
      else
        (let k = EndpointKey serviceId prio (if currentIndex = lastIndex then lastIndex - 1 else lastIndex);
             currentKey = EndpointKey serviceId prio currentIndex in
         case EndpointLookup K k c of
           Inl err \<Rightarrow> Some (Some err, c)
         | Inr lastUid \<Rightarrow>
             (case map_Update (KmEndpoint K) currentKey lastUid c of
                (Some err, c1) \<Rightarrow> Some (Some err, c1)
              | (None, c1) \<Rightarrow>
                  (let eks = index_remove backendUid currentKey (endpointKeys c1) in
                   case eks lastUid of
                     None \<Rightarrow> None
                   | Some s \<Rightarrow> Some (None, c1\<lparr>endpointKeys := eks(lastUid \<mapsto> set_ins currentKey s)\<rparr>)))))"

definition RestoreEndpointKeys :: "'m kernel \<Rightarrow> 'm cache \<Rightarrow> 'm cache" where
  "RestoreEndpointKeys K c =
     c\<lparr>endpointKeys := fold (\<lambda>(key, uid). index_insert uid key) (m_iterate (KmEndpoint K) (bpfMap c))
                            (endpointKeys c)\<rparr>"

definition EndpointLookupAll :: "'m kernel \<Rightarrow> 'm cache \<Rightarrow> u32 list" where
  "EndpointLookupAll K c = LookupAll (KmEndpoint K) c"

definition GetAllEndpointsForService :: "'m kernel \<Rightarrow> u32 \<Rightarrow> 'm cache \<Rightarrow> u32 list" where
  "GetAllEndpointsForService K serviceId c =
     map snd (filter (\<lambda>(key, value). ek_ServiceId key = serviceId) (m_iterate (KmEndpoint K) (bpfMap c)))"

subsection \<open>What the operations do to the maps\<close>

abbreviation view :: "'m kernel \<Rightarrow> 'm cache \<Rightarrow> kview" where
  "view K c \<equiv> kview_of K (bpfMap c)"

abbreviation history :: "'m kernel \<Rightarrow> 'm cache \<Rightarrow> kview list" where
  "history K c \<equiv> KmHistory K (bpfMap c)"

lemma lookup_contents:
  "contents M m k = Some v \<longleftrightarrow> m_lookup M m k = Inr v"
  "contents M m k = None \<longleftrightarrow> (\<exists>e. m_lookup M m k = Inl e)"
  by (auto simp: contents_def split: sum.splits)

lemma map_Update_spec:
  assumes "map_law K M put" and "map_Update M k v c = (e, c')"
  shows "view K c' = put (put_result (contents M (bpfMap c)) k v e) (view K c)"
    and "endpointKeys c' = endpointKeys c"
    and "history K c' = view K c' # history K c"
  using assms map_lawD [OF assms(1)]
  by (auto simp: map_Update_def split: prod.splits)

lemma map_Delete_spec:
  assumes "map_law K M put" and "map_Delete M k c = (e, c')"
  shows "view K c' = put (if e = None then (contents M (bpfMap c))(k := None) else contents M (bpfMap c)) (view K c)"
    and "endpointKeys c' = endpointKeys c"
    and "history K c' = view K c' # history K c"
proof -
  obtain e0 m where d: "m_delete M (bpfMap c) k = (e0, m)" by fastforce
  then have "e = (case e0 of None \<Rightarrow> None | Some err \<Rightarrow> if is_not_exist err then None else Some err)"
    and c': "c' = c\<lparr>bpfMap := m\<rparr>" using assms(2) by (auto simp: map_Delete_def)
  then have "del_result (contents M (bpfMap c)) k e0 =
      (if e = None then (contents M (bpfMap c))(k := None) else contents M (bpfMap c))"
    by (auto simp: del_result_def split: option.splits)
  then show "view K c' = put (if e = None then (contents M (bpfMap c))(k := None) else contents M (bpfMap c)) (view K c)"
    using map_law_deleteD(1) [OF assms(1) d] c' by simp
  show "endpointKeys c' = endpointKeys c" "history K c' = view K c' # history K c"
    using map_law_deleteD(2) [OF assms(1) d] c' by simp_all
qed

lemma map_reliable_ops:
  assumes "map_reliable M"
  shows "fst (map_Update M k v c) = None" "fst (map_Delete M k c) = None"
proof -
  show "fst (map_Update M k v c) = None"
    using assms by (simp add: map_reliable_def map_Update_def split: prod.splits) (metis fst_conv)
  have "case fst (m_delete M (bpfMap c) k) of None \<Rightarrow> True | Some e \<Rightarrow> is_not_exist e"
    using assms by (simp add: map_reliable_def)
  then show "fst (map_Delete M k c) = None"
    by (auto simp: map_Delete_def split: prod.splits option.splits)
qed

subsection \<open>The endpoint key index\<close>

definition idx :: "(u32 \<rightharpoonup> EndpointKey list) \<Rightarrow> u32 \<Rightarrow> EndpointKey list" where
  "idx eks uid = (case eks uid of None \<Rightarrow> [] | Some s \<Rightarrow> s)"

definition index_ok :: "(u32 \<rightharpoonup> EndpointKey list) \<Rightarrow> (EndpointKey \<rightharpoonup> u32) \<Rightarrow> bool" where
  "index_ok eks ep \<longleftrightarrow> (\<forall>uid key. key \<in> set (idx eks uid) \<longleftrightarrow> ep key = Some uid) \<and>
     (\<forall>uid s. eks uid = Some s \<longrightarrow> s \<noteq> [] \<and> distinct s)"

lemma GetEndpointKeys_idx: "GetEndpointKeys c uid = idx (endpointKeys c) uid"
  by (simp add: GetEndpointKeys_def idx_def)

lemma idx_insert: "idx (index_insert uid key eks) u = (if u = uid then set_ins key (idx eks uid) else idx eks u)"
  by (auto simp: idx_def index_insert_def set_ins_def split: option.splits)

lemma idx_remove: "idx (index_remove uid key eks) u = (if u = uid then set_del key (idx eks uid) else idx eks u)"
  by (auto simp: idx_def index_remove_def set_del_def split: option.splits)

lemma index_shape_insert:
  "\<forall>uid s. eks uid = Some s \<longrightarrow> s \<noteq> [] \<and> distinct s \<Longrightarrow>
   \<forall>uid s. index_insert u key eks uid = Some s \<longrightarrow> s \<noteq> [] \<and> distinct s"
  by (auto simp: index_insert_def split: option.splits)

lemma index_shape_remove:
  "\<forall>uid s. eks uid = Some s \<longrightarrow> s \<noteq> [] \<and> distinct s \<Longrightarrow>
   \<forall>uid s. index_remove u key eks uid = Some s \<longrightarrow> s \<noteq> [] \<and> distinct s"
  by (auto simp: index_remove_def split: option.splits if_splits)

lemma index_ok_mem: "index_ok eks ep \<Longrightarrow> key \<in> set (idx eks uid) \<longleftrightarrow> ep key = Some uid"
  by (simp add: index_ok_def)

lemma index_ok_insert:
  assumes "index_ok eks ep" and "ep key = None \<or> ep key = Some uid"
  shows "index_ok (index_insert uid key eks) (ep(key \<mapsto> uid))"
proof -
  have "k \<in> set (idx (index_insert uid key eks) u) \<longleftrightarrow> (ep(key \<mapsto> uid)) k = Some u" for u k
    using assms(2) index_ok_mem [OF assms(1), of k u] index_ok_mem [OF assms(1), of k uid]
    by (cases "k = key"; cases "u = uid") (auto simp: idx_insert)
  with assms(1) index_shape_insert show ?thesis unfolding index_ok_def by blast
qed

lemma index_ok_remove:
  assumes "index_ok eks ep" and "ep key = Some uid"
  shows "index_ok (index_remove uid key eks) (ep(key := None))"
proof -
  have "k \<in> set (idx (index_remove uid key eks) u) \<longleftrightarrow> (ep(key := None)) k = Some u" for u k
    using assms(2) index_ok_mem [OF assms(1), of k u] index_ok_mem [OF assms(1), of k uid]
    by (cases "k = key"; cases "u = uid") (auto simp: idx_remove)
  with assms(1) index_shape_remove show ?thesis unfolding index_ok_def by blast
qed

lemma index_ok_dom:
  assumes "index_ok eks ep" and "ep key = Some uid"
  shows "\<exists>s. eks uid = Some s"
  using index_ok_mem [OF assms(1), of key uid] assms(2) by (cases "eks uid") (simp_all add: idx_def)

lemma index_ok_distinct: "index_ok eks ep \<Longrightarrow> distinct (idx eks uid)"
  by (auto simp: index_ok_def idx_def split: option.splits)

lemma index_ok_restore:
  assumes "distinct (map fst kvs)" and "index_ok eks ep" and "fst ` set kvs \<inter> dom ep = {}"
  shows "index_ok (fold (\<lambda>(key, uid). index_insert uid key) kvs eks) (ep ++ map_of kvs)"
  using assms
proof (induction kvs arbitrary: eks ep)
  case (Cons kv kvs)
  obtain key uid where kv: "kv = (key, uid)" by fastforce
  have i: "index_ok (index_insert uid key eks) (ep(key \<mapsto> uid))"
    using Cons.prems kv by (intro index_ok_insert) auto
  have e: "ep ++ map_of (kv # kvs) = ep(key \<mapsto> uid) ++ map_of kvs"
    using Cons.prems(1) kv by (auto simp: fun_eq_iff map_add_def map_of_eq_None_iff [THEN iffD2] split: option.splits)
  have "fst ` set kvs \<inter> dom (ep(key \<mapsto> uid)) = {}" using Cons.prems(1,3) kv by auto
  with i have "index_ok (fold (\<lambda>(key, uid). index_insert uid key) kvs (index_insert uid key eks))
      (ep(key \<mapsto> uid) ++ map_of kvs)"
    using Cons.prems(1) by (intro Cons.IH [OF _ i]) simp
  then show ?case unfolding e using kv by simp
qed simp

subsection \<open>The operations on endpoints\<close>

abbreviation endpoints :: "'m kernel \<Rightarrow> 'm cache \<Rightarrow> EndpointKey \<rightharpoonup> u32" where
  "endpoints K c \<equiv> contents (KmEndpoint K) (bpfMap c)"

abbreviation services :: "'m kernel \<Rightarrow> 'm cache \<Rightarrow> u32 \<rightharpoonup> ServiceValue" where
  "services K c \<equiv> contents (KmService K) (bpfMap c)"

abbreviation bpf_index_ok :: "'m kernel \<Rightarrow> 'm cache \<Rightarrow> bool" where
  "bpf_index_ok K c \<equiv> index_ok (endpointKeys c) (endpoints K c)"

lemma view_endpoint: "view K c' = (view K c)\<lparr>v_endpoint := ep\<rparr> \<Longrightarrow> endpoints K c' = ep"
  using kview_of_sel(3) [of K "bpfMap c'"] by simp

lemma EndpointUpdate_spec:
  assumes "kernel_laws K" and "EndpointUpdate K key uid c = (e, c')"
  shows "view K c' = (view K c)\<lparr>v_endpoint := put_result (endpoints K c) key uid e\<rparr>"
    and "history K c' = view K c' # history K c"
    and "bpf_index_ok K c \<Longrightarrow> endpoints K c key = None \<Longrightarrow> e = None \<Longrightarrow> bpf_index_ok K c'"
proof -
  let ?c = "c\<lparr>endpointKeys := index_insert uid key (endpointKeys c)\<rparr>"
  have u: "map_Update (KmEndpoint K) key uid ?c = (e, c')" using assms(2) by (simp add: EndpointUpdate_def)
  note s = map_Update_spec [OF kernel_lawsD(3) [OF assms(1)] u]
  show v: "view K c' = (view K c)\<lparr>v_endpoint := put_result (endpoints K c) key uid e\<rparr>" using s(1) by simp
  show "history K c' = view K c' # history K c" using s(3) by simp
  show "bpf_index_ok K c'" if "bpf_index_ok K c" "endpoints K c key = None" "e = None"
    using that s(2) view_endpoint [OF v] index_ok_insert by (simp add: put_result_def)
qed

lemma EndpointDelete_spec:
  assumes "kernel_laws K" and "EndpointDelete K key c = (e, c')"
  shows "view K c' = (view K c)\<lparr>v_endpoint := if e = None then (endpoints K c)(key := None) else endpoints K c\<rparr>"
    and "\<exists>h. set h \<subseteq> {view K c'} \<and> history K c' = h @ history K c"
    and "bpf_index_ok K c \<Longrightarrow> e = None \<Longrightarrow> bpf_index_ok K c'"
proof -
  let ?goal = "view K c' = (view K c)\<lparr>v_endpoint := if e = None then (endpoints K c)(key := None) else endpoints K c\<rparr> \<and>
    (\<exists>h. set h \<subseteq> {view K c'} \<and> history K c' = h @ history K c) \<and>
    (bpf_index_ok K c \<longrightarrow> e = None \<longrightarrow> bpf_index_ok K c')"
  have ?goal
  proof (cases "m_lookup (KmEndpoint K) (bpfMap c) key")
    case (Inl x)
    with assms(2) have "e = None" "c' = c" "endpoints K c key = None"
      by (auto simp: EndpointDelete_def lookup_contents)
    then show ?thesis by (simp add: kview_of_def fun_upd_idem)
  next
    case (Inr uid)
    let ?c = "c\<lparr>endpointKeys := index_remove uid key (endpointKeys c)\<rparr>"
    have k: "endpoints K c key = Some uid" using Inr by (simp add: lookup_contents)
    have d: "map_Delete (KmEndpoint K) key ?c = (e, c')" using assms(2) Inr by (simp add: EndpointDelete_def)
    note s = map_Delete_spec [OF kernel_lawsD(3) [OF assms(1)] d]
    have v: "view K c' = (view K c)\<lparr>v_endpoint := if e = None then (endpoints K c)(key := None) else endpoints K c\<rparr>"
      using s(1) by simp
    then show ?thesis using s(2,3) view_endpoint [OF v] index_ok_remove [of "endpointKeys c" "endpoints K c" key uid] k
      by (auto intro: exI [of _ "[view K c']"])
  qed
  then show "view K c' = (view K c)\<lparr>v_endpoint := if e = None then (endpoints K c)(key := None) else endpoints K c\<rparr>"
    and "\<exists>h. set h \<subseteq> {view K c'} \<and> history K c' = h @ history K c"
    and "bpf_index_ok K c \<Longrightarrow> e = None \<Longrightarrow> bpf_index_ok K c'" by blast+
qed

text \<open>
  Swapping never reaches the nil map when the workload of the last endpoint is indexed under
  that endpoint's key; the index then follows the map, and a refused write changes neither.
\<close>

lemma EndpointSwap_run:
  fixes cur lst s p :: u32
  defines "k \<equiv> EndpointKey s p (if cur = lst then lst - 1 else lst)" and "ck \<equiv> EndpointKey s p cur"
  assumes "kernel_laws K" and "cur \<le> lst" and "\<not> (cur = lst \<and> lst \<le> 1)"
    and "endpoints K c k = Some luid" and "k \<in> set (idx (endpointKeys c) luid)"
  shows "\<exists>e c'. EndpointSwap K cur uid lst s p c = Some (e, c') \<and>
           view K c' = (view K c)\<lparr>v_endpoint := put_result (endpoints K c) ck luid e\<rparr> \<and>
           history K c' = view K c' # history K c \<and>
           endpointKeys c' = (if e = None then index_insert luid ck (index_remove uid ck (endpointKeys c))
                              else endpointKeys c) \<and>
           (kernel_reliable K \<longrightarrow> e = None)"
proof -
  have ne: "k \<noteq> ck" by (auto simp: k_def ck_def)
  have nl: "\<not> lst < cur" using assms(4) by simp
  have l: "EndpointLookup K k c = Inr luid"
    using assms(6) lookup_contents(1) [of "KmEndpoint K" "bpfMap c" k luid] by (simp add: EndpointLookup_def)
  obtain e c1 where u: "map_Update (KmEndpoint K) ck luid c = (e, c1)" by fastforce
  note s = map_Update_spec [OF kernel_lawsD(3) [OF assms(3)] u]
  let ?eks = "index_remove uid ck (endpointKeys c)"
  have "k \<in> set (idx ?eks luid)" using assms(7) ne by (auto simp: idx_remove)
  then obtain ks where ks: "?eks luid = Some ks" by (cases "?eks luid") (auto simp: idx_def)
  show ?thesis
  proof (cases e)
    case (Some err)
    then have "EndpointSwap K cur uid lst s p c = Some (e, c1)"
      using nl assms(5) l u unfolding k_def ck_def by (simp add: EndpointSwap_def)
    moreover have "\<not> kernel_reliable K"
      using Some u map_reliable_ops(1) [of "KmEndpoint K" ck luid c] by (auto simp: kernel_reliable_def)
    ultimately show ?thesis using s Some by auto
  next
    case None
    let ?c = "c1\<lparr>endpointKeys := ?eks(luid \<mapsto> set_ins ck ks)\<rparr>"
    have sw: "EndpointSwap K cur uid lst s p c = Some (None, ?c)"
      using nl assms(5) l u None ks s(2) unfolding k_def ck_def by (auto simp: EndpointSwap_def Let_def)
    then show ?thesis using s None ks by (auto simp: index_insert_def)
  qed
qed

lemma EndpointSwap_index:
  assumes "index_ok eks ep" and "ep ck = Some uid"
  shows "index_ok (index_insert luid ck (index_remove uid ck eks)) (ep(ck \<mapsto> luid))"
  using index_ok_insert [OF index_ok_remove [OF assms], of ck luid] by simp

lemma RestoreEndpointKeys_spec:
  assumes "kernel_laws K" and "endpointKeys c = Map.empty"
  shows "bpf_index_ok K (RestoreEndpointKeys K c)"
proof -
  note it = map_law_iterateD [OF kernel_lawsD(3) [OF assms(1)], where m = "bpfMap c"]
  have "index_ok Map.empty Map.empty" by (simp add: index_ok_def idx_def)
  from index_ok_restore [OF it(1) this] show ?thesis
    using it(2) assms(2) by (simp add: RestoreEndpointKeys_def)
qed

text \<open>On a reliable kernel no operation of the cache fails.\<close>

lemma reliable_ops:
  assumes "kernel_reliable K"
  shows "fst (FrontendUpdate K fk u c) = None" "fst (FrontendDelete K fk c) = None"
    "fst (ServiceUpdate K s sv c) = None" "fst (ServiceDelete K s c) = None"
    "fst (BackendUpdate K b bv c) = None" "fst (BackendDelete K b c) = None"
    "fst (WorkloadPolicyUpdate K w pv c) = None" "fst (WorkloadPolicyDelete K w c) = None"
    "fst (EndpointUpdate K ek u c) = None" "fst (EndpointDelete K ek c) = None"
  using assms
  by (auto simp: kernel_reliable_def FrontendUpdate_def FrontendDelete_def ServiceUpdate_def
      ServiceDelete_def BackendUpdate_def BackendDelete_def WorkloadPolicyUpdate_def
      WorkloadPolicyDelete_def EndpointUpdate_def EndpointDelete_def map_reliable_ops Let_def
      split: sum.splits)

end
