(* ===== verification/Endpoint_Cache.thy ===== *)
theory Endpoint_Cache
  imports Workload_Api
begin

text \<open>
  The endpoint cache (\<open>cache/endpoint_cache.go\<close>): for each service the endpoints by workload,
  as user space remembers them when the load balancing policy of a service changes.  The inner
  maps are ranged over and are association lists in iteration order.
\<close>

datatype Endpoint = Endpoint (ep_ServiceId: u32) (ep_Prio: u32) (ep_BackendIndex: u32)

type_synonym endpoint_cache = "u32 \<rightharpoonup> (u32 \<times> Endpoint) list"

definition NewEndpointCache :: endpoint_cache where
  "NewEndpointCache = Map.empty"

definition List_endpoints :: "endpoint_cache \<Rightarrow> u32 \<Rightarrow> (u32 \<times> Endpoint) list" where
  "List_endpoints s serviceId = (case s serviceId of None \<Rightarrow> [] | Some m \<Rightarrow> m)"

definition AddEndpointToService :: "Endpoint \<Rightarrow> u32 \<Rightarrow> endpoint_cache \<Rightarrow> endpoint_cache" where
  "AddEndpointToService ep workloadId s =
     s(ep_ServiceId ep \<mapsto> AList.update workloadId ep (List_endpoints s (ep_ServiceId ep)))"

definition DeleteEndpoint :: "u32 \<Rightarrow> u32 \<Rightarrow> endpoint_cache \<Rightarrow> endpoint_cache" where
  "DeleteEndpoint serviceID workloadID s =
     (case s serviceID of None \<Rightarrow> s | Some m \<Rightarrow> s(serviceID \<mapsto> AList.delete workloadID m))"

definition DeleteEndpointWithPriority :: "u32 \<Rightarrow> u32 \<Rightarrow> u32 \<Rightarrow> endpoint_cache \<Rightarrow> endpoint_cache" where
  "DeleteEndpointWithPriority serviceID workloadID prio s =
     (case s serviceID of
        None \<Rightarrow> s
      | Some m \<Rightarrow>
          (case map_of m workloadID of
             None \<Rightarrow> s
           | Some ep \<Rightarrow> if ep_Prio ep = prio then s(serviceID \<mapsto> AList.delete workloadID m) else s))"

definition DeleteEndpointByServiceId :: "u32 \<Rightarrow> endpoint_cache \<Rightarrow> endpoint_cache" where
  "DeleteEndpointByServiceId serviceId s = s(serviceId := None)"

text \<open>What the cache remembers of a workload in a service.\<close>

definition ep_get :: "endpoint_cache \<Rightarrow> u32 \<Rightarrow> u32 \<Rightarrow> Endpoint option" where
  "ep_get s serviceId workloadId = map_of (List_endpoints s serviceId) workloadId"

lemma ep_get_Add:
  "ep_get (AddEndpointToService ep w s) sid wid =
     (if sid = ep_ServiceId ep \<and> wid = w then Some ep else ep_get s sid wid)"
  by (simp add: ep_get_def List_endpoints_def AddEndpointToService_def)

lemma ep_get_Delete:
  "ep_get (DeleteEndpoint sv w s) sid wid = (if sid = sv \<and> wid = w then None else ep_get s sid wid)"
  by (simp add: ep_get_def List_endpoints_def DeleteEndpoint_def split: option.splits)

lemma ep_get_DeleteWithPriority:
  "ep_get (DeleteEndpointWithPriority sv w prio s) sid wid =
     (if sid = sv \<and> wid = w \<and> (\<exists>ep. ep_get s sid wid = Some ep \<and> ep_Prio ep = prio) then None
      else ep_get s sid wid)"
  by (auto simp: ep_get_def List_endpoints_def DeleteEndpointWithPriority_def split: option.splits)

lemma ep_get_DeleteByServiceId:
  "ep_get (DeleteEndpointByServiceId sv s) sid wid = (if sid = sv then None else ep_get s sid wid)"
  by (simp add: ep_get_def List_endpoints_def DeleteEndpointByServiceId_def)

lemmas ep_get_ops = ep_get_Add ep_get_Delete ep_get_DeleteWithPriority ep_get_DeleteByServiceId

end
