(* ===== verification/Endpoint_Groups.thy ===== *)
theory Endpoint_Groups
  imports Kmesh_Prelude
begin

text \<open>
  What the processor promises of the endpoint tables, independently of the bpf maps: the
  endpoints of a service at one priority form a group, a list of backends without gaps; adding
  appends to the group, deleting an index moves the last backend into it and drops the last
  index.  The locale proves from these laws that deleting a batch of indices, the larger ones
  of a group first, removes exactly the backends those indices held when the batch started.
\<close>

definition swap_remove :: "nat \<Rightarrow> 'a list \<Rightarrow> 'a list" where
  "swap_remove i xs = (butlast xs)[i := last xs]"

lemma length_swap_remove [simp]: "length (swap_remove i xs) = length xs - 1"
  by (simp add: swap_remove_def)

lemma nth_swap_remove:
  "j < length xs - 1 \<Longrightarrow> swap_remove i xs ! j = (if j = i then last xs else xs ! j)"
  by (simp add: swap_remove_def nth_butlast)

lemma mset_swap_remove:
  assumes "i < length xs"
  shows "mset (swap_remove i xs) = mset xs - {# xs ! i #}"
proof (cases xs rule: rev_cases)
  case (snoc ys y)
  show ?thesis
  proof (cases "i < length ys")
    case True
    then have "mset (ys[i := y]) = add_mset y (mset ys - {# ys ! i #})" by (rule mset_update)
    also have "\<dots> = add_mset y (mset ys) - {# ys ! i #}"
      using True by (simp add: multiset_diff_union_assoc)
    finally show ?thesis using True snoc by (simp add: swap_remove_def nth_append)
  next
    case False
    then show ?thesis using snoc assms by (simp add: swap_remove_def nth_append list_update_beyond)
  qed
qed (use assms in simp)

locale endpoint_groups =
  fixes inv :: "'s \<Rightarrow> bool"
    and abs :: "'s \<Rightarrow> 'g \<Rightarrow> 'a list"
    and remove :: "'g \<times> nat \<Rightarrow> 's \<Rightarrow> 's option"
  assumes remove_ok: "inv s \<Longrightarrow> i < length (abs s g) \<Longrightarrow>
      \<exists>s'. remove (g, i) s = Some s' \<and> inv s' \<and> abs s' = (abs s)(g := swap_remove i (abs s g))"
begin

definition held :: "'s \<Rightarrow> ('g \<times> nat) list \<Rightarrow> 'g \<Rightarrow> 'a multiset" where
  "held s ks g = mset (map (\<lambda>(h, i). abs s h ! i) (filter (\<lambda>(h, i). h = g) ks))"

lemma held_after_remove:
  assumes "abs s' = (abs s)(g := swap_remove i (abs s g))" and "i < length (abs s g)"
    and "\<forall>(h, j) \<in> set ks. h = g \<longrightarrow> j < i"
  shows "held s' ks h = held s ks h"
proof -
  have "map (\<lambda>(h, i). abs s' h ! i) ks' = map (\<lambda>(h, i). abs s h ! i) ks'" if "set ks' \<subseteq> set ks" for ks'
    using that assms by (fastforce simp: nth_swap_remove)
  then show ?thesis unfolding held_def by (metis filter_is_subset)
qed

lemma remove_all_ok:
  assumes "inv s" and "\<forall>(g, i) \<in> set ks. i < length (abs s g)"
    and "sorted_wrt (\<lambda>(g, i) (h, j). h = g \<longrightarrow> j < i) ks"
  shows "\<exists>s'. for_each remove ks s = Some s' \<and> inv s' \<and>
           (\<forall>g. mset (abs s' g) = mset (abs s g) - held s ks g)"
  using assms
proof (induction ks arbitrary: s)
  case (Cons k ks)
  obtain g i where k: "k = (g, i)" by fastforce
  have i: "i < length (abs s g)" using Cons.prems(2) k by simp
  obtain s1 where s1: "remove (g, i) s = Some s1" "inv s1"
    "abs s1 = (abs s)(g := swap_remove i (abs s g))" using remove_ok [OF Cons.prems(1) i] by blast
  have less: "\<forall>(h, j) \<in> set ks. h = g \<longrightarrow> j < i" using Cons.prems(3) k by auto
  have "\<forall>(h, j) \<in> set ks. j < length (abs s1 h)" using Cons.prems(2) less i s1(3) by fastforce
  then obtain s' where s': "for_each remove ks s1 = Some s'" "inv s'"
    "\<forall>h. mset (abs s' h) = mset (abs s1 h) - held s1 ks h"
    using Cons.IH [OF s1(2)] Cons.prems(3) by auto
  have "mset (abs s' h) = mset (abs s h) - held s (k # ks) h" for h
    using s'(3) held_after_remove [OF s1(3) i less, of h] mset_swap_remove [OF i] s1(3) k
    by (auto simp: held_def)
  then show ?case using s1(1) s' k by auto
qed (auto simp: held_def)

lemma remove_every_occurrence:
  assumes "inv s" and "sorted_wrt (\<lambda>(g, i) (h, j). h = g \<longrightarrow> j < i) ks"
    and "\<And>g i. (g, i) \<in> set ks \<longleftrightarrow> i < length (abs s g) \<and> abs s g ! i = x"
  shows "\<exists>s'. for_each remove ks s = Some s' \<and> inv s' \<and>
           (\<forall>g. mset (abs s' g) = filter_mset (\<lambda>y. y \<noteq> x) (mset (abs s g)))"
proof -
  obtain s' where s': "for_each remove ks s = Some s'" "inv s'"
    "\<forall>g. mset (abs s' g) = mset (abs s g) - held s ks g"
    using remove_all_ok [OF assms(1) _ assms(2)] assms(3) by auto
  have "mset (abs s g) - held s ks g = filter_mset (\<lambda>y. y \<noteq> x) (mset (abs s g))" for g
  proof -
    let ?ks = "filter (\<lambda>(h, i). h = g) ks"
    have "distinct ?ks"
      by (rule distinct_filter) (use assms(2) in \<open>induction ks, auto\<close>)
    moreover have "set ?ks = Pair g ` {i. i < length (abs s g) \<and> abs s g ! i = x}"
      using assms(3) by auto
    ultimately have "length ?ks = card (Pair g ` {i. i < length (abs s g) \<and> abs s g ! i = x})"
      using distinct_card by fastforce
    also have "\<dots> = card {i. i < length (abs s g) \<and> abs s g ! i = x}"
      by (rule card_image) (simp add: inj_on_def)
    also have "\<dots> = count (mset (abs s g)) x"
      by (simp add: count_mset count_list_eq_length_filter length_filter_conv_card eq_commute)
    finally have "length ?ks = count (mset (abs s g)) x" .
    moreover have "map (\<lambda>(h, i). abs s h ! i) ?ks = replicate (length ?ks) x"
      using assms(3) by (auto intro!: replicate_eqI)
    ultimately have "held s ks g = replicate_mset (count (mset (abs s g)) x) x"
      by (simp add: held_def)
    then show ?thesis
      by (simp add: multiset_eq_iff)
  qed
  with s' show ?thesis by auto
qed

end

end
