(* ===== verification/Locality_Lb.thy ===== *)
theory Locality_Lb
  imports Workload_Api
begin

text \<open>
  Locality load balancing (\<open>bpfcache/locality_cache.go\<close>): the locality of this node and the
  priority of a workload, the number of scopes of the routing preference that are not matched.
  Only the leading run of matching scopes counts.  \<open>None\<close> is the nil dereference of a locality
  that was never set.
\<close>

record localityInfo =
  li_region :: string
  li_zone :: string
  li_subZone :: string
  li_nodeName :: string
  li_clusterId :: string
  li_network :: string

type_synonym LocalityCache = "localityInfo option"

definition NewLocalityCache :: LocalityCache where
  "NewLocalityCache = None"

definition SetLocality :: "string \<Rightarrow> string \<Rightarrow> string \<Rightarrow> Locality option \<Rightarrow> LocalityCache \<Rightarrow> LocalityCache" where
  "SetLocality nodeName clusterId network locality l =
     Some \<lparr>li_region = GetRegion locality, li_zone = GetZone locality, li_subZone = GetSubzone locality,
           li_nodeName = nodeName, li_clusterId = clusterId, li_network = network\<rparr>"

text \<open>The workload may be nil; its getters then return the empty string.\<close>

definition wl_get :: "(Workload \<Rightarrow> string) \<Rightarrow> Workload option \<Rightarrow> string" where
  "wl_get f wl = (case wl of None \<Rightarrow> '''' | Some w \<Rightarrow> f w)"

definition wl_get_locality :: "Workload option \<Rightarrow> Locality option" where
  "wl_get_locality wl = (case wl of None \<Rightarrow> None | Some w \<Rightarrow> wl_locality w)"

definition scope_match :: "localityInfo \<Rightarrow> Workload option \<Rightarrow> LB_Scope \<Rightarrow> bool" where
  "scope_match li wl scope =
     (case scope of
        UNSPECIFIED_SCOPE \<Rightarrow> False
      | REGION \<Rightarrow> li_region li = GetRegion (wl_get_locality wl)
      | ZONE \<Rightarrow> li_zone li = GetZone (wl_get_locality wl)
      | SUBZONE \<Rightarrow> li_subZone li = GetSubzone (wl_get_locality wl)
      | NODE \<Rightarrow> li_nodeName li = wl_get wl_node wl
      | CLUSTER \<Rightarrow> li_clusterId li = wl_get wl_cluster_id wl
      | NETWORK \<Rightarrow> li_network li = wl_get wl_network wl)"

text \<open>The loop: the rank so far, the scopes still to look at.\<close>

fun calc_rank :: "LocalityCache \<Rightarrow> Workload option \<Rightarrow> u32 \<Rightarrow> LB_Scope list \<Rightarrow> u32 option" where
  "calc_rank l wl rank [] = Some rank"
| "calc_rank l wl rank (scope # rest) =
     (if scope = UNSPECIFIED_SCOPE then Some rank
      else case l of
        None \<Rightarrow> None
      | Some li \<Rightarrow> if scope_match li wl scope then calc_rank l wl (rank + 1) rest else Some rank)"

definition CalcLocalityLBPrio :: "LocalityCache \<Rightarrow> Workload option \<Rightarrow> LB_Scope list \<Rightarrow> u32 option" where
  "CalcLocalityLBPrio l wl rp = do { rank \<leftarrow> calc_rank l wl 0 rp; Some (word_of_nat (length rp) - rank) }"

subsection \<open>Lemmas\<close>

lemma calc_rank_takeWhile:
  "calc_rank (Some li) wl rank rp = Some (rank + word_of_nat (length (takeWhile (scope_match li wl) rp)))"
  by (induction rp arbitrary: rank) (auto simp: scope_match_def algebra_simps)

lemma CalcLocalityLBPrio_eq:
  "CalcLocalityLBPrio (Some li) wl rp =
     Some (word_of_nat (length rp - length (takeWhile (scope_match li wl) rp)))"
  by (simp add: CalcLocalityLBPrio_def calc_rank_takeWhile of_nat_diff length_takeWhile_le)

lemma takeWhile_mono_length:
  assumes "\<And>x. x \<in> set xs \<Longrightarrow> P x \<Longrightarrow> Q x"
  shows "length (takeWhile P xs) \<le> length (takeWhile Q xs)"
  using assms by (induction xs) auto

lemma CalcLocalityLBPrio_bound:
  assumes "length rp < PC" and "PC \<le> 2 ^ 32"
  shows "\<exists>prio. CalcLocalityLBPrio (Some li) wl rp = Some prio \<and> unat prio < PC \<and>
           unat prio = length rp - length (takeWhile (scope_match li wl) rp)"
proof -
  let ?n = "length rp - length (takeWhile (scope_match li wl) rp)"
  have "?n < 2 ^ 32" using assms by linarith
  then have "unat (word_of_nat ?n :: u32) = ?n" by (simp add: unat_of_nat)
  then show ?thesis using assms(1) by (intro exI [of _ "word_of_nat ?n"]) (simp add: CalcLocalityLBPrio_eq)
qed

subsection \<open>Properties\<close>

text \<open>
  With the node's locality known and a routing preference of at most six scopes, the
  priority is a valid index of the seven endpoint groups; it is 0 exactly when every scope
  matches, it is the number of scopes after the leading matches, and a workload that matches
  wherever another does never gets a worse (larger) priority.
\<close>

theorem locality_priority:
  assumes "length rp \<le> 6"
  shows "\<exists>p1 p2. CalcLocalityLBPrio (Some li) w1 rp = Some p1 \<and> CalcLocalityLBPrio (Some li) w2 rp = Some p2 \<and>
           unat p1 < 7 \<and> unat p1 = length rp - length (takeWhile (scope_match li w1) rp) \<and>
           (p1 = 0 \<longleftrightarrow> (\<forall>s \<in> set rp. scope_match li w1 s)) \<and>
           ((\<forall>s \<in> set rp. scope_match li w1 s \<longrightarrow> scope_match li w2 s) \<longrightarrow> p2 \<le> p1)"
proof -
  obtain p1 where p1: "CalcLocalityLBPrio (Some li) w1 rp = Some p1" "unat p1 < 7"
    "unat p1 = length rp - length (takeWhile (scope_match li w1) rp)"
    using CalcLocalityLBPrio_bound [of rp 7 li w1] assms by auto
  obtain p2 where p2: "CalcLocalityLBPrio (Some li) w2 rp = Some p2"
    "unat p2 = length rp - length (takeWhile (scope_match li w2) rp)"
    using CalcLocalityLBPrio_bound [of rp 7 li w2] assms by auto
  have "p1 = 0 \<longleftrightarrow> length (takeWhile (scope_match li w1) rp) = length rp"
    using p1(3) length_takeWhile_le [of "scope_match li w1" rp] by (auto simp: unat_eq_0 [symmetric])
  also have "\<dots> \<longleftrightarrow> (\<forall>s \<in> set rp. scope_match li w1 s)"
    by (metis takeWhile_eq_all_conv takeWhile_eq_take take_all length_take min.idem order_refl)
  finally have z: "p1 = 0 \<longleftrightarrow> (\<forall>s \<in> set rp. scope_match li w1 s)" .
  have "p2 \<le> p1" if "\<forall>s \<in> set rp. scope_match li w1 s \<longrightarrow> scope_match li w2 s"
    using takeWhile_mono_length [of rp "scope_match li w1" "scope_match li w2"] that p1(3) p2(2)
    by (simp add: word_le_nat_alt)
  with p1 p2 z show ?thesis by auto
qed

text \<open>A node in region \<open>r\<close>, zone \<open>z\<close>, and a workload of the same region but another zone.\<close>

definition sample_locality :: localityInfo where
  "sample_locality = \<lparr>li_region = ''r'', li_zone = ''z'', li_subZone = '''', li_nodeName = ''n1'',
     li_clusterId = ''c'', li_network = ''net''\<rparr>"

definition sample_remote :: Workload where
  "sample_remote = \<lparr>wl_uid = ''u'', wl_name = ''w'', wl_namespace = ''ns'', wl_addresses = [[10, 0, 0, 1]],
     wl_network = ''net'', wl_trust_domain = '''', wl_service_account = '''', wl_waypoint = None,
     wl_node = ''n2'', wl_services = [], wl_authorization_policies = [], wl_status = HEALTHY,
     wl_cluster_id = ''c'', wl_locality = Some \<lparr>loc_region = ''r'', loc_zone = ''y'', loc_subzone = ''''\<rparr>,
     wl_network_mode = STANDARD\<rparr>"

theorem locality_priority_witness:
  "\<exists>p. CalcLocalityLBPrio (Some sample_locality) (Some sample_remote) [NETWORK, REGION, ZONE, SUBZONE] = Some p \<and>
     unat p = 2"
proof -
  have t: "takeWhile (scope_match sample_locality (Some sample_remote)) [NETWORK, REGION, ZONE, SUBZONE] = [NETWORK, REGION]"
    by (simp add: scope_match_def sample_locality_def sample_remote_def wl_get_def wl_get_locality_def getter_defs)
  show ?thesis
    using locality_priority [of "[NETWORK, REGION, ZONE, SUBZONE]" sample_locality "Some sample_remote" None]
    unfolding t by auto
qed

end
