(* ===== verification/Service_Cache.thy ===== *)
theory Service_Cache
  imports Workload_Api
begin

text \<open>
  The two caches of received resources (\<open>pkg/controller/workload/cache/service_cache.go\<close> and
  \<open>workload_cache.go\<close>).  A service is found by resource name, by network and address, and by
  address alone; a workload by uid and by network and address.
\<close>

type_synonym net_addr = "string \<times> netip_addr"

definition composeNetworkAddress :: "string \<Rightarrow> netip_addr \<Rightarrow> net_addr" where
  "composeNetworkAddress network addr = (network, addr)"

subsection \<open>Services\<close>

record service_cache =
  servicesByResourceName :: "string \<rightharpoonup> Service"
  servicesByAddr :: "net_addr \<rightharpoonup> Service"
  servicesByIP :: "netip_addr \<rightharpoonup> Service"

definition NewServiceCache :: service_cache where
  "NewServiceCache = \<lparr>servicesByResourceName = Map.empty, servicesByAddr = Map.empty,
     servicesByIP = Map.empty\<rparr>"

definition GetServiceByIP :: "service_cache \<Rightarrow> netip_addr \<Rightarrow> Service option" where
  "GetServiceByIP s ip = servicesByIP s ip"

definition GetServiceByAddr :: "service_cache \<Rightarrow> net_addr \<Rightarrow> Service option" where
  "GetServiceByAddr s address = servicesByAddr s address"

definition svc_net_addr :: "NetworkAddress \<Rightarrow> net_addr" where
  "svc_net_addr addr = composeNetworkAddress (na_network addr) (AddrFromSlice (na_address addr))"

definition add_service_addr :: "Service \<Rightarrow> NetworkAddress \<Rightarrow> service_cache \<Rightarrow> service_cache" where
  "add_service_addr svc addr s =
     s\<lparr>servicesByAddr := (servicesByAddr s)(svc_net_addr addr \<mapsto> svc),
       servicesByIP := (servicesByIP s)(AddrFromSlice (na_address addr) \<mapsto> svc)\<rparr>"

definition AddOrUpdateService :: "service_cache \<Rightarrow> Service \<Rightarrow> service_cache" where
  "AddOrUpdateService s svc =
     fold (add_service_addr svc) (svc_addresses svc)
       (s\<lparr>servicesByResourceName := (servicesByResourceName s)(Service_ResourceName svc \<mapsto> svc)\<rparr>)"

definition svc_deleteAddr :: "Service \<Rightarrow> net_addr \<Rightarrow> service_cache \<Rightarrow> service_cache" where
  "svc_deleteAddr svc addr s =
     (case servicesByAddr s addr of
        None \<Rightarrow> s
      | Some service \<Rightarrow>
          if svc_namespace service = svc_namespace svc \<and> svc_name service = svc_name svc
          then let s1 = s\<lparr>servicesByAddr := (servicesByAddr s)(addr := None)\<rparr>
               in if (case servicesByIP s1 (snd addr) of None \<Rightarrow> False
                      | Some other \<Rightarrow> svc_obj other = svc_obj service)
                  then s1\<lparr>servicesByIP := (servicesByIP s1)(snd addr := None)\<rparr>
                  else s1
          else s)"

definition DeleteService :: "service_cache \<Rightarrow> string \<Rightarrow> service_cache" where
  "DeleteService s resourceName =
     (case servicesByResourceName s resourceName of
        None \<Rightarrow> s
      | Some svc \<Rightarrow>
          (let s1 = fold (\<lambda>addr. svc_deleteAddr svc (svc_net_addr addr)) (svc_addresses svc) s
           in s1\<lparr>servicesByResourceName := (servicesByResourceName s1)(resourceName := None)\<rparr>))"

definition GetService :: "service_cache \<Rightarrow> string \<Rightarrow> Service option" where
  "GetService s resourceName = servicesByResourceName s resourceName"

subsection \<open>Workloads\<close>

record workload_cache =
  byUid :: "string \<rightharpoonup> Workload"
  byAddr :: "net_addr \<rightharpoonup> Workload"

definition NewWorkloadCache :: workload_cache where
  "NewWorkloadCache = \<lparr>byUid = Map.empty, byAddr = Map.empty\<rparr>"

definition GetWorkloadByUid :: "workload_cache \<Rightarrow> string \<Rightarrow> Workload option" where
  "GetWorkloadByUid w uid = byUid w uid"

definition GetWorkloadByAddr :: "workload_cache \<Rightarrow> net_addr \<Rightarrow> Workload option" where
  "GetWorkloadByAddr w networkAddress = byAddr w networkAddress"

definition wl_net_addr :: "Workload \<Rightarrow> bytes \<Rightarrow> net_addr" where
  "wl_net_addr workload ip = composeNetworkAddress (wl_network workload) (AddrFromSlice ip)"

definition AddOrUpdateWorkload :: "workload_cache \<Rightarrow> Workload \<Rightarrow> workload_cache" where
  "AddOrUpdateWorkload w workload =
     (let w1 = w\<lparr>byUid := (byUid w)(wl_uid workload \<mapsto> workload)\<rparr>
      in if wl_network_mode workload \<noteq> HOST_NETWORK
         then fold (\<lambda>ip c. c\<lparr>byAddr := (byAddr c)(wl_net_addr workload ip \<mapsto> workload)\<rparr>)
                (wl_addresses workload) w1
         else w1)"

definition wl_deleteAddr :: "net_addr \<Rightarrow> string \<Rightarrow> workload_cache \<Rightarrow> workload_cache" where
  "wl_deleteAddr addr uid w =
     (case byAddr w addr of
        None \<Rightarrow> w
      | Some workload \<Rightarrow> if wl_uid workload = uid then w\<lparr>byAddr := (byAddr w)(addr := None)\<rparr> else w)"

definition DeleteWorkload :: "workload_cache \<Rightarrow> string \<Rightarrow> workload_cache" where
  "DeleteWorkload w uid =
     (case byUid w uid of
        None \<Rightarrow> w
      | Some workload \<Rightarrow>
          (let w1 = fold (\<lambda>ip. wl_deleteAddr (wl_net_addr workload ip) uid) (wl_addresses workload) w
           in w1\<lparr>byUid := (byUid w1)(uid := None)\<rparr>))"

subsection \<open>What an update and a deletion do to the indexes\<close>

lemma fold_add_service_addr:
  "servicesByResourceName (fold (add_service_addr svc) as s) = servicesByResourceName s"
  "servicesByAddr (fold (add_service_addr svc) as s) =
     (\<lambda>a. if a \<in> svc_net_addr ` set as then Some svc else servicesByAddr s a)"
  "servicesByIP (fold (add_service_addr svc) as s) =
     (\<lambda>a. if a \<in> (AddrFromSlice \<circ> na_address) ` set as then Some svc else servicesByIP s a)"
  by (induction as arbitrary: s) (auto simp: add_service_addr_def fun_eq_iff)

lemma AddOrUpdateService_indexes:
  "servicesByResourceName (AddOrUpdateService s svc) =
     (servicesByResourceName s)(Service_ResourceName svc \<mapsto> svc)"
  "servicesByAddr (AddOrUpdateService s svc) =
     (\<lambda>a. if a \<in> svc_net_addr ` set (svc_addresses svc) then Some svc else servicesByAddr s a)"
  "servicesByIP (AddOrUpdateService s svc) =
     (\<lambda>a. if a \<in> (AddrFromSlice \<circ> na_address) ` set (svc_addresses svc) then Some svc
          else servicesByIP s a)"
  by (auto simp: AddOrUpdateService_def fold_add_service_addr fun_eq_iff)

lemma svc_deleteAddr_byName [simp]:
  "servicesByResourceName (svc_deleteAddr svc a s) = servicesByResourceName s"
  by (simp add: svc_deleteAddr_def Let_def split: option.split)

lemma fold_svc_deleteAddr_byName [simp]:
  "servicesByResourceName (fold (\<lambda>a. svc_deleteAddr svc (f a)) as s) = servicesByResourceName s"
  by (induction as arbitrary: s) auto

definition same_service :: "Service \<Rightarrow> Service \<Rightarrow> bool" where
  "same_service a b \<longleftrightarrow> svc_namespace a = svc_namespace b \<and> svc_name a = svc_name b"

lemma svc_deleteAddr_byAddr:
  "servicesByAddr (svc_deleteAddr svc a s) b =
     (if b = a \<and> (\<exists>x. servicesByAddr s a = Some x \<and> same_service x svc) then None
      else servicesByAddr s b)"
  by (auto simp: svc_deleteAddr_def same_service_def Let_def split: option.split)

lemma fold_svc_deleteAddr_byAddr:
  "servicesByAddr (fold (\<lambda>a. svc_deleteAddr svc (f a)) as s) b =
     (if b \<in> f ` set as \<and> (\<exists>x. servicesByAddr s b = Some x \<and> same_service x svc) then None
      else servicesByAddr s b)"
  by (induction as arbitrary: s) (auto simp: svc_deleteAddr_byAddr)

lemma fold_add_workload_addr:
  "byUid (fold (\<lambda>ip c. c\<lparr>byAddr := (byAddr c)(f ip \<mapsto> wl)\<rparr>) ips w) = byUid w"
  "byAddr (fold (\<lambda>ip c. c\<lparr>byAddr := (byAddr c)(f ip \<mapsto> wl)\<rparr>) ips w) =
     (\<lambda>a. if a \<in> f ` set ips then Some wl else byAddr w a)"
  by (induction ips arbitrary: w) (auto simp: fun_eq_iff)

lemma byUid_AddOrUpdateWorkload [simp]:
  "byUid (AddOrUpdateWorkload w wl) = (byUid w)(wl_uid wl \<mapsto> wl)"
  by (simp add: AddOrUpdateWorkload_def Let_def fold_add_workload_addr)

lemma byAddr_AddOrUpdateWorkload:
  "byAddr (AddOrUpdateWorkload w wl) =
     (\<lambda>a. if wl_network_mode wl \<noteq> HOST_NETWORK \<and> a \<in> wl_net_addr wl ` set (wl_addresses wl)
          then Some wl else byAddr w a)"
  by (auto simp: AddOrUpdateWorkload_def Let_def fold_add_workload_addr)

lemma wl_deleteAddr_byUid [simp]: "byUid (wl_deleteAddr a uid w) = byUid w"
  by (simp add: wl_deleteAddr_def split: option.split)

lemma fold_wl_deleteAddr_byUid [simp]:
  "byUid (fold (\<lambda>a. wl_deleteAddr (f a) uid) as w) = byUid w"
  by (induction as arbitrary: w) auto

lemma fold_wl_deleteAddr_byAddr:
  "byAddr (fold (\<lambda>a. wl_deleteAddr (f a) uid) as w) b =
     (if b \<in> f ` set as \<and> (\<exists>x. byAddr w b = Some x \<and> wl_uid x = uid) then None else byAddr w b)"
  by (induction as arbitrary: w) (auto simp: wl_deleteAddr_def split: option.splits)

lemma byUid_DeleteWorkload [simp]: "byUid (DeleteWorkload w uid) = (byUid w)(uid := None)"
  by (auto simp: DeleteWorkload_def Let_def fun_eq_iff split: option.split)

lemma byAddr_DeleteWorkload:
  "byAddr (DeleteWorkload w uid) a =
     (case byUid w uid of
        None \<Rightarrow> byAddr w a
      | Some x \<Rightarrow> if a \<in> wl_net_addr x ` set (wl_addresses x) \<and>
                    (\<exists>y. byAddr w a = Some y \<and> wl_uid y = uid) then None else byAddr w a)"
  by (simp add: DeleteWorkload_def Let_def fold_wl_deleteAddr_byAddr split: option.split)

lemma servicesByName_DeleteService [simp]:
  "servicesByResourceName (DeleteService s n) = (servicesByResourceName s)(n := None)"
  by (auto simp: DeleteService_def Let_def fun_eq_iff split: option.split)

lemma servicesByAddr_DeleteService:
  "servicesByAddr (DeleteService s n) a =
     (case servicesByResourceName s n of
        None \<Rightarrow> servicesByAddr s a
      | Some x \<Rightarrow> if a \<in> svc_net_addr ` set (svc_addresses x) \<and>
                    (\<exists>y. servicesByAddr s a = Some y \<and> same_service y x) then None
                  else servicesByAddr s a)"
  by (simp add: DeleteService_def Let_def fold_svc_deleteAddr_byAddr split: option.split)

subsection \<open>The caches as address indexes\<close>

text \<open>
  Both caches offer the same contract to their clients: objects by key, and an index from
  addresses to objects.  \<open>reg\<close> are the addresses an object is registered under, \<open>unreg\<close> the ones
  its deletion looks at, and \<open>same\<close> is the test by which a deletion recognises its own entries.
\<close>

definition addr_ok ::
  "('o \<Rightarrow> string) \<Rightarrow> ('o \<Rightarrow> 'a set) \<Rightarrow> (string \<rightharpoonup> 'o) \<Rightarrow> ('a \<rightharpoonup> 'o) \<Rightarrow> bool" where
  "addr_ok key reg K A \<longleftrightarrow>
     (\<forall>a x. A a = Some x \<longrightarrow> K (key x) = Some x \<and> a \<in> reg x) \<and>
     (\<forall>k x. K k = Some x \<longrightarrow> key x = k)"

locale addr_index =
  fixes add :: "'c \<Rightarrow> 'o \<Rightarrow> 'c"
    and del :: "'c \<Rightarrow> string \<Rightarrow> 'c"
    and by_key :: "'c \<Rightarrow> string \<Rightarrow> 'o option"
    and by_addr :: "'c \<Rightarrow> 'a \<Rightarrow> 'o option"
    and key :: "'o \<Rightarrow> string"
    and reg :: "'o \<Rightarrow> 'a set"
    and unreg :: "'o \<Rightarrow> 'a set"
    and same :: "string \<Rightarrow> 'o \<Rightarrow> 'o \<Rightarrow> bool"
  assumes by_key_add: "by_key (add c x) = (by_key c)(key x \<mapsto> x)"
    and by_addr_add: "by_addr (add c x) a = (if a \<in> reg x then Some x else by_addr c a)"
    and by_key_del: "by_key (del c k) = (by_key c)(k := None)"
    and by_addr_del: "by_addr (del c k) a =
          (case by_key c k of None \<Rightarrow> by_addr c a
           | Some x \<Rightarrow> if a \<in> unreg x \<and> (\<exists>y. by_addr c a = Some y \<and> same k y x) then None
                       else by_addr c a)"
    and reg_unreg: "reg x \<subseteq> unreg x"
    and same_refl: "same (key x) x x"
begin

lemma add_found: "by_key (add c x) (key x) = Some x" "a \<in> reg x \<Longrightarrow> by_addr (add c x) a = Some x"
  by (simp_all add: by_key_add by_addr_add)

lemma ok_add:
  assumes "addr_ok key reg (by_key c) (by_addr c)"
    and "\<And>y. by_key c (key x) = Some y \<Longrightarrow> reg y \<subseteq> reg x"
  shows "addr_ok key reg (by_key (add c x)) (by_addr (add c x))"
proof -
  have "key y \<noteq> key x" if "by_addr c a = Some y" "a \<notin> reg x" for a y
  proof
    assume e: "key y = key x"
    have "by_key c (key y) = Some y" "a \<in> reg y" using assms(1) that(1) by (simp_all add: addr_ok_def)
    with assms(2) [of y] e that(2) show False by auto
  qed
  then show ?thesis
    using assms(1) unfolding addr_ok_def by (simp add: by_key_add by_addr_add)
qed

lemma ok_del:
  assumes "addr_ok key reg (by_key c) (by_addr c)"
  shows "addr_ok key reg (by_key (del c k)) (by_addr (del c k))"
proof -
  have "by_key (del c k) (key x) = Some x \<and> a \<in> reg x" if "by_addr (del c k) a = Some x" for a x
  proof -
    have ax: "by_addr c a = Some x" using that by (auto simp: by_addr_del split: option.splits if_splits)
    then have kx: "by_key c (key x) = Some x" "a \<in> reg x" using assms by (auto simp: addr_ok_def)
    have "key x \<noteq> k"
    proof
      assume "key x = k"
      with kx that ax same_refl [of x] reg_unreg [of x] show False by (auto simp: by_addr_del)
    qed
    with kx show ?thesis by (simp add: by_key_del)
  qed
  then show ?thesis using assms by (auto simp: addr_ok_def by_key_del split: if_splits)
qed

lemma del_unreachable:
  assumes "addr_ok key reg (by_key c) (by_addr c)" and "by_addr (del c k) a = Some x"
  shows "key x \<noteq> k"
proof -
  have "by_key (del c k) (key x) = Some x"
    using ok_del [OF assms(1), of k] assms(2) unfolding addr_ok_def by blast
  then show ?thesis by (auto simp: by_key_del)
qed

lemma stale_after_move:
  assumes "key y = key x" and "a \<in> reg x" and "a \<notin> unreg y"
  shows "by_addr (del (add (add c x) y) (key x)) a = Some x"
  using assms reg_unreg [of y] by (auto simp: by_addr_del by_key_add by_addr_add)

end

definition wl_reg :: "Workload \<Rightarrow> net_addr set" where
  "wl_reg wl = (if wl_network_mode wl = HOST_NETWORK then {} else wl_net_addr wl ` set (wl_addresses wl))"

definition wl_unreg :: "Workload \<Rightarrow> net_addr set" where
  "wl_unreg wl = wl_net_addr wl ` set (wl_addresses wl)"

definition svc_reg :: "Service \<Rightarrow> net_addr set" where
  "svc_reg svc = svc_net_addr ` set (svc_addresses svc)"

interpretation services: addr_index AddOrUpdateService DeleteService GetService GetServiceByAddr
  Service_ResourceName svc_reg svc_reg "\<lambda>_. same_service"
proof unfold_locales
  fix s n a
  show "GetServiceByAddr (DeleteService s n) a =
        (case GetService s n of None \<Rightarrow> GetServiceByAddr s a
         | Some x \<Rightarrow> if a \<in> svc_reg x \<and> (\<exists>y. GetServiceByAddr s a = Some y \<and> same_service y x)
            then None else GetServiceByAddr s a)"
    by (simp only: servicesByAddr_DeleteService GetServiceByAddr_def GetService_def svc_reg_def)
qed (simp_all add: GetServiceByAddr_def GetService_def AddOrUpdateService_indexes fun_eq_iff
    svc_reg_def same_service_def)

interpretation workloads: addr_index AddOrUpdateWorkload DeleteWorkload GetWorkloadByUid
  GetWorkloadByAddr wl_uid wl_reg wl_unreg "\<lambda>k y x. wl_uid y = k"
proof unfold_locales
  fix w uid a
  show "GetWorkloadByAddr (DeleteWorkload w uid) a =
        (case GetWorkloadByUid w uid of None \<Rightarrow> GetWorkloadByAddr w a
         | Some x \<Rightarrow> if a \<in> wl_unreg x \<and>
              (\<exists>y. GetWorkloadByAddr w a = Some y \<and> wl_uid y = uid) then None
            else GetWorkloadByAddr w a)"
    by (simp only: byAddr_DeleteWorkload GetWorkloadByAddr_def GetWorkloadByUid_def wl_unreg_def)
qed (simp_all add: GetWorkloadByAddr_def GetWorkloadByUid_def byAddr_AddOrUpdateWorkload wl_reg_def
    wl_unreg_def fun_eq_iff)

subsection \<open>Properties\<close>

abbreviation wc_ok :: "workload_cache \<Rightarrow> bool" where
  "wc_ok w \<equiv> addr_ok wl_uid wl_reg (GetWorkloadByUid w) (GetWorkloadByAddr w)"

text \<open>
  The workload cache answers with what it was last told: after an update the workload is
  found by its uid and, unless it uses the host network, by each of its addresses; after a
  deletion its uid is gone and, in a consistent cache, no address leads to it any more.  Both
  operations keep the cache consistent, the update provided the workload keeps its addresses.
\<close>

theorem workload_cache_consistent:
  assumes "wc_ok w"
  shows "GetWorkloadByUid (AddOrUpdateWorkload w wl) (wl_uid wl) = Some wl \<and>
         (\<forall>a \<in> wl_reg wl. GetWorkloadByAddr (AddOrUpdateWorkload w wl) a = Some wl) \<and>
         ((\<forall>old. GetWorkloadByUid w (wl_uid wl) = Some old \<longrightarrow> wl_reg old \<subseteq> wl_reg wl) \<longrightarrow>
          wc_ok (AddOrUpdateWorkload w wl)) \<and>
         GetWorkloadByUid (DeleteWorkload w uid) uid = None \<and>
         (\<forall>a x. GetWorkloadByAddr (DeleteWorkload w uid) a = Some x \<longrightarrow> wl_uid x \<noteq> uid) \<and>
         wc_ok (DeleteWorkload w uid)"
  using workloads.add_found workloads.ok_add [OF assms] workloads.ok_del [OF assms]
    workloads.del_unreachable [OF assms] workloads.by_key_del
  by simp_all

definition sample_workload :: "string \<Rightarrow> bytes \<Rightarrow> Workload" where
  "sample_workload uid ip = \<lparr>wl_uid = uid, wl_name = ''web'', wl_namespace = ''default'',
     wl_addresses = [ip], wl_network = '''', wl_trust_domain = ''cluster.local'',
     wl_service_account = ''sa'', wl_waypoint = None, wl_node = ''n1'', wl_services = [],
     wl_authorization_policies = [], wl_status = HEALTHY, wl_cluster_id = ''c1'',
     wl_locality = None, wl_network_mode = STANDARD\<rparr>"

theorem workload_cache_consistent_witness:
  "wc_ok NewWorkloadCache \<and>
   wc_ok (AddOrUpdateWorkload NewWorkloadCache (sample_workload ''u1'' [10, 0, 0, 1])) \<and>
   GetWorkloadByAddr (AddOrUpdateWorkload NewWorkloadCache (sample_workload ''u1'' [10, 0, 0, 1]))
     ('''', Some [10, 0, 0, 1]) = Some (sample_workload ''u1'' [10, 0, 0, 1])"
proof -
  have ok: "wc_ok NewWorkloadCache"
    by (simp add: addr_ok_def NewWorkloadCache_def GetWorkloadByUid_def GetWorkloadByAddr_def)
  show ?thesis
    using ok workload_cache_consistent [OF ok, of "sample_workload ''u1'' [10, 0, 0, 1]"]
    by (auto simp: NewWorkloadCache_def GetWorkloadByUid_def wl_reg_def sample_workload_def
        wl_net_addr_def composeNetworkAddress_def AddrFromSlice_def)
qed

text \<open>
  A workload that moves leaves its old address behind.  When a workload is updated with
  addresses that no longer include an old one and is then deleted, the old address still
  answers with the first version of the deleted workload: the update never removes the entries
  of the version it replaces, and the deletion only looks at the addresses of the last version.
\<close>

theorem workload_cache_stale_address:
  assumes "wl_uid wl' = wl_uid wl" and "a \<in> wl_reg wl" and "a \<notin> wl_unreg wl'"
  shows "GetWorkloadByAddr
           (DeleteWorkload (AddOrUpdateWorkload (AddOrUpdateWorkload w wl) wl') (wl_uid wl)) a
         = Some wl"
  using assms by (rule workloads.stale_after_move)

theorem workload_cache_stale_address_witness:
  "GetWorkloadByAddr
     (DeleteWorkload
        (AddOrUpdateWorkload
           (AddOrUpdateWorkload NewWorkloadCache (sample_workload ''u1'' [10, 0, 0, 1]))
           (sample_workload ''u1'' [10, 0, 0, 2])) ''u1'')
     ('''', Some [10, 0, 0, 1]) = Some (sample_workload ''u1'' [10, 0, 0, 1])"
  using workload_cache_stale_address [of "sample_workload ''u1'' [10, 0, 0, 2]"
      "sample_workload ''u1'' [10, 0, 0, 1]" "('''', Some [10, 0, 0, 1])" NewWorkloadCache]
  by (simp add: sample_workload_def wl_reg_def wl_unreg_def wl_net_addr_def
      composeNetworkAddress_def AddrFromSlice_def)

end
