(* ===== verification/Waypoint_Cache.thy ===== *)
theory Waypoint_Cache
  imports Service_Cache
begin

text \<open>
  The waypoint cache (\<open>pkg/controller/workload/cache/waypoint_cache.go\<close>): it turns waypoints
  given by hostname into waypoints given by address, and remembers which services and workloads
  wait for, or use, which waypoint service.  The service cache it consults is an argument.  The
  operations that write through a pointer found in a map return \<^const>\<open>None\<close> where that pointer
  is nil and Go panics.
\<close>

subsection \<open>Objects associated with a waypoint\<close>

record waypoint_objects =
  wo_address :: "NetworkAddress option"
  wo_services :: "(string \<times> Service) list"
  wo_workloads :: "(string \<times> Workload) list"

definition newAssociatedObjects :: "NetworkAddress option \<Rightarrow> waypoint_objects" where
  "newAssociatedObjects addr = \<lparr>wo_address = addr, wo_services = [], wo_workloads = []\<rparr>"

definition isResolved :: "waypoint_objects \<Rightarrow> bool" where
  "isResolved ob = (wo_address ob \<noteq> None)"

text \<open>Writing the destination of a nil waypoint panics.\<close>

definition updateServiceWaypoint :: "NetworkAddress \<Rightarrow> Service \<Rightarrow> Service option" where
  "updateServiceWaypoint addr svc =
     (case svc_waypoint svc of
        None \<Rightarrow> None
      | Some g \<Rightarrow> Some (svc\<lparr>svc_waypoint := Some (g\<lparr>gw_destination := Some (DestAddress addr)\<rparr>)\<rparr>))"

definition updateWorkloadWaypoint :: "NetworkAddress \<Rightarrow> Workload \<Rightarrow> Workload option" where
  "updateWorkloadWaypoint addr wl =
     (case wl_waypoint wl of
        None \<Rightarrow> None
      | Some g \<Rightarrow> Some (wl\<lparr>wl_waypoint := Some (g\<lparr>gw_destination := Some (DestAddress addr)\<rparr>)\<rparr>))"

fun update_all :: "('a \<Rightarrow> 'a option) \<Rightarrow> (string \<times> 'a) list \<Rightarrow> (string \<times> 'a) list option" where
  "update_all f [] = Some []"
| "update_all f ((k, x) # xs) =
     do { y \<leftarrow> f x; ys \<leftarrow> update_all f xs; Some ((k, y) # ys) }"

definition update :: "waypoint_objects \<Rightarrow> NetworkAddress \<Rightarrow>
    ((Service list \<times> Workload list) \<times> waypoint_objects) option" where
  "update ob addr =
     do { svcs \<leftarrow> update_all (updateServiceWaypoint addr) (wo_services ob);
          wls \<leftarrow> update_all (updateWorkloadWaypoint addr) (wo_workloads ob);
          Some ((map snd svcs, map snd wls),
                \<lparr>wo_address = Some addr, wo_services = svcs, wo_workloads = wls\<rparr>) }"

definition addService :: "string \<Rightarrow> Service \<Rightarrow> waypoint_objects \<Rightarrow> waypoint_objects" where
  "addService resourceName svc ob = ob\<lparr>wo_services := AList.update resourceName svc (wo_services ob)\<rparr>"

definition deleteService :: "string \<Rightarrow> waypoint_objects \<Rightarrow> waypoint_objects" where
  "deleteService resourceName ob = ob\<lparr>wo_services := AList.delete resourceName (wo_services ob)\<rparr>"

definition addWorkload :: "string \<Rightarrow> Workload \<Rightarrow> waypoint_objects \<Rightarrow> waypoint_objects" where
  "addWorkload uid wl ob = ob\<lparr>wo_workloads := AList.update uid wl (wo_workloads ob)\<rparr>"

definition deleteWorkload :: "string \<Rightarrow> waypoint_objects \<Rightarrow> waypoint_objects" where
  "deleteWorkload uid ob = ob\<lparr>wo_workloads := AList.delete uid (wo_workloads ob)\<rparr>"

subsection \<open>The cache\<close>

record waypoint_cache =
  waypointAssociatedObjects :: "string \<rightharpoonup> waypoint_objects"
  serviceToWaypoint :: "string \<rightharpoonup> string"
  workloadToWaypoint :: "string \<rightharpoonup> string"

definition NewWaypointCache :: waypoint_cache where
  "NewWaypointCache = \<lparr>waypointAssociatedObjects = Map.empty, serviceToWaypoint = Map.empty,
     workloadToWaypoint = Map.empty\<rparr>"

text \<open>\<open>w.waypointAssociatedObjects[waypoint].f()\<close>, a method call through a map entry.\<close>

definition on_associated :: "(waypoint_objects \<Rightarrow> waypoint_objects) \<Rightarrow> string \<Rightarrow>
    waypoint_cache \<Rightarrow> waypoint_cache option" where
  "on_associated f waypoint w =
     (case waypointAssociatedObjects w waypoint of
        None \<Rightarrow> None
      | Some ob \<Rightarrow> Some (w\<lparr>waypointAssociatedObjects :=
                            (waypointAssociatedObjects w)(waypoint \<mapsto> f ob)\<rparr>))"

text \<open>Deleting the previous association of a service: first the link, then the entry.\<close>

definition unlink_service :: "string \<Rightarrow> string \<Rightarrow> waypoint_cache \<Rightarrow> waypoint_cache option" where
  "unlink_service resourceName waypoint w =
     on_associated (deleteService resourceName) waypoint
       (w\<lparr>serviceToWaypoint := (serviceToWaypoint w)(resourceName := None)\<rparr>)"

definition unlink_workload :: "string \<Rightarrow> string \<Rightarrow> waypoint_cache \<Rightarrow> waypoint_cache option" where
  "unlink_workload uid waypoint w =
     on_associated (deleteWorkload uid) waypoint
       (w\<lparr>workloadToWaypoint := (workloadToWaypoint w)(uid := None)\<rparr>)"

text \<open>
  The first address of the waypoint service, when the service cache has it.
\<close>

definition waypoint_service_addr :: "service_cache \<Rightarrow> string \<Rightarrow> NetworkAddress option" where
  "waypoint_service_addr sc name =
     (case GetService sc name of
        None \<Rightarrow> None
      | Some ws \<Rightarrow> (case svc_addresses ws of [] \<Rightarrow> None | a # _ \<Rightarrow> Some a))"

definition waypoint_resource_name :: "GatewayAddress \<Rightarrow> string" where
  "waypoint_resource_name g = (let (ns, h) = gw_hostname g in ns @ ''/'' @ h)"

text \<open>
  The middle part of an update: resolve the waypoint from the associated objects, or else from
  the service cache, recording a new entry in that case.
\<close>

definition resolve_service :: "service_cache \<Rightarrow> string \<Rightarrow> Service \<Rightarrow> waypoint_cache \<Rightarrow>
    ((bool \<times> Service) \<times> waypoint_cache) option" where
  "resolve_service sc waypointResourceName svc w =
     (case waypointAssociatedObjects w waypointResourceName of
        Some associated \<Rightarrow>
          if isResolved associated
          then do { svc1 \<leftarrow> updateServiceWaypoint (the (wo_address associated)) svc;
                    Some ((True, svc1), w) }
          else Some ((False, svc), w)
      | None \<Rightarrow>
          (let addr = waypoint_service_addr sc waypointResourceName;
               w1 = w\<lparr>waypointAssociatedObjects := (waypointAssociatedObjects w)
                       (waypointResourceName \<mapsto> newAssociatedObjects addr)\<rparr>
           in case addr of
                None \<Rightarrow> Some ((False, svc), w1)
              | Some a \<Rightarrow> do { svc1 \<leftarrow> updateServiceWaypoint a svc; Some ((True, svc1), w1) }))"

text \<open>
  \<open>AddOrUpdateService\<close>: the answer, the service as it is left, and the cache.
\<close>

definition wp_AddOrUpdateService :: "service_cache \<Rightarrow> waypoint_cache \<Rightarrow> Service \<Rightarrow>
    ((bool \<times> Service) \<times> waypoint_cache) option" where
  "wp_AddOrUpdateService sc w svc =
     (let resourceName = Service_ResourceName svc in
      if svc_waypoint svc = None \<or> waypoint_address (svc_waypoint svc) \<noteq> None then
        (case serviceToWaypoint w resourceName of
           None \<Rightarrow> Some ((True, svc), w)
         | Some waypoint \<Rightarrow>
             do { w1 \<leftarrow> unlink_service resourceName waypoint w; Some ((True, svc), w1) })
      else
        (let waypointResourceName = waypoint_resource_name (the (svc_waypoint svc)) in
         do { w1 \<leftarrow> (case serviceToWaypoint w resourceName of
                       Some waypoint \<Rightarrow>
                         if waypoint \<noteq> waypointResourceName
                         then unlink_service resourceName waypoint w else Some w
                     | None \<Rightarrow> Some w);
              ((ret, svc1), w2) \<leftarrow>
                resolve_service sc waypointResourceName svc w1;
              w3 \<leftarrow> on_associated (addService resourceName svc1) waypointResourceName
                     (w2\<lparr>serviceToWaypoint :=
                           (serviceToWaypoint w2)(resourceName \<mapsto> waypointResourceName)\<rparr>);
              Some ((ret, svc1), w3) }))"

definition wp_DeleteService :: "waypoint_cache \<Rightarrow> string \<Rightarrow> waypoint_cache" where
  "wp_DeleteService w resourceName =
     (let w1 = (case serviceToWaypoint w resourceName of
                  None \<Rightarrow> w
                | Some waypoint \<Rightarrow>
                    (let w0 = w\<lparr>serviceToWaypoint := (serviceToWaypoint w)(resourceName := None)\<rparr>
                     in case waypointAssociatedObjects w0 waypoint of
                          None \<Rightarrow> w0
                        | Some ob \<Rightarrow> w0\<lparr>waypointAssociatedObjects :=
                             (waypointAssociatedObjects w0)(waypoint \<mapsto> deleteService resourceName ob)\<rparr>))
      in w1\<lparr>waypointAssociatedObjects := (waypointAssociatedObjects w1)(resourceName := None)\<rparr>)"

definition resolve_workload :: "service_cache \<Rightarrow> string \<Rightarrow> Workload \<Rightarrow> waypoint_cache \<Rightarrow>
    ((bool \<times> Workload) \<times> waypoint_cache) option" where
  "resolve_workload sc waypointResourceName workload w =
     (case waypointAssociatedObjects w waypointResourceName of
        Some associated \<Rightarrow>
          if isResolved associated
          then do { wl1 \<leftarrow> updateWorkloadWaypoint (the (wo_address associated)) workload;
                    Some ((True, wl1), w) }
          else Some ((False, workload), w)
      | None \<Rightarrow>
          (let addr = waypoint_service_addr sc waypointResourceName;
               w1 = w\<lparr>waypointAssociatedObjects := (waypointAssociatedObjects w)
                       (waypointResourceName \<mapsto> newAssociatedObjects addr)\<rparr>
           in case addr of
                None \<Rightarrow> Some ((False, workload), w1)
              | Some a \<Rightarrow> do { wl1 \<leftarrow> updateWorkloadWaypoint a workload; Some ((True, wl1), w1) }))"

definition wp_AddOrUpdateWorkload :: "service_cache \<Rightarrow> waypoint_cache \<Rightarrow> Workload \<Rightarrow>
    ((bool \<times> Workload) \<times> waypoint_cache) option" where
  "wp_AddOrUpdateWorkload sc w workload =
     (let uid = wl_uid workload in
      if wl_waypoint workload = None \<or> waypoint_address (wl_waypoint workload) \<noteq> None then
        (case workloadToWaypoint w uid of
           None \<Rightarrow> Some ((True, workload), w)
         | Some waypoint \<Rightarrow>
             do { w1 \<leftarrow> unlink_workload uid waypoint w; Some ((True, workload), w1) })
      else
        (let waypointResourceName = waypoint_resource_name (the (wl_waypoint workload)) in
         do { w1 \<leftarrow> (case workloadToWaypoint w uid of
                       Some waypoint \<Rightarrow>
                         if waypoint \<noteq> waypointResourceName
                         then unlink_workload uid waypoint w else Some w
                     | None \<Rightarrow> Some w);
              ((ret, wl1), w2) \<leftarrow>
                resolve_workload sc waypointResourceName workload w1;
              w3 \<leftarrow> on_associated (addWorkload uid wl1) waypointResourceName
                     (w2\<lparr>workloadToWaypoint := (workloadToWaypoint w2)(uid \<mapsto> waypointResourceName)\<rparr>);
              Some ((ret, wl1), w3) }))"

definition wp_DeleteWorkload :: "waypoint_cache \<Rightarrow> string \<Rightarrow> waypoint_cache" where
  "wp_DeleteWorkload w uid =
     (case workloadToWaypoint w uid of
        None \<Rightarrow> w
      | Some waypoint \<Rightarrow>
          (let w0 = w\<lparr>workloadToWaypoint := (workloadToWaypoint w)(uid := None)\<rparr>
           in case waypointAssociatedObjects w0 waypoint of
                None \<Rightarrow> w0
              | Some ob \<Rightarrow> w0\<lparr>waypointAssociatedObjects :=
                   (waypointAssociatedObjects w0)(waypoint \<mapsto> deleteWorkload uid ob)\<rparr>))"

definition Refresh :: "waypoint_cache \<Rightarrow> Service \<Rightarrow>
    ((Service list \<times> Workload list) \<times> waypoint_cache) option" where
  "Refresh w svc =
     (case svc_addresses svc of
        [] \<Rightarrow> Some (([], []), w)
      | address # _ \<Rightarrow>
          (let resourceName = Service_ResourceName svc in
           case waypointAssociatedObjects w resourceName of
             None \<Rightarrow> Some (([], []), w)
           | Some associated \<Rightarrow>
               if wo_address associated = Some address then Some (([], []), w)
               else do { (res, ob) \<leftarrow> update associated address;
                         Some (res, w\<lparr>waypointAssociatedObjects :=
                                       (waypointAssociatedObjects w)(resourceName \<mapsto> ob)\<rparr>) }))"

subsection \<open>Invariants\<close>

text \<open>
  An entry under a waypoint belongs to the object whose link names that waypoint, keys are
  unique, and every stored object still has a waypoint (so that it can be written).  The
  converse, that every link leads to an entry, is \<open>links_live\<close>; it is kept by every operation
  except the deletion of a waypoint service.
\<close>

definition wpc_inv :: "waypoint_cache \<Rightarrow> bool" where
  "wpc_inv w \<longleftrightarrow>
     (\<forall>wp ob. waypointAssociatedObjects w wp = Some ob \<longrightarrow>
        (\<forall>(k, x) \<in> set (wo_services ob). serviceToWaypoint w k = Some wp \<and> svc_waypoint x \<noteq> None \<and> Service_ResourceName x = k) \<and>
        (\<forall>(k, x) \<in> set (wo_workloads ob). workloadToWaypoint w k = Some wp \<and> wl_waypoint x \<noteq> None \<and> wl_uid x = k) \<and>
        distinct (map fst (wo_services ob)) \<and> distinct (map fst (wo_workloads ob)))"

definition links_live :: "waypoint_cache \<Rightarrow> bool" where
  "links_live w \<longleftrightarrow>
     ran (serviceToWaypoint w) \<union> ran (workloadToWaypoint w) \<subseteq> dom (waypointAssociatedObjects w)"

lemma links_liveD:
  "links_live w \<Longrightarrow> serviceToWaypoint w k = Some wp \<Longrightarrow> \<exists>ob. waypointAssociatedObjects w wp = Some ob"
  "links_live w \<Longrightarrow> workloadToWaypoint w k = Some wp \<Longrightarrow> \<exists>ob. waypointAssociatedObjects w wp = Some ob"
  by (auto simp: links_live_def ran_def)

lemma wpc_invD:
  assumes "wpc_inv w" and "waypointAssociatedObjects w wp = Some ob"
  shows "(k, x) \<in> set (wo_services ob) \<Longrightarrow> serviceToWaypoint w k = Some wp \<and> svc_waypoint x \<noteq> None \<and> Service_ResourceName x = k"
    and "(k, y) \<in> set (wo_workloads ob) \<Longrightarrow> workloadToWaypoint w k = Some wp \<and> wl_waypoint y \<noteq> None \<and> wl_uid y = k"
    and "distinct (map fst (wo_services ob))" and "distinct (map fst (wo_workloads ob))"
  using assms unfolding wpc_inv_def by (fastforce)+

lemma wpc_inv_New: "wpc_inv NewWaypointCache" "links_live NewWaypointCache"
  by (simp_all add: wpc_inv_def links_live_def NewWaypointCache_def)

text \<open>The building blocks of the update keep the invariants.\<close>

lemma unlink_service_inv:
  assumes "wpc_inv w" and "links_live w" and "serviceToWaypoint w k = Some wp"
  shows "\<exists>w'. unlink_service k wp w = Some w' \<and> wpc_inv w' \<and> links_live w' \<and>
           serviceToWaypoint w' = (serviceToWaypoint w)(k := None) \<and>
           (\<forall>wp' ob. waypointAssociatedObjects w' wp' = Some ob \<longrightarrow> k \<notin> fst ` set (wo_services ob))"
proof -
  obtain ob where ob: "waypointAssociatedObjects w wp = Some ob"
    using links_liveD(1) [OF assms(2,3)] by blast
  let ?w = "w\<lparr>serviceToWaypoint := (serviceToWaypoint w)(k := None),
      waypointAssociatedObjects := (waypointAssociatedObjects w)(wp \<mapsto> deleteService k ob)\<rparr>"
  have u: "unlink_service k wp w = Some ?w"
    using ob by (simp add: unlink_service_def on_associated_def)
  have other: "k \<notin> fst ` set (wo_services ob')"
    if "waypointAssociatedObjects w wp' = Some ob'" "wp' \<noteq> wp" for wp' ob'
    using wpc_invD(1) [OF assms(1) that(1)] assms(3) that(2) by fastforce
  have "wpc_inv ?w"
    unfolding wpc_inv_def
  proof (intro allI impI)
    fix wp' ob'
    assume a: "waypointAssociatedObjects ?w wp' = Some ob'"
    show "(\<forall>(k, x) \<in> set (wo_services ob'). serviceToWaypoint ?w k = Some wp' \<and> svc_waypoint x \<noteq> None \<and> Service_ResourceName x = k) \<and>
        (\<forall>(k, x) \<in> set (wo_workloads ob'). workloadToWaypoint ?w k = Some wp' \<and> wl_waypoint x \<noteq> None \<and> wl_uid x = k) \<and>
        distinct (map fst (wo_services ob')) \<and> distinct (map fst (wo_workloads ob'))"
    proof (cases "wp' = wp")
      case True
      then have "ob' = deleteService k ob" using a by simp
      with True show ?thesis using wpc_invD [OF assms(1) ob]
        by (auto simp: deleteService_def set_AList_delete distinct_delete)
    next
      case False
      with a have b: "waypointAssociatedObjects w wp' = Some ob'" by simp
      show ?thesis using wpc_invD [OF assms(1) b] other [OF b False] by force
    qed
  qed
  moreover have "links_live ?w"
    using assms(2) ob by (auto simp: links_live_def ran_def dom_def)
  moreover have "\<forall>wp' ob'. waypointAssociatedObjects ?w wp' = Some ob' \<longrightarrow> k \<notin> fst ` set (wo_services ob')"
    using other by (auto simp: deleteService_def set_AList_delete)
  ultimately show ?thesis using u by auto
qed

text \<open>The key occurs under no other waypoint than \<open>wp\<close>.\<close>

definition only_under :: "string \<Rightarrow> string \<Rightarrow> waypoint_cache \<Rightarrow> bool" where
  "only_under k wp w \<longleftrightarrow>
     (\<forall>wp' ob. waypointAssociatedObjects w wp' = Some ob \<longrightarrow> wp' \<noteq> wp \<longrightarrow> k \<notin> fst ` set (wo_services ob))"

lemma link_service_inv:
  assumes "wpc_inv w" and "links_live w" and "waypointAssociatedObjects w wp = Some ob"
    and "only_under k wp w" and "svc_waypoint svc \<noteq> None" and "Service_ResourceName svc = k"
  defines "w' \<equiv> w\<lparr>serviceToWaypoint := (serviceToWaypoint w)(k \<mapsto> wp),
      waypointAssociatedObjects := (waypointAssociatedObjects w)(wp \<mapsto> addService k svc ob)\<rparr>"
  shows "on_associated (addService k svc) wp
           (w\<lparr>serviceToWaypoint := (serviceToWaypoint w)(k \<mapsto> wp)\<rparr>) = Some w'"
    and "wpc_inv w'" and "links_live w'"
proof -
  show "on_associated (addService k svc) wp
           (w\<lparr>serviceToWaypoint := (serviceToWaypoint w)(k \<mapsto> wp)\<rparr>) = Some w'"
    using assms(3) by (simp add: on_associated_def w'_def)
  show "links_live w'" using assms(2,3) by (auto simp: links_live_def ran_def dom_def w'_def)
  show "wpc_inv w'"
    unfolding wpc_inv_def
  proof (intro allI impI)
    fix wp' ob'
    assume a: "waypointAssociatedObjects w' wp' = Some ob'"
    show "(\<forall>(k, x) \<in> set (wo_services ob'). serviceToWaypoint w' k = Some wp' \<and> svc_waypoint x \<noteq> None \<and> Service_ResourceName x = k) \<and>
        (\<forall>(k, x) \<in> set (wo_workloads ob'). workloadToWaypoint w' k = Some wp' \<and> wl_waypoint x \<noteq> None \<and> wl_uid x = k) \<and>
        distinct (map fst (wo_services ob')) \<and> distinct (map fst (wo_workloads ob'))"
    proof (cases "wp' = wp")
      case True
      then have "ob' = addService k svc ob" using a by (simp add: w'_def)
      with True assms(5,6) show ?thesis
        using wpc_invD [OF assms(1,3)]
        by (auto simp: addService_def set_AList_update distinct_update w'_def)
    next
      case False
      with a have b: "waypointAssociatedObjects w wp' = Some ob'" by (simp add: w'_def)
      have "k \<notin> fst ` set (wo_services ob')" using assms(4) b False by (simp add: only_under_def)
      then show ?thesis using wpc_invD [OF assms(1) b] by (force simp: w'_def)
    qed
  qed
qed

lemma updateServiceWaypoint_Some:
  assumes "svc_waypoint svc \<noteq> None"
  shows "\<exists>svc1. updateServiceWaypoint a svc = Some svc1 \<and> svc_waypoint svc1 \<noteq> None \<and>
           Service_ResourceName svc1 = Service_ResourceName svc"
  using assms by (auto simp: updateServiceWaypoint_def Service_ResourceName_def)

lemma resolve_service_spec:
  assumes "wpc_inv w" and "links_live w" and "svc_waypoint svc \<noteq> None" and "only_under k wp w"
  shows "\<exists>ret svc1 w1 ob. resolve_service sc wp svc w = Some ((ret, svc1), w1) \<and>
           wpc_inv w1 \<and> links_live w1 \<and> only_under k wp w1 \<and>
           waypointAssociatedObjects w1 wp = Some ob \<and> svc_waypoint svc1 \<noteq> None \<and>
           Service_ResourceName svc1 = Service_ResourceName svc \<and>
           (if ret then \<exists>a. wo_address ob = Some a \<and> updateServiceWaypoint a svc = Some svc1
            else wo_address ob = None \<and> svc1 = svc)"
proof (cases "waypointAssociatedObjects w wp")
  case None
  let ?ob = "newAssociatedObjects (waypoint_service_addr sc wp)"
  let ?w = "w\<lparr>waypointAssociatedObjects := (waypointAssociatedObjects w)(wp \<mapsto> ?ob)\<rparr>"
  have i: "wpc_inv ?w" "links_live ?w" "only_under k wp ?w" "waypointAssociatedObjects ?w wp = Some ?ob"
    using assms(1,2,4) unfolding wpc_inv_def
    by (auto simp: newAssociatedObjects_def links_live_def only_under_def)
  show ?thesis
  proof (cases "waypoint_service_addr sc wp")
    case addr: None
    have "resolve_service sc wp svc w = Some ((False, svc), ?w)"
      using None addr by (simp add: resolve_service_def)
    with i assms(3) addr show ?thesis
      by (intro exI [of _ False] exI [of _ svc] exI [of _ ?w] exI [of _ ?ob])
        (simp add: newAssociatedObjects_def)
  next
    case (Some a)
    obtain svc1 where s: "updateServiceWaypoint a svc = Some svc1" "svc_waypoint svc1 \<noteq> None"
      "Service_ResourceName svc1 = Service_ResourceName svc"
      using updateServiceWaypoint_Some [OF assms(3)] by blast
    have "resolve_service sc wp svc w = Some ((True, svc1), ?w)"
      using None Some s by (simp add: resolve_service_def)
    with i s Some show ?thesis
      by (intro exI [of _ True] exI [of _ svc1] exI [of _ ?w] exI [of _ ?ob])
        (simp add: newAssociatedObjects_def)
  qed
next
  case (Some ob)
  show ?thesis
  proof (cases "wo_address ob")
    case None
    with Some assms show ?thesis
      by (intro exI [of _ False] exI [of _ svc] exI [of _ w] exI [of _ ob])
        (simp add: resolve_service_def isResolved_def)
  next
    case a: (Some a)
    obtain svc1 where "updateServiceWaypoint a svc = Some svc1" "svc_waypoint svc1 \<noteq> None"
      "Service_ResourceName svc1 = Service_ResourceName svc"
      using updateServiceWaypoint_Some [OF assms(3)] by blast
    with Some a assms show ?thesis
      by (intro exI [of _ True] exI [of _ svc1] exI [of _ w] exI [of _ ob])
        (simp add: resolve_service_def isResolved_def)
  qed
qed

lemma updateServiceWaypoint_address:
  "updateServiceWaypoint a svc = Some svc' \<Longrightarrow> waypoint_address (svc_waypoint svc') = Some a"
  by (auto simp: updateServiceWaypoint_def waypoint_address_def gw_address_def split: option.splits)

lemma wp_AddOrUpdateService_clear:
  assumes "svc_waypoint svc = None \<or> waypoint_address (svc_waypoint svc) \<noteq> None"
  shows "wp_AddOrUpdateService sc w svc =
    (case serviceToWaypoint w (Service_ResourceName svc) of
       None \<Rightarrow> Some ((True, svc), w)
     | Some wp \<Rightarrow> do { w1 \<leftarrow> unlink_service (Service_ResourceName svc) wp w; Some ((True, svc), w1) })"
  using assms by (simp add: wp_AddOrUpdateService_def Let_def)

lemma wp_AddOrUpdateService_hostname:
  assumes "svc_waypoint svc = Some g" and "gw_address g = None"
    and "wpc_inv w" and "links_live w"
  defines "rn \<equiv> Service_ResourceName svc" and "wp \<equiv> waypoint_resource_name g"
  shows "\<exists>ret svc1 w' ob. wp_AddOrUpdateService sc w svc = Some ((ret, svc1), w') \<and>
           wpc_inv w' \<and> links_live w' \<and> waypointAssociatedObjects w' wp = Some ob \<and>
           map_of (wo_services ob) rn = Some svc1 \<and> serviceToWaypoint w' rn = Some wp \<and>
           (if ret then \<exists>a. wo_address ob = Some a \<and> updateServiceWaypoint a svc = Some svc1
            else wo_address ob = None \<and> svc1 = svc)"
proof -
  obtain w1 where w1: "(case serviceToWaypoint w rn of
       Some waypoint \<Rightarrow> if waypoint \<noteq> wp then unlink_service rn waypoint w else Some w
     | None \<Rightarrow> Some w) = Some w1"
    and i1: "wpc_inv w1" "links_live w1" "only_under rn wp w1"
  proof (cases "\<exists>wp'. serviceToWaypoint w rn = Some wp' \<and> wp' \<noteq> wp")
    case True
    then obtain wp' where wp': "serviceToWaypoint w rn = Some wp'" "wp' \<noteq> wp" by blast
    from unlink_service_inv [OF assms(3,4) wp'(1)] wp' that show ?thesis
      by (auto simp: only_under_def)
  next
    case False
    then have "only_under rn wp w"
      using wpc_invD(1) [OF assms(3)] by (fastforce simp: only_under_def)
    with False that [of w] assms(3,4) show ?thesis by (auto split: option.split)
  qed
  obtain ret svc1 w2 ob where r: "resolve_service sc wp svc w1 = Some ((ret, svc1), w2)"
    "wpc_inv w2" "links_live w2" "only_under rn wp w2" "waypointAssociatedObjects w2 wp = Some ob"
    "svc_waypoint svc1 \<noteq> None" "Service_ResourceName svc1 = rn"
    "if ret then \<exists>a. wo_address ob = Some a \<and> updateServiceWaypoint a svc = Some svc1
     else wo_address ob = None \<and> svc1 = svc"
    using resolve_service_spec [OF i1(1,2) _ i1(3), of svc sc] assms(1) rn_def by auto
  note l = link_service_inv [OF r(2,3,5,4,6,7)]
  show ?thesis
    using assms(1,2) r(8) l(2,3) by (auto simp: wp_AddOrUpdateService_def waypoint_address_def Let_def
        rn_def [symmetric] wp_def [symmetric] w1 r(1) l(1) addService_def)
qed

subsection \<open>Refreshing\<close>

lemma update_all_Some:
  assumes "\<forall>(k, x) \<in> set xs. f x \<noteq> None"
  shows "\<exists>ys. update_all f xs = Some ys \<and> map fst ys = map fst xs \<and>
           map (Some \<circ> snd) ys = map (f \<circ> snd) xs"
  using assms by (induction f xs rule: update_all.induct) force+

lemma update_all_mem:
  assumes "update_all f xs = Some ys" and "(k, y) \<in> set ys"
  shows "\<exists>x. (k, x) \<in> set xs \<and> f x = Some y"
  using assms
  by (induction f xs arbitrary: ys rule: update_all.induct) (fastforce split: bind_splits)+

lemma update_all_fst: "update_all f xs = Some ys \<Longrightarrow> map fst ys = map fst xs"
  by (induction f xs arbitrary: ys rule: update_all.induct) (auto split: bind_splits)

lemma update_total:
  assumes "wpc_inv w" and "waypointAssociatedObjects w wp = Some ob"
  shows "\<exists>svcs wls. update_all (updateServiceWaypoint a) (wo_services ob) = Some svcs \<and>
           update_all (updateWorkloadWaypoint a) (wo_workloads ob) = Some wls"
  using wpc_invD(1,2) [OF assms]
    update_all_Some [of "wo_services ob" "updateServiceWaypoint a"]
    update_all_Some [of "wo_workloads ob" "updateWorkloadWaypoint a"]
  by (fastforce simp: updateServiceWaypoint_def updateWorkloadWaypoint_def)

lemma updateServiceWaypoint_keeps:
  "updateServiceWaypoint a x = Some y \<Longrightarrow>
     svc_waypoint y \<noteq> None \<and> Service_ResourceName y = Service_ResourceName x"
  by (auto simp: updateServiceWaypoint_def Service_ResourceName_def split: option.splits)

lemma updateWorkloadWaypoint_keeps:
  "updateWorkloadWaypoint a x = Some y \<Longrightarrow>
     wl_waypoint y \<noteq> None \<and> wl_uid y = wl_uid x \<and> waypoint_address (wl_waypoint y) = Some a"
  by (auto simp: updateWorkloadWaypoint_def waypoint_address_def gw_address_def split: option.splits)

lemma Refresh_update:
  assumes "wpc_inv w" and "svc_addresses ws = a # as"
    and "waypointAssociatedObjects w (Service_ResourceName ws) = Some ob" and "wo_address ob \<noteq> Some a"
  shows "\<exists>svcs wls. Refresh w ws = Some ((map snd svcs, map snd wls), w\<lparr>waypointAssociatedObjects :=
            (waypointAssociatedObjects w)(Service_ResourceName ws \<mapsto>
              \<lparr>wo_address = Some a, wo_services = svcs, wo_workloads = wls\<rparr>)\<rparr>) \<and>
          update_all (updateServiceWaypoint a) (wo_services ob) = Some svcs \<and>
          update_all (updateWorkloadWaypoint a) (wo_workloads ob) = Some wls"
  using update_total [OF assms(1,3), of a] assms(2-4)
  by (auto simp: Refresh_def update_def)

lemma Refresh_returns:
  assumes "Refresh w ws = Some ((svcs, wls), w')" and "x \<in> set svcs"
  shows "\<exists>a as ob. svc_addresses ws = a # as \<and>
           waypointAssociatedObjects w (Service_ResourceName ws) = Some ob \<and> wo_address ob \<noteq> Some a"
proof (rule ccontr)
  assume "\<not> ?thesis"
  then have "Refresh w ws = Some (([], []), w)"
    by (auto simp: Refresh_def Let_def split: list.splits option.splits)
  with assms show False by simp
qed

lemma update_inv:
  assumes "wpc_inv w" and "waypointAssociatedObjects w n = Some ob"
    and "update_all (updateServiceWaypoint a) (wo_services ob) = Some svcs"
    and "update_all (updateWorkloadWaypoint a) (wo_workloads ob) = Some wls"
  shows "wpc_inv (w\<lparr>waypointAssociatedObjects := (waypointAssociatedObjects w)(n \<mapsto>
              \<lparr>wo_address = Some a, wo_services = svcs, wo_workloads = wls\<rparr>)\<rparr>)"
  unfolding wpc_inv_def
proof (intro allI impI)
  let ?w = "w\<lparr>waypointAssociatedObjects := (waypointAssociatedObjects w)(n \<mapsto>
              \<lparr>wo_address = Some a, wo_services = svcs, wo_workloads = wls\<rparr>)\<rparr>"
  fix wp' ob'
  assume b: "waypointAssociatedObjects ?w wp' = Some ob'"
  show "(\<forall>(k, x) \<in> set (wo_services ob'). serviceToWaypoint ?w k = Some wp' \<and> svc_waypoint x \<noteq> None \<and> Service_ResourceName x = k) \<and>
        (\<forall>(k, x) \<in> set (wo_workloads ob'). workloadToWaypoint ?w k = Some wp' \<and> wl_waypoint x \<noteq> None \<and> wl_uid x = k) \<and>
        distinct (map fst (wo_services ob')) \<and> distinct (map fst (wo_workloads ob'))"
  proof (cases "wp' = n")
    case True
    then have ob': "ob' = \<lparr>wo_address = Some a, wo_services = svcs, wo_workloads = wls\<rparr>"
      using b by simp
    note D = wpc_invD [OF assms(1,2)]
    have "serviceToWaypoint w k = Some n \<and> svc_waypoint y \<noteq> None \<and> Service_ResourceName y = k"
      if "(k, y) \<in> set svcs" for k y
      using update_all_mem [OF assms(3) that] D(1) updateServiceWaypoint_keeps by metis
    moreover have "workloadToWaypoint w k = Some n \<and> wl_waypoint y \<noteq> None \<and> wl_uid y = k"
      if "(k, y) \<in> set wls" for k y
      using update_all_mem [OF assms(4) that] D(2) updateWorkloadWaypoint_keeps by metis
    ultimately show ?thesis
      using D(3,4) update_all_fst [OF assms(3)] update_all_fst [OF assms(4)] True ob' by auto
  next
    case False
    with b show ?thesis using wpc_invD [OF assms(1), of wp' ob'] by fastforce
  qed
qed

subsection \<open>Properties\<close>


definition sample_service :: "string \<Rightarrow> GatewayAddress option \<Rightarrow> bytes \<Rightarrow> Service" where
  "sample_service name wp ip = \<lparr>svc_obj = 0, svc_name = name, svc_namespace = ''ns'',
     svc_hostname = name, svc_addresses = [\<lparr>na_network = '''', na_address = ip\<rparr>],
     svc_ports = [], svc_waypoint = wp, svc_load_balancing = None\<rparr>"

definition sample_waypoint :: GatewayAddress where
  "sample_waypoint = \<lparr>gw_destination = Some (DestHostname ''ns'' ''wp''), gw_hbone_mtls_port = 15008\<rparr>"


text \<open>
  Deleting a waypoint service leaves the links of its services dangling: if a service was
  linked to the waypoint, then after the waypoint service is removed an update of that service
  that drops its waypoint (or gives it by address) dereferences a nil entry and panics.
\<close>

theorem waypoint_deleted_then_update_panics:
  assumes "serviceToWaypoint w (Service_ResourceName svc) = Some wp"
    and "wp \<noteq> Service_ResourceName svc"
    and "serviceToWaypoint w wp = None"
    and "svc_waypoint svc = None \<or> waypoint_address (svc_waypoint svc) \<noteq> None"
  shows "wp_AddOrUpdateService sc (wp_DeleteService w wp) svc = None"
  using assms
  by (simp add: wp_AddOrUpdateService_clear wp_DeleteService_def unlink_service_def on_associated_def)

theorem waypoint_deleted_then_update_panics_witness:
  "case wp_AddOrUpdateService NewServiceCache NewWaypointCache
          (sample_service ''a'' (Some sample_waypoint) [10, 0, 0, 1]) of
     Some (_, w) \<Rightarrow> wp_AddOrUpdateService NewServiceCache (wp_DeleteService w ''ns/wp'')
          (sample_service ''a'' None [10, 0, 0, 1]) = None
   | None \<Rightarrow> False"
proof -
  obtain svc' w where f: "wp_AddOrUpdateService NewServiceCache NewWaypointCache
      (sample_service ''a'' (Some sample_waypoint) [10, 0, 0, 1]) = Some ((False, svc'), w)"
    and l: "serviceToWaypoint w = [''ns/a'' \<mapsto> ''ns/wp'']"
    by (simp add: wp_AddOrUpdateService_def sample_service_def sample_waypoint_def
        waypoint_address_def gw_address_def gw_hostname_def NewWaypointCache_def resolve_service_def
        waypoint_service_addr_def waypoint_resource_name_def GetService_def NewServiceCache_def
        on_associated_def Service_ResourceName_def Let_def)
  show ?thesis unfolding f
    using waypoint_deleted_then_update_panics [of w "sample_service ''a'' None [10, 0, 0, 1]" "''ns/wp''"] l
    by (simp add: sample_service_def Service_ResourceName_def)
qed

text \<open>
  Refreshing a waypoint service whose address is new returns, and hands back exactly the
  objects that wait for it, each now carrying that address; the waypoint is resolved
  afterwards, the cache stays consistent, and a second refresh has nothing left to do.
\<close>

theorem Refresh_resolves:
  assumes "wpc_inv w" and "svc_addresses ws = a # as"
    and "waypointAssociatedObjects w (Service_ResourceName ws) = Some ob" and "wo_address ob \<noteq> Some a"
  shows "\<exists>svcs wls w'. Refresh w ws = Some ((svcs, wls), w') \<and> wpc_inv w' \<and>
           map Service_ResourceName svcs = map fst (wo_services ob) \<and>
           map wl_uid wls = map fst (wo_workloads ob) \<and>
           (\<forall>s \<in> set svcs. waypoint_address (svc_waypoint s) = Some a) \<and>
           (\<forall>x \<in> set wls. waypoint_address (wl_waypoint x) = Some a) \<and>
           Refresh w' ws = Some (([], []), w')"
proof -
  obtain svcs wls where r: "Refresh w ws = Some ((map snd svcs, map snd wls), w\<lparr>waypointAssociatedObjects :=
            (waypointAssociatedObjects w)(Service_ResourceName ws \<mapsto>
              \<lparr>wo_address = Some a, wo_services = svcs, wo_workloads = wls\<rparr>)\<rparr>)"
    and s: "update_all (updateServiceWaypoint a) (wo_services ob) = Some svcs"
    and l: "update_all (updateWorkloadWaypoint a) (wo_workloads ob) = Some wls"
    using Refresh_update [OF assms] by blast
  let ?w = "w\<lparr>waypointAssociatedObjects := (waypointAssociatedObjects w)(Service_ResourceName ws \<mapsto>
              \<lparr>wo_address = Some a, wo_services = svcs, wo_workloads = wls\<rparr>)\<rparr>"
  have i: "wpc_inv ?w" by (rule update_inv [OF assms(1,3) s l])
  have ob: "waypointAssociatedObjects ?w (Service_ResourceName ws) =
      Some \<lparr>wo_address = Some a, wo_services = svcs, wo_workloads = wls\<rparr>" by simp
  have "map Service_ResourceName (map snd svcs) = map fst svcs"
    using wpc_invD(1) [OF i ob] by auto
  moreover have "map wl_uid (map snd wls) = map fst wls"
    using wpc_invD(2) [OF i ob] by auto
  moreover have "\<forall>s \<in> set (map snd svcs). waypoint_address (svc_waypoint s) = Some a"
    using update_all_mem [OF s] updateServiceWaypoint_address by fastforce
  moreover have "\<forall>x \<in> set (map snd wls). waypoint_address (wl_waypoint x) = Some a"
    using update_all_mem [OF l] updateWorkloadWaypoint_keeps by fastforce
  moreover have "Refresh ?w ws = Some (([], []), ?w)"
    using assms(2) by (simp add: Refresh_def)
  ultimately show ?thesis
    using r i update_all_fst [OF s] update_all_fst [OF l] by auto
qed

text \<open>A cache in which service \<open>ns/a\<close> waits for the waypoint \<open>ns/wp\<close>.\<close>

definition waiting_cache :: waypoint_cache where
  "waiting_cache = \<lparr>waypointAssociatedObjects =
       [''ns/wp'' \<mapsto> \<lparr>wo_address = None,
          wo_services = [(''ns/a'', sample_service ''a'' (Some sample_waypoint) [10, 0, 0, 1])],
          wo_workloads = []\<rparr>],
     serviceToWaypoint = [''ns/a'' \<mapsto> ''ns/wp''], workloadToWaypoint = Map.empty\<rparr>"

lemma waiting_cache_inv: "wpc_inv waiting_cache" "links_live waiting_cache"
  by (auto simp: wpc_inv_def links_live_def waiting_cache_def sample_service_def
      Service_ResourceName_def split: if_splits)

lemma waiting_cache_lookup:
  "waypointAssociatedObjects waiting_cache (Service_ResourceName (sample_service ''wp'' None ip)) =
     Some \<lparr>wo_address = None,
       wo_services = [(''ns/a'', sample_service ''a'' (Some sample_waypoint) [10, 0, 0, 1])],
       wo_workloads = []\<rparr>"
  by (simp add: waiting_cache_def sample_service_def Service_ResourceName_def)

theorem Refresh_resolves_witness:
  "\<exists>svcs wls w'. Refresh waiting_cache (sample_service ''wp'' None [10, 0, 0, 9]) = Some ((svcs, wls), w') \<and>
     map Service_ResourceName svcs = [''ns/a''] \<and>
     Refresh w' (sample_service ''wp'' None [10, 0, 0, 9]) = Some (([], []), w')"
proof -
  have "svc_addresses (sample_service ''wp'' None [10, 0, 0, 9]) =
      \<lparr>na_network = '''', na_address = [10, 0, 0, 9]\<rparr> # []" by (simp add: sample_service_def)
  from Refresh_resolves [OF waiting_cache_inv(1) this waiting_cache_lookup] show ?thesis by auto
qed

text \<open>
  A service whose waypoint was resolved by a refresh is forgotten.  The processor handles
  the returned service again, the waypoint cache now sees a waypoint given by address and drops
  the association, so no later refresh of the waypoint service, whatever its new address,
  returns that service: its waypoint address is never updated again.
\<close>

theorem refreshed_service_is_forgotten:
  assumes "wpc_inv w" and "links_live w"
    and "svc_addresses ws = a # as"
    and "waypointAssociatedObjects w (Service_ResourceName ws) = Some ob" and "wo_address ob \<noteq> Some a"
    and "Refresh w ws = Some ((svcs, wls), w1)" and "svc \<in> set svcs"
    and "wp_AddOrUpdateService sc w1 svc = Some (r, w2)"
    and "Refresh w2 ws' = Some ((svcs', wls'), w3)"
  shows "fst r \<and> (\<forall>s \<in> set svcs'. Service_ResourceName s \<noteq> Service_ResourceName svc)"
proof -
  obtain S L where r: "Refresh w ws = Some ((map snd S, map snd L), w\<lparr>waypointAssociatedObjects :=
            (waypointAssociatedObjects w)(Service_ResourceName ws \<mapsto>
              \<lparr>wo_address = Some a, wo_services = S, wo_workloads = L\<rparr>)\<rparr>)"
    and s: "update_all (updateServiceWaypoint a) (wo_services ob) = Some S"
    and l: "update_all (updateWorkloadWaypoint a) (wo_workloads ob) = Some L"
    using Refresh_update [OF assms(1,3,4,5)] by blast
  have w1: "w1 = w\<lparr>waypointAssociatedObjects := (waypointAssociatedObjects w)(Service_ResourceName ws \<mapsto>
              \<lparr>wo_address = Some a, wo_services = S, wo_workloads = L\<rparr>)\<rparr>"
    and svcs: "svcs = map snd S" using r assms(6) by auto
  have i1: "wpc_inv w1" unfolding w1 by (rule update_inv [OF assms(1,4) s l])
  have l1: "links_live w1" using assms(2) by (auto simp: w1 links_live_def)
  obtain k where k: "(k, svc) \<in> set S" using assms(7) svcs by auto
  have ob1: "waypointAssociatedObjects w1 (Service_ResourceName ws) =
      Some \<lparr>wo_address = Some a, wo_services = S, wo_workloads = L\<rparr>" by (simp add: w1)
  have link: "serviceToWaypoint w1 (Service_ResourceName svc) = Some (Service_ResourceName ws)"
    using wpc_invD(1) [OF i1 ob1, of k svc] k by auto
  have addr: "waypoint_address (svc_waypoint svc) \<noteq> None"
    using update_all_mem [OF s k] updateServiceWaypoint_address by fastforce
  obtain w2' where u: "unlink_service (Service_ResourceName svc) (Service_ResourceName ws) w1 = Some w2'"
    "wpc_inv w2'"
    "\<forall>wp' ob. waypointAssociatedObjects w2' wp' = Some ob \<longrightarrow>
       Service_ResourceName svc \<notin> fst ` set (wo_services ob)"
    using unlink_service_inv [OF i1 l1 link] by blast
  have w2: "w2 = w2'" "fst r"
    using assms(8) wp_AddOrUpdateService_clear [OF disjI2 [OF addr], of sc w1] link u(1) by auto
  have "Service_ResourceName x \<noteq> Service_ResourceName svc" if x: "x \<in> set svcs'" for x
  proof (rule ccontr)
    assume "\<not> Service_ResourceName x \<noteq> Service_ResourceName svc"
    obtain b bs ob2 where b: "svc_addresses ws' = b # bs"
      "waypointAssociatedObjects w2 (Service_ResourceName ws') = Some ob2" "wo_address ob2 \<noteq> Some b"
      using Refresh_returns [OF assms(9) x] by blast

    obtain S2 L2 where "svcs' = map snd S2"
      "update_all (updateServiceWaypoint b) (wo_services ob2) = Some S2"
      using Refresh_update [OF u(2) b(1) b(2) [unfolded w2] b(3)] assms(9) w2 by auto
    with x obtain k' y where y: "(k', y) \<in> set (wo_services ob2)" "updateServiceWaypoint b y = Some x"
      using update_all_mem by fastforce
    then have "k' = Service_ResourceName svc"
      using wpc_invD(1) [OF u(2) b(2) [unfolded w2]] updateServiceWaypoint_keeps
        \<open>\<not> Service_ResourceName x \<noteq> Service_ResourceName svc\<close> by auto
    with y(1) u(3) b(2) w2 show False by force
  qed
  with w2 show ?thesis by blast
qed

text \<open>The run of the claim on the waiting cache: refresh, handle again, refresh at a new address.\<close>

definition forgotten_run :: "((Service list \<times> waypoint_cache) \<times> (bool \<times> Service) \<times> waypoint_cache \<times>
    (Service list \<times> Workload list)) option" where
  "forgotten_run = do {
     ((svcs, wls), w1) \<leftarrow> Refresh waiting_cache (sample_service ''wp'' None [10, 0, 0, 9]);
     (r, w2) \<leftarrow> wp_AddOrUpdateService NewServiceCache w1 (hd svcs);
     (res, w3) \<leftarrow> Refresh w2 (sample_service ''wp'' None [10, 0, 0, 10]);
     Some ((svcs, w1), r, w2, res) }"

lemma forgotten_run_returns: "\<exists>svc w1 r w2 svcs' wls'.
    forgotten_run = Some (([svc], w1), r, w2, (svcs', wls')) \<and> Service_ResourceName svc = ''ns/a''"
  by (auto simp add: forgotten_run_def Refresh_def waiting_cache_def sample_service_def sample_waypoint_def
      Service_ResourceName_def update_def updateServiceWaypoint_def wp_AddOrUpdateService_def
      waypoint_address_def gw_address_def unlink_service_def on_associated_def deleteService_def Let_def)

theorem refreshed_service_is_forgotten_witness:
  "\<exists>svc w1 r w2 svcs' wls'. forgotten_run = Some (([svc], w1), r, w2, (svcs', wls')) \<and>
     Service_ResourceName svc = ''ns/a'' \<and> fst r \<and>
     (\<forall>s \<in> set svcs'. Service_ResourceName s \<noteq> ''ns/a'')"
proof -
  obtain svc w1 r w2 svcs' wls' where f: "forgotten_run = Some (([svc], w1), r, w2, (svcs', wls'))"
    and n: "Service_ResourceName svc = ''ns/a''" using forgotten_run_returns by blast
  obtain wls w3 where run: "Refresh waiting_cache (sample_service ''wp'' None [10, 0, 0, 9]) = Some (([svc], wls), w1)"
    "wp_AddOrUpdateService NewServiceCache w1 svc = Some (r, w2)"
    "Refresh w2 (sample_service ''wp'' None [10, 0, 0, 10]) = Some ((svcs', wls'), w3)"
    using f by (auto simp: forgotten_run_def split: bind_splits)
  have a: "svc_addresses (sample_service ''wp'' None [10, 0, 0, 9]) =
      \<lparr>na_network = '''', na_address = [10, 0, 0, 9]\<rparr> # []" by (simp add: sample_service_def)
  have "fst r \<and> (\<forall>s \<in> set svcs'. Service_ResourceName s \<noteq> Service_ResourceName svc)"
    by (rule refreshed_service_is_forgotten [OF waiting_cache_inv a waiting_cache_lookup _ run(1) _ run(2,3)])
      simp_all
  then show ?thesis unfolding n using f n by blast
qed

subsection \<open>Workloads\<close>

lemma links_live_unlink_workload:
  assumes "links_live w" and "workloadToWaypoint w uid = Some wp"
  shows "\<exists>w1. unlink_workload uid wp w = Some w1 \<and> links_live w1"
proof -
  obtain ob where ob: "waypointAssociatedObjects w wp = Some ob" using links_liveD(2) [OF assms] by blast
  let ?w = "w\<lparr>workloadToWaypoint := (workloadToWaypoint w)(uid := None),
      waypointAssociatedObjects := (waypointAssociatedObjects w)(wp \<mapsto> deleteWorkload uid ob)\<rparr>"
  have "unlink_workload uid wp w = Some ?w" using ob by (simp add: unlink_workload_def on_associated_def)
  moreover have "ran ((workloadToWaypoint w)(uid := None)) \<subseteq> ran (workloadToWaypoint w)"
    by (auto simp: ran_def split: if_splits)
  then have "links_live ?w" using assms(1) by (auto simp: links_live_def)
  ultimately show ?thesis by blast
qed

lemma resolve_workload_total:
  assumes "wl_waypoint wl \<noteq> None" and "links_live w"
  shows "\<exists>ret wl' w'. resolve_workload sc name wl w = Some ((ret, wl'), w') \<and>
           (\<exists>wp. wl' = wl\<lparr>wl_waypoint := wp\<rparr>) \<and> links_live w' \<and>
           waypointAssociatedObjects w' name \<noteq> None"
proof -
  have u: "\<exists>wl'. updateWorkloadWaypoint a wl = Some wl' \<and> (\<exists>wp. wl' = wl\<lparr>wl_waypoint := wp\<rparr>)" for a
    using assms(1) by (auto simp: updateWorkloadWaypoint_def)
  have same: "\<exists>wp. wl = wl\<lparr>wl_waypoint := wp\<rparr>" by (rule exI [of _ "wl_waypoint wl"]) simp
  obtain w1 addr where w1: "links_live w1" "waypointAssociatedObjects w1 name \<noteq> None"
    "resolve_workload sc name wl w = (case addr of None \<Rightarrow> Some ((False, wl), w1)
       | Some a \<Rightarrow> do { wl1 \<leftarrow> updateWorkloadWaypoint a wl; Some ((True, wl1), w1) })"
  proof (cases "waypointAssociatedObjects w name")
    case (Some ob)
    show ?thesis
    proof (rule that [of w "wo_address ob"])
      show "resolve_workload sc name wl w = (case wo_address ob of None \<Rightarrow> Some ((False, wl), w)
       | Some a \<Rightarrow> do { wl1 \<leftarrow> updateWorkloadWaypoint a wl; Some ((True, wl1), w) })"
        using Some by (simp add: resolve_workload_def isResolved_def split: option.split)
    qed (use Some assms(2) in simp_all)
  next
    case None
    let ?a = "waypoint_service_addr sc name"
    let ?w = "w\<lparr>waypointAssociatedObjects := (waypointAssociatedObjects w)(name \<mapsto> newAssociatedObjects ?a)\<rparr>"
    show ?thesis
    proof (rule that [of ?w ?a])
      show "links_live ?w" using assms(2) by (auto simp: links_live_def)
    qed (use None in \<open>simp_all add: resolve_workload_def Let_def\<close>)
  qed
  show ?thesis
  proof (cases addr)
    case None
    then have "resolve_workload sc name wl w = Some ((False, wl), w1)" using w1(3) by simp
    then show ?thesis using w1(1,2) same by blast
  next
    case (Some a)
    obtain wl' where wl': "updateWorkloadWaypoint a wl = Some wl'" "\<exists>wp. wl' = wl\<lparr>wl_waypoint := wp\<rparr>"
      using u [of a] by blast
    then have "resolve_workload sc name wl w = Some ((True, wl'), w1)" using w1(3) Some by simp
    then show ?thesis using w1(1,2) wl'(2) by blast
  qed
qed

lemma wp_AddOrUpdateWorkload_total:
  assumes "links_live w"
  shows "\<exists>ret wl' w'. wp_AddOrUpdateWorkload sc w wl = Some ((ret, wl'), w') \<and>
           (\<exists>wp. wl' = wl\<lparr>wl_waypoint := wp\<rparr>) \<and> links_live w'"
proof (cases "wl_waypoint wl = None \<or> waypoint_address (wl_waypoint wl) \<noteq> None")
  case True
  have same: "\<exists>wp. wl = wl\<lparr>wl_waypoint := wp\<rparr>" by (rule exI [of _ "wl_waypoint wl"]) simp
  show ?thesis
  proof (cases "workloadToWaypoint w (wl_uid wl)")
    case None
    then have "wp_AddOrUpdateWorkload sc w wl = Some ((True, wl), w)" using True by (simp add: wp_AddOrUpdateWorkload_def)
    then show ?thesis using assms same by blast
  next
    case (Some wp)
    obtain w1 where "unlink_workload (wl_uid wl) wp w = Some w1" "links_live w1"
      using links_live_unlink_workload [OF assms Some] by blast
    moreover from this have "wp_AddOrUpdateWorkload sc w wl = Some ((True, wl), w1)"
      using True Some by (simp add: wp_AddOrUpdateWorkload_def)
    ultimately show ?thesis using same by blast
  qed
next
  case False
  then have wp: "wl_waypoint wl \<noteq> None" by simp
  let ?n = "waypoint_resource_name (the (wl_waypoint wl))"
  obtain w1 where w1: "(case workloadToWaypoint w (wl_uid wl) of
      Some waypoint \<Rightarrow> if waypoint \<noteq> ?n then unlink_workload (wl_uid wl) waypoint w else Some w
    | None \<Rightarrow> Some w) = Some w1" "links_live w1"
  proof (cases "workloadToWaypoint w (wl_uid wl)")
    case (Some wp)
    then show ?thesis
      using that assms links_live_unlink_workload [OF assms Some] by (cases "wp = ?n") auto
  qed (use that assms in simp)
  obtain ret wl' w2 where w2: "resolve_workload sc ?n wl w1 = Some ((ret, wl'), w2)"
    "(\<exists>wp. wl' = wl\<lparr>wl_waypoint := wp\<rparr>)" "links_live w2" "waypointAssociatedObjects w2 ?n \<noteq> None"
    using resolve_workload_total [OF wp w1(2), of sc ?n] by blast
  obtain ob where ob: "waypointAssociatedObjects w2 ?n = Some ob" using w2(4) by blast
  let ?w = "w2\<lparr>workloadToWaypoint := (workloadToWaypoint w2)(wl_uid wl \<mapsto> ?n),
      waypointAssociatedObjects := (waypointAssociatedObjects w2)(?n \<mapsto> addWorkload (wl_uid wl) wl' ob)\<rparr>"
  have "wp_AddOrUpdateWorkload sc w wl = Some ((ret, wl'), ?w)"
    unfolding wp_AddOrUpdateWorkload_def Let_def if_not_P [OF False] using w1(1) w2(1) ob
    by (simp add: on_associated_def)
  moreover have "links_live ?w" using w2(3) by (auto simp: links_live_def ran_def split: if_splits)
  ultimately show ?thesis using w2(2) by blast
qed

end
