(* ===== verification/Endpoint_Table.thy ===== *)
theory Endpoint_Table
  imports Bpf_Cache Endpoint_Cache Endpoint_Groups Locality_Lb Waypoint_Cache
    "HOL-Library.Product_Lexorder"
begin

text \<open>
  The state of the workload processor and the part of \<open>workload_processor.go\<close> that keeps the
  endpoint tables: \<open>addWorkloadToService\<close>, \<open>deleteEndpoint\<close>, \<open>deleteEndpointRecords\<close>.

  The environment \<open>env\<close> holds what the processor calls and does not own: the kernel, the yaml
  library and the outcome of writes to the persist file, the replies of the resolver goroutine
  and how the process was started.  Calls that only inform another component (metrics, the
  resolver's delete callback) are recorded in \<open>events\<close>.

  The proofs view the endpoint map as the groups of \<open>Endpoint_Groups\<close>; \<open>table_ok\<close> is the
  invariant that makes the view exact, and \<open>no_gap\<close> the half of it that the bpf programs rely
  on, which holds after every single write even when the kernel refuses some of them.
\<close>

record 'm env =
  kern :: "'m kernel"
  codec :: yaml_codec
  disk :: "hash_name \<Rightarrow> bool"
  dns :: "(Workload \<Rightarrow> Workload option) option"
  restarted :: bool

datatype proc_event = WorkloadMetricDeleted string | ServiceMetricDeleted string | WorkloadDeleted string

record 'm Processor =
  hashName :: hash_name
  bpf :: "'m cache"
  nodeName :: string
  WorkloadCache :: workload_cache
  ServiceCache :: service_cache
  EndpointCache :: endpoint_cache
  WaypointCache :: waypoint_cache
  locality :: LocalityCache
  once_done :: bool
  onWorkloadDeleted :: bool
  events :: "proc_event list"

text \<open>Calls of the processor's parts: hash a name, run an operation of the bpf cache.\<close>

definition p_Hash :: "'m env \<Rightarrow> string \<Rightarrow> 'm Processor \<Rightarrow> u32 \<times> 'm Processor" where
  "p_Hash E str p = (let (num, h) = Hash (disk E (hashName p)) (hashName p) str in (num, p\<lparr>hashName := h\<rparr>))"

definition p_HashDelete :: "'m env \<Rightarrow> string \<Rightarrow> 'm Processor \<Rightarrow> 'm Processor" where
  "p_HashDelete E str p = p\<lparr>hashName := Delete (codec E) (disk E (hashName p)) (hashName p) str\<rparr>"

definition on_bpf :: "('m cache \<Rightarrow> 'r \<times> 'm cache) \<Rightarrow> 'm Processor \<Rightarrow> 'r \<times> 'm Processor" where
  "on_bpf f p = (let (r, c) = f (bpf p) in (r, p\<lparr>bpf := c\<rparr>))"

subsection \<open>Operations\<close>

definition addWorkloadToService :: "'m env \<Rightarrow> u32 \<Rightarrow> ServiceValue \<Rightarrow> u32 \<Rightarrow> u32 \<Rightarrow> 'm Processor \<Rightarrow>
    ((EndpointKey \<times> go_err option) \<times> 'm Processor) option" where
  "addWorkloadToService E sk sv workloadUid priority p = do {
     n \<leftarrow> arr_get (EndpointCount sv) (unat priority);
     counts \<leftarrow> arr_set (EndpointCount sv) (unat priority) (n + 1);
     let ek = EndpointKey sk priority (n + 1);
     (case on_bpf (EndpointUpdate (kern E) ek workloadUid) p of
        (Some err, p1) \<Rightarrow> Some ((ek, Some err), p1)
      | (None, p1) \<Rightarrow>
          (let p2 = p1\<lparr>EndpointCache :=
                  AddEndpointToService (Endpoint sk priority (n + 1)) workloadUid (EndpointCache p1)\<rparr>;
               (e, p3) = on_bpf (ServiceUpdate (kern E) sk (sv\<lparr>EndpointCount := counts\<rparr>)) p2
           in Some ((ek, e), p3))) }"

definition deleteEndpoint :: "'m env \<Rightarrow> EndpointKey \<Rightarrow> u32 \<Rightarrow> ServiceValue \<Rightarrow> u32 \<Rightarrow> 'm Processor \<Rightarrow>
    (go_err option \<times> 'm Processor) option" where
  "deleteEndpoint E ek ev sv sk p = do {
     n \<leftarrow> arr_get (EndpointCount sv) (unat (ek_Prio ek));
     (e, c) \<leftarrow> EndpointSwap (kern E) (ek_BackendIndex ek) ev n sk (ek_Prio ek) (bpf p);
     let p1 = p\<lparr>bpf := c\<rparr>;
     (case e of
        Some err \<Rightarrow> Some (Some err, p1)
      | None \<Rightarrow> do {
          counts \<leftarrow> arr_set (EndpointCount sv) (unat (ek_Prio ek)) (n - 1);
          (case on_bpf (ServiceUpdate (kern E) sk (sv\<lparr>EndpointCount := counts\<rparr>)) p1 of
             (Some err, p2) \<Rightarrow> Some (Some err, p2)
           | (None, p2) \<Rightarrow>
               Some (on_bpf (EndpointDelete (kern E) (EndpointKey sk (ek_Prio ek) (n - 1 + 1))) p2)) }) }"

text \<open>One round of the loop of \<open>deleteEndpointRecords\<close>; errors are logged and skipped.\<close>

definition delete_record :: "'m env \<Rightarrow> EndpointKey \<Rightarrow> 'm Processor \<Rightarrow> 'm Processor option" where
  "delete_record E ek p =
     (let sk = ek_ServiceId ek;
          forget = (\<lambda>ev p. p\<lparr>EndpointCache :=
              DeleteEndpointWithPriority (ek_ServiceId ek) ev (ek_Prio ek) (EndpointCache p)\<rparr>)
      in case ServiceLookup (kern E) sk (bpf p) of
           Inr sv \<Rightarrow>
             (case EndpointLookup (kern E) ek (bpf p) of
                Inl _ \<Rightarrow> Some p
              | Inr ev \<Rightarrow> do {
                  (e, p1) \<leftarrow> deleteEndpoint E ek ev sv sk p;
                  Some (if e = None then forget ev p1 else p1) })
         | Inl _ \<Rightarrow>
             (case EndpointLookup (kern E) ek (bpf p) of
                Inl _ \<Rightarrow> Some p
              | Inr ev \<Rightarrow>
                  (let (e, p1) = on_bpf (EndpointDelete (kern E) ek) p
                   in Some (if e = None then forget ev p1 else p1))))"

text \<open>Descending priority, then descending index.\<close>

definition ek_order :: "EndpointKey \<Rightarrow> int \<times> int" where
  "ek_order k = (- uint (ek_Prio k), - uint (ek_BackendIndex k))"

definition deleteEndpointRecords :: "'m env \<Rightarrow> EndpointKey list \<Rightarrow> 'm Processor \<Rightarrow>
    (go_err option \<times> 'm Processor) option" where
  "deleteEndpointRecords E eks p = do {
     p1 \<leftarrow> for_each (delete_record E) (sort_key ek_order eks) p;
     Some (None, p1) }"

subsection \<open>Endpoint groups of a view\<close>

definition groups :: "kview \<Rightarrow> u32 \<times> u32 \<Rightarrow> u32 list" where
  "groups v = (\<lambda>(s, p). case v_service v s of
      None \<Rightarrow> []
    | Some sv \<Rightarrow> if unat p < PrioCount
        then map (\<lambda>n. the (v_endpoint v (EndpointKey s p (word_of_nat (Suc n)))))
                 [0..<unat (EndpointCount sv ! unat p)]
        else [])"

text \<open>The endpoint map holds exactly the indices 1 to the count of each group.\<close>

definition table_ok :: "kview \<Rightarrow> bool" where
  "table_ok v \<longleftrightarrow>
     (\<forall>s sv. v_service v s = Some sv \<longrightarrow> length (EndpointCount sv) = PrioCount) \<and>
     (\<forall>s p i. v_endpoint v (EndpointKey s p i) \<noteq> None \<longleftrightarrow>
        (\<exists>sv. v_service v s = Some sv \<and> unat p < PrioCount \<and> 0 < i \<and> i \<le> EndpointCount sv ! unat p))"

text \<open>Every index a bpf program can draw leads to an endpoint.\<close>

definition no_gap :: "kview \<Rightarrow> bool" where
  "no_gap v \<longleftrightarrow> (\<forall>s sv p i. v_service v s = Some sv \<longrightarrow> length (EndpointCount sv) = PrioCount \<and>
     (unat p < PrioCount \<longrightarrow> 0 < i \<longrightarrow> i \<le> EndpointCount sv ! unat p \<longrightarrow>
       v_endpoint v (EndpointKey s p i) \<noteq> None))"

lemma table_ok_no_gap: "table_ok v \<Longrightarrow> no_gap v"
  unfolding table_ok_def no_gap_def by blast

lemma table_okD:
  assumes "table_ok v" and "v_endpoint v (EndpointKey s p i) = Some uid"
  shows "\<exists>sv. v_service v s = Some sv \<and> length (EndpointCount sv) = PrioCount \<and> unat p < PrioCount \<and>
           0 < i \<and> i \<le> EndpointCount sv ! unat p"
proof -
  have "v_endpoint v (EndpointKey s p i) \<noteq> None" using assms(2) by simp
  with assms(1) show ?thesis unfolding table_ok_def by blast
qed

lemma table_ok_slot:
  assumes "table_ok v" and "v_service v s = Some sv" and "unat p < PrioCount" "0 < i" "i \<le> EndpointCount sv ! unat p"
  shows "\<exists>uid. v_endpoint v (EndpointKey s p i) = Some uid"
  using assms unfolding table_ok_def by blast

lemma of_nat_u32_eq_iff: "j < 2 ^ 32 \<Longrightarrow> (word_of_nat j :: u32) = i \<longleftrightarrow> j = unat i"
  by (auto simp: unat_of_nat)

lemma unat_less_u32: "unat (w :: u32) < 2 ^ 32"
  using unsigned_less [of w] by simp

lemma u32_pos_iff: "0 < (i :: u32) \<longleftrightarrow> 0 < unat i"
  by (simp add: word_less_nat_alt)

lemma length_groups:
  "v_service v s = Some sv \<Longrightarrow> unat p < PrioCount \<Longrightarrow> length (groups v (s, p)) = unat (EndpointCount sv ! unat p)"
  by (simp add: groups_def)

lemma nth_groups:
  assumes "v_service v s = Some sv" and "unat p < PrioCount" and "0 < i" and "i \<le> EndpointCount sv ! unat p"
  shows "groups v (s, p) ! (unat i - 1) = the (v_endpoint v (EndpointKey s p i))"
proof -
  have "0 < unat i" "unat i \<le> unat (EndpointCount sv ! unat p)"
    using assms(3,4) by (simp_all add: u32_pos_iff word_le_nat_alt)
  then obtain m where m: "unat i = Suc m" "m < unat (EndpointCount sv ! unat p)"
    by (cases "unat i") auto
  from m(1) have "i = word_of_nat (Suc m)" by (simp flip: m(1) del: of_nat_Suc)
  with m assms(1,2) show ?thesis by (simp add: groups_def del: of_nat_Suc)
qed

text \<open>Adding and deleting an endpoint, as changes of the view.\<close>

definition add_view :: "u32 \<Rightarrow> u32 \<Rightarrow> u32 \<Rightarrow> kview \<Rightarrow> kview" where
  "add_view s p uid v =
     (let sv = the (v_service v s); n = EndpointCount sv ! unat p in
      v\<lparr>v_endpoint := (v_endpoint v)(EndpointKey s p (n + 1) \<mapsto> uid),
        v_service := (v_service v)(s \<mapsto> sv\<lparr>EndpointCount := (EndpointCount sv)[unat p := n + 1]\<rparr>)\<rparr>)"

definition del_view :: "u32 \<Rightarrow> u32 \<Rightarrow> u32 \<Rightarrow> kview \<Rightarrow> kview" where
  "del_view s p i v =
     (let sv = the (v_service v s); n = EndpointCount sv ! unat p in
      v\<lparr>v_endpoint := (v_endpoint v)(EndpointKey s p i := v_endpoint v (EndpointKey s p n), EndpointKey s p n := None),
        v_service := (v_service v)(s \<mapsto> sv\<lparr>EndpointCount := (EndpointCount sv)[unat p := n - 1]\<rparr>)\<rparr>)"

lemma groups_other:
  assumes "v_service v s = Some sv" and "length (EndpointCount sv) = PrioCount" and "(s', p') \<noteq> (s, p)"
    and "\<And>i. v_endpoint v' (EndpointKey s' p' i) = v_endpoint v (EndpointKey s' p' i)"
    and "v_service v' = (v_service v)(s \<mapsto> sv\<lparr>EndpointCount := (EndpointCount sv)[unat p := n]\<rparr>)"
  shows "groups v' (s', p') = groups v (s', p')"
proof (cases "s' = s")
  case True
  then have "unat p \<noteq> unat p'" using assms(3) by (auto simp: word_unat_eq_iff)
  then show ?thesis using assms True by (simp add: groups_def)
next
  case False
  then show ?thesis using assms by (simp add: groups_def split: option.splits)
qed

lemma groups_add_view:
  assumes "v_service v s = Some sv" and "length (EndpointCount sv) = PrioCount"
    and "unat p < PrioCount" and "EndpointCount sv ! unat p \<noteq> max_u32"
  shows "groups (add_view s p uid v) = (groups v)((s, p) := groups v (s, p) @ [uid])"
proof (rule ext)
  let ?n = "EndpointCount sv ! unat p"
  let ?v = "add_view s p uid v"
  fix g :: "u32 \<times> u32"
  have sv: "v_service ?v = (v_service v)(s \<mapsto> sv\<lparr>EndpointCount := (EndpointCount sv)[unat p := ?n + 1]\<rparr>)"
    using assms(1) by (simp add: add_view_def Let_def)
  show "groups ?v g = ((groups v)((s, p) := groups v (s, p) @ [uid])) g"
  proof (cases "g = (s, p)")
    case True
    have n: "unat (?n + 1) = Suc (unat ?n)" using assms(4) by (rule unat_inc)
    have ep: "v_endpoint ?v (EndpointKey s p (word_of_nat (Suc j))) =
        (if j = unat ?n then Some uid else v_endpoint v (EndpointKey s p (word_of_nat (Suc j))))"
      if "j \<le> unat ?n" for j
      using that assms(1) n unat_less_u32 [of "?n + 1"] of_nat_u32_eq_iff [of "Suc j" "?n + 1"]
      by (auto simp: add_view_def Let_def simp del: of_nat_Suc)
    show ?thesis using True assms(1-3) n ep
      by (simp add: groups_def sv del: of_nat_Suc)
  next
    case False
    obtain s' p' where g: "g = (s', p')" by fastforce
    have "groups ?v (s', p') = groups v (s', p')"
      by (rule groups_other [OF assms(1,2) _ _ sv]) (use False g assms(1) in \<open>auto simp: add_view_def Let_def\<close>)
    with False g show ?thesis by auto
  qed
qed

lemma groups_del_view:
  assumes "v_service v s = Some sv" and "length (EndpointCount sv) = PrioCount"
    and "unat p < PrioCount" and "0 < i" and "i \<le> EndpointCount sv ! unat p"
  shows "groups (del_view s p i v) = (groups v)((s, p) := swap_remove (unat i - 1) (groups v (s, p)))"
proof (rule ext)
  let ?n = "EndpointCount sv ! unat p"
  let ?v = "del_view s p i v"
  fix g :: "u32 \<times> u32"
  have sv: "v_service ?v = (v_service v)(s \<mapsto> sv\<lparr>EndpointCount := (EndpointCount sv)[unat p := ?n - 1]\<rparr>)"
    using assms(1) by (simp add: del_view_def Let_def)
  have le: "0 < unat i" "unat i \<le> unat ?n" using assms(4,5) by (simp_all add: u32_pos_iff word_le_nat_alt)
  then have n2: "0 < ?n" by (simp add: u32_pos_iff)
  then have n1: "unat (?n - 1) = unat ?n - 1" by (intro unat_dec) auto
  note n = n1 n2
  show "groups ?v g = ((groups v)((s, p) := swap_remove (unat i - 1) (groups v (s, p)))) g"
  proof (cases "g = (s, p)")
    case True
    have len: "length (groups v (s, p)) = unat ?n" using assms(1,3) by (rule length_groups)
    have last: "last (groups v (s, p)) = the (v_endpoint v (EndpointKey s p ?n))"
      using nth_groups [OF assms(1,3) n(2) order_refl] len le by (subst last_conv_nth) auto
    have "groups ?v (s, p) = swap_remove (unat i - 1) (groups v (s, p))"
    proof (rule nth_equalityI)
      show "length (groups ?v (s, p)) = length (swap_remove (unat i - 1) (groups v (s, p)))"
        using assms(2,3) n len by (simp add: groups_def sv)
      fix j assume "j < length (groups ?v (s, p))"
      then have j: "j < unat ?n - 1" using assms(2,3) n by (simp add: groups_def sv)
      then have j': "j < unat ?n" by simp
      have w: "(word_of_nat (Suc j) :: u32) = i \<longleftrightarrow> j = unat i - 1" "(word_of_nat (Suc j) :: u32) \<noteq> ?n"
        using j unat_less_u32 [of ?n] le of_nat_u32_eq_iff [of "Suc j" i] of_nat_u32_eq_iff [of "Suc j" ?n]
        by (auto simp del: of_nat_Suc)
      have "groups ?v (s, p) ! j = the (v_endpoint ?v (EndpointKey s p (word_of_nat (Suc j))))"
        using j assms(2,3) n by (simp add: groups_def sv del: of_nat_Suc)
      also have "\<dots> = (if j = unat i - 1 then last (groups v (s, p)) else groups v (s, p) ! j)"
        using w j j' assms(1,3) last by (simp add: del_view_def Let_def groups_def del: of_nat_Suc)
      also have "\<dots> = swap_remove (unat i - 1) (groups v (s, p)) ! j"
        using j len by (simp add: nth_swap_remove)
      finally show "groups ?v (s, p) ! j = swap_remove (unat i - 1) (groups v (s, p)) ! j" .
    qed
    with True show ?thesis by simp
  next
    case False
    obtain s' p' where g: "g = (s', p')" by fastforce
    have "groups ?v (s', p') = groups v (s', p')"
      by (rule groups_other [OF assms(1,2) _ _ sv]) (use False g assms(1) in \<open>auto simp: del_view_def Let_def\<close>)
    with False g show ?thesis by auto
  qed
qed

text \<open>Both changes keep the table exact.\<close>

lemma table_ok_add_view:
  assumes "table_ok v" and "v_service v s = Some sv"
    and "unat p < PrioCount" and "EndpointCount sv ! unat p \<noteq> max_u32"
  shows "table_ok (add_view s p uid v)"
proof -
  let ?n = "EndpointCount sv ! unat p"
  let ?v = "add_view s p uid v"
  have len: "length (EndpointCount sv) = PrioCount" using assms(1,2) by (simp add: table_ok_def)
  have c: "i \<le> ?n + 1 \<longleftrightarrow> i \<le> ?n \<or> i = ?n + 1" for i
    using unat_inc [OF assms(4)] by (auto simp: word_le_nat_alt word_unat_eq_iff)
  have "0 < ?n + 1" using unat_inc [OF assms(4)] by (simp add: u32_pos_iff)
  have e: "v_endpoint ?v (EndpointKey s' p' i) \<noteq> None \<longleftrightarrow>
      v_endpoint v (EndpointKey s' p' i) \<noteq> None \<or> s' = s \<and> p' = p \<and> i = ?n + 1" for s' p' i
    using assms(2) by (auto simp: add_view_def Let_def)
  have sv: "v_service ?v = (v_service v)(s \<mapsto> sv\<lparr>EndpointCount := (EndpointCount sv)[unat p := ?n + 1]\<rparr>)"
    using assms(2) by (simp add: add_view_def Let_def)
  have "v_endpoint ?v (EndpointKey s' p' i) \<noteq> None \<longleftrightarrow>
      (\<exists>sv. v_service ?v s' = Some sv \<and> unat p' < PrioCount \<and> 0 < i \<and> i \<le> EndpointCount sv ! unat p')" for s' p' i
  proof -
    have "v_endpoint v (EndpointKey s' p' i) \<noteq> None \<longleftrightarrow>
      (\<exists>sv. v_service v s' = Some sv \<and> unat p' < PrioCount \<and> 0 < i \<and> i \<le> EndpointCount sv ! unat p')"
      using assms(1) unfolding table_ok_def by blast
    then show ?thesis unfolding e sv using assms(2,3) len c \<open>0 < ?n + 1\<close>
      by (cases "s' = s"; cases "p' = p") (auto simp: nth_list_update word_unat_eq_iff [symmetric])
  qed
  then show ?thesis using assms(1) len sv unfolding table_ok_def by auto
qed

lemma table_ok_del_view:
  assumes "table_ok v" and "v_service v s = Some sv"
    and "unat p < PrioCount" and "0 < i" and "i \<le> EndpointCount sv ! unat p"
  shows "table_ok (del_view s p i v)"
proof -
  let ?n = "EndpointCount sv ! unat p"
  let ?v = "del_view s p i v"
  have len: "length (EndpointCount sv) = PrioCount" using assms(1,2) by (simp add: table_ok_def)
  have n0: "?n \<noteq> 0" using assms(4,5) by auto
  have c: "j \<le> ?n - 1 \<longleftrightarrow> j \<le> ?n \<and> j \<noteq> ?n" for j
    using unat_dec [OF n0] n0 by (auto simp: word_le_nat_alt word_unat_eq_iff)
  have ne: "v_endpoint v (EndpointKey s p ?n) \<noteq> None" "v_endpoint v (EndpointKey s p i) \<noteq> None"
    using table_ok_slot [OF assms(1-3)] assms(4,5) n0 by (auto simp: word_neq_0_conv)
  have e: "v_endpoint ?v (EndpointKey s' p' j) \<noteq> None \<longleftrightarrow>
      v_endpoint v (EndpointKey s' p' j) \<noteq> None \<and> \<not> (s' = s \<and> p' = p \<and> j = ?n)" for s' p' j
    using assms(2) ne by (auto simp: del_view_def Let_def)
  have sv: "v_service ?v = (v_service v)(s \<mapsto> sv\<lparr>EndpointCount := (EndpointCount sv)[unat p := ?n - 1]\<rparr>)"
    using assms(2) by (simp add: del_view_def Let_def)
  have "v_endpoint ?v (EndpointKey s' p' j) \<noteq> None \<longleftrightarrow>
      (\<exists>sv. v_service ?v s' = Some sv \<and> unat p' < PrioCount \<and> 0 < j \<and> j \<le> EndpointCount sv ! unat p')" for s' p' j
  proof -
    have "v_endpoint v (EndpointKey s' p' j) \<noteq> None \<longleftrightarrow>
      (\<exists>sv. v_service v s' = Some sv \<and> unat p' < PrioCount \<and> 0 < j \<and> j \<le> EndpointCount sv ! unat p')"
      using assms(1) unfolding table_ok_def by blast
    then show ?thesis unfolding e sv using assms(2,3) len c
      by (cases "s' = s"; cases "p' = p") (auto simp: nth_list_update word_unat_eq_iff [symmetric])
  qed
  then show ?thesis using assms(1) len sv unfolding table_ok_def by auto
qed

subsection \<open>What holds after every write\<close>

definition in_range :: "kview \<Rightarrow> u32 \<Rightarrow> u32 \<Rightarrow> u32 \<Rightarrow> bool" where
  "in_range v s p i \<longleftrightarrow>
     (\<exists>sv. v_service v s = Some sv \<and> unat p < PrioCount \<and> 0 < i \<and> i \<le> EndpointCount sv ! unat p)"

text \<open>
  The invariant that survives a kernel refusing writes: every index in range leads to an
  endpoint that the index knows.  The map and the index may hold more than that.
\<close>

definition safe :: "kview \<Rightarrow> (u32 \<rightharpoonup> EndpointKey list) \<Rightarrow> bool" where
  "safe v eks \<longleftrightarrow>
     (\<forall>s sv. v_service v s = Some sv \<longrightarrow> length (EndpointCount sv) = PrioCount) \<and>
     (\<forall>s p i. v_endpoint v (EndpointKey s p i) \<noteq> None \<longrightarrow> 0 < i \<and> unat p < PrioCount) \<and>
     (\<forall>s p i. in_range v s p i \<longrightarrow>
        (\<exists>uid. v_endpoint v (EndpointKey s p i) = Some uid \<and> EndpointKey s p i \<in> set (idx eks uid)))"

lemma safe_no_gap: "safe v eks \<Longrightarrow> no_gap v"
  unfolding safe_def no_gap_def in_range_def by (metis option.distinct(1))

lemma safe_lenD: "safe v eks \<Longrightarrow> v_service v s = Some sv \<Longrightarrow> length (EndpointCount sv) = PrioCount"
  by (simp add: safe_def)

lemma safe_keyD: "safe v eks \<Longrightarrow> v_endpoint v (EndpointKey s p i) = Some uid \<Longrightarrow> 0 < i \<and> unat p < PrioCount"
  unfolding safe_def by (metis option.distinct(1))

lemma safe_rangeD:
  "safe v eks \<Longrightarrow> in_range v s p i \<Longrightarrow>
     \<exists>uid. v_endpoint v (EndpointKey s p i) = Some uid \<and> EndpointKey s p i \<in> set (idx eks uid)"
  unfolding safe_def by blast

lemma table_ok_safe:
  assumes "table_ok v" and "index_ok eks (v_endpoint v)"
  shows "safe v eks"
proof -
  have "\<exists>uid. v_endpoint v (EndpointKey s p i) = Some uid \<and> EndpointKey s p i \<in> set (idx eks uid)"
    if "in_range v s p i" for s p i
    using that assms(1) index_ok_mem [OF assms(2)] table_ok_slot unfolding in_range_def by metis
  moreover have "0 < i \<and> unat p < PrioCount" if "v_endpoint v (EndpointKey s p i) \<noteq> None" for s p i
    using table_okD [OF assms(1)] that by blast
  ultimately show ?thesis using assms(1) unfolding safe_def table_ok_def by blast
qed

lemma safe_index:
  assumes "safe v eks" and "\<And>s p i. in_range v s p i \<Longrightarrow>
      \<exists>uid. v_endpoint v (EndpointKey s p i) = Some uid \<and> EndpointKey s p i \<in> set (idx eks' uid)"
  shows "safe v eks'"
  using assms(1) unfolding safe_def by (intro conjI allI impI assms(2)) simp_all

lemma safe_swap:
  assumes "safe v eks" and "v_endpoint v (EndpointKey s p i) = Some uid"
  shows "safe (v\<lparr>v_endpoint := (v_endpoint v)(EndpointKey s p i \<mapsto> x)\<rparr>)
              (index_insert x (EndpointKey s p i) (index_remove uid (EndpointKey s p i) eks))"
proof -
  let ?v = "v\<lparr>v_endpoint := (v_endpoint v)(EndpointKey s p i \<mapsto> x)\<rparr>"
  let ?eks = "index_insert x (EndpointKey s p i) (index_remove uid (EndpointKey s p i) eks)"
  have "\<exists>u. v_endpoint ?v (EndpointKey s' p' j) = Some u \<and> EndpointKey s' p' j \<in> set (idx ?eks u)"
    if "in_range ?v s' p' j" for s' p' j
  proof (cases "EndpointKey s' p' j = EndpointKey s p i")
    case False
    from that have "in_range v s' p' j" by (simp add: in_range_def)
    with safe_rangeD [OF assms(1)] False show ?thesis by (fastforce simp: idx_insert idx_remove)
  qed (simp add: idx_insert)
  moreover have "0 < j \<and> unat p' < PrioCount" if "v_endpoint ?v (EndpointKey s' p' j) \<noteq> None" for s' p' j
    using that safe_keyD [OF assms] safe_keyD [OF assms(1)] by (auto split: if_splits)
  ultimately show ?thesis using assms(1) unfolding safe_def by auto
qed

lemma safe_put:
  assumes "safe v eks" and "0 < i" and "unat p < PrioCount" and "\<not> in_range v s p i"
  shows "safe (v\<lparr>v_endpoint := (v_endpoint v)(EndpointKey s p i \<mapsto> x)\<rparr>) (index_insert x (EndpointKey s p i) eks)"
    and "safe v (index_insert x (EndpointKey s p i) eks)"
proof -
  let ?k = "EndpointKey s p i"
  have i: "\<exists>u. v_endpoint v (EndpointKey s' p' j) = Some u \<and> EndpointKey s' p' j \<in> set (idx (index_insert x ?k eks) u) \<and>
      EndpointKey s' p' j \<noteq> ?k" if "in_range v s' p' j" for s' p' j
    using safe_rangeD [OF assms(1) that] that assms(4) by (fastforce simp: idx_insert)
  show "safe v (index_insert x ?k eks)" by (rule safe_index [OF assms(1)]) (use i in blast)
  have "\<exists>u. v_endpoint (v\<lparr>v_endpoint := (v_endpoint v)(?k \<mapsto> x)\<rparr>) (EndpointKey s' p' j) = Some u \<and>
      EndpointKey s' p' j \<in> set (idx (index_insert x ?k eks) u)"
    if "in_range (v\<lparr>v_endpoint := (v_endpoint v)(?k \<mapsto> x)\<rparr>) s' p' j" for s' p' j
    using i [of s' p' j] that by (auto simp: in_range_def)
  then show "safe (v\<lparr>v_endpoint := (v_endpoint v)(?k \<mapsto> x)\<rparr>) (index_insert x ?k eks)"
    using assms(1-3) unfolding safe_def by auto
qed

lemma safe_count:
  assumes "safe v eks" and "v_service v s = Some sv"
    and "\<And>i. 0 < i \<Longrightarrow> i \<le> m \<Longrightarrow> unat p < PrioCount \<Longrightarrow>
           i \<le> EndpointCount sv ! unat p \<or>
           (\<exists>u. v_endpoint v (EndpointKey s p i) = Some u \<and> EndpointKey s p i \<in> set (idx eks u))"
  shows "safe (v\<lparr>v_service := (v_service v)(s \<mapsto> sv\<lparr>EndpointCount := (EndpointCount sv)[unat p := m]\<rparr>)\<rparr>) eks"
proof -
  let ?v = "v\<lparr>v_service := (v_service v)(s \<mapsto> sv\<lparr>EndpointCount := (EndpointCount sv)[unat p := m]\<rparr>)\<rparr>"
  have len: "length (EndpointCount sv) = PrioCount" using safe_lenD [OF assms(1,2)] .
  have "\<exists>u. v_endpoint v (EndpointKey s' p' j) = Some u \<and> EndpointKey s' p' j \<in> set (idx eks u)"
    if r: "in_range ?v s' p' j" for s' p' j
  proof (cases "s' = s \<and> p' = p")
    case True
    with r len have "0 < j" "j \<le> m" "unat p < PrioCount" by (auto simp: in_range_def)
    with assms(3) [of j] True assms(2) safe_rangeD [OF assms(1), of s p j] show ?thesis
      by (auto simp: in_range_def)
  next
    case False
    with r len have "in_range v s' p' j"
      using assms(2) by (auto simp: in_range_def nth_list_update word_unat_eq_iff [symmetric] split: if_splits)
    then show ?thesis by (rule safe_rangeD [OF assms(1)])
  qed
  then show ?thesis using assms(1) len unfolding safe_def by auto
qed

lemma safe_delete:
  assumes "safe v eks" and "\<not> in_range v s p i"
  shows "safe (v\<lparr>v_endpoint := (v_endpoint v)(EndpointKey s p i := None)\<rparr>) (index_remove u (EndpointKey s p i) eks)"
    and "safe v (index_remove u (EndpointKey s p i) eks)"
proof -
  let ?k = "EndpointKey s p i"
  have i: "\<exists>x. v_endpoint v (EndpointKey s' p' j) = Some x \<and> EndpointKey s' p' j \<in> set (idx (index_remove u ?k eks) x) \<and>
      EndpointKey s' p' j \<noteq> ?k" if "in_range v s' p' j" for s' p' j
    using safe_rangeD [OF assms(1) that] that assms(2) by (fastforce simp: idx_remove)
  show "safe v (index_remove u ?k eks)" by (rule safe_index [OF assms(1)]) (use i in blast)
  have "\<exists>x. v_endpoint (v\<lparr>v_endpoint := (v_endpoint v)(?k := None)\<rparr>) (EndpointKey s' p' j) = Some x \<and>
      EndpointKey s' p' j \<in> set (idx (index_remove u ?k eks) x)"
    if "in_range (v\<lparr>v_endpoint := (v_endpoint v)(?k := None)\<rparr>) s' p' j" for s' p' j
    using i [of s' p' j] that by (auto simp: in_range_def)
  then show "safe (v\<lparr>v_endpoint := (v_endpoint v)(?k := None)\<rparr>) (index_remove u ?k eks)"
    using assms(1) unfolding safe_def by auto
qed

text \<open>
  A run from one cache state to another during which no bpf program saw a gap, and which ends
  in a safe state.
\<close>

definition gapless :: "'m kernel \<Rightarrow> 'm cache \<Rightarrow> 'm cache \<Rightarrow> bool" where
  "gapless K c c' \<longleftrightarrow> safe (view K c') (endpointKeys c') \<and>
     (\<exists>h. history K c' = h @ history K c \<and> (\<forall>v \<in> set h. no_gap v))"

abbreviation safe_cache :: "'m kernel \<Rightarrow> 'm cache \<Rightarrow> bool" where
  "safe_cache K c \<equiv> safe (view K c) (endpointKeys c)"

lemma gapless_refl: "safe_cache K c \<Longrightarrow> gapless K c c"
  by (simp add: gapless_def)

lemma gapless_trans: "gapless K a b \<Longrightarrow> gapless K b c \<Longrightarrow> gapless K a c"
  unfolding gapless_def by (metis Un_iff append.assoc set_append)

lemma gapless_safe: "gapless K a b \<Longrightarrow> safe_cache K b"
  by (simp add: gapless_def)

lemma gapless_step:
  assumes "safe_cache K c'" and "set h \<subseteq> {view K c'}" and "history K c' = h @ history K c"
  shows "gapless K c c'"
  using assms safe_no_gap [OF assms(1)] unfolding gapless_def by auto

text \<open>The swap phase of \<open>deleteEndpoint\<close>: whatever it writes, the slot keeps an endpoint.\<close>

lemma swap_phase:
  assumes "kernel_laws K" and "safe_cache K c" and "services K c s = Some sv"
    and "endpoints K c (EndpointKey s p i) = Some uid" and "i \<le> EndpointCount sv ! unat p"
  shows "\<exists>e c'. EndpointSwap K i uid (EndpointCount sv ! unat p) s p c = Some (e, c') \<and> gapless K c c' \<and>
           (\<exists>x. view K c' = (view K c)\<lparr>v_endpoint := put_result (endpoints K c) (EndpointKey s p i) x e\<rparr> \<and>
              (i \<noteq> EndpointCount sv ! unat p \<longrightarrow>
                 endpoints K c (EndpointKey s p (EndpointCount sv ! unat p)) = Some x)) \<and>
           (bpf_index_ok K c \<longrightarrow> bpf_index_ok K c') \<and> (kernel_reliable K \<longrightarrow> e = None)"
proof -
  let ?n = "EndpointCount sv ! unat p"
  have i0: "0 < i" "unat p < PrioCount" using safe_keyD [OF assms(2)] assms(4) by simp_all
  show ?thesis
  proof (cases "i = ?n \<and> ?n \<le> 1")
    case True
    then have sw: "EndpointSwap K i uid ?n s p c = Some (None, c)" by (simp add: EndpointSwap_def)
    have v: "view K c = (view K c)\<lparr>v_endpoint := put_result (endpoints K c) (EndpointKey s p i) uid None\<rparr>"
      using assms(4) by (simp add: put_result_def kview_of_def fun_upd_idem)
    show ?thesis
      using sw gapless_refl [OF assms(2)] v True by (intro exI [of _ None] exI [of _ c] conjI exI [of _ uid]) auto
  next
    case False
    let ?l = "if i = ?n then ?n - 1 else ?n"
    have "in_range (view K c) s p ?l"
    proof -
      have "0 < ?l \<and> ?l \<le> ?n"
      proof (cases "i = ?n")
        case True
        then have "1 < unat ?n" using False by (simp add: word_le_nat_alt)
        moreover from this have "?n \<noteq> 0" by auto
        ultimately show ?thesis using True unat_dec [of ?n] by (simp add: u32_pos_iff word_le_nat_alt)
      qed (use assms(5) i0(1) in auto)
      then show ?thesis using assms(3) i0(2) by (simp add: in_range_def)
    qed
    then obtain luid where l: "endpoints K c (EndpointKey s p ?l) = Some luid"
      "EndpointKey s p ?l \<in> set (idx (endpointKeys c) luid)"
      using safe_rangeD [OF assms(2)] by fastforce
    obtain e c' where r: "EndpointSwap K i uid ?n s p c = Some (e, c')"
      "view K c' = (view K c)\<lparr>v_endpoint := put_result (endpoints K c) (EndpointKey s p i) luid e\<rparr>"
      "history K c' = view K c' # history K c"
      "endpointKeys c' = (if e = None then index_insert luid (EndpointKey s p i)
         (index_remove uid (EndpointKey s p i) (endpointKeys c)) else endpointKeys c)"
      "kernel_reliable K \<longrightarrow> e = None"
      using EndpointSwap_run [OF assms(1,5) False l] by blast
    have "safe_cache K c'"
    proof (cases e)
      case None
      then show ?thesis
        using r(2,4) safe_swap [OF assms(2), of s p i uid luid] assms(4) by (simp add: put_result_def)
    next
      case (Some err)
      then have "view K c' = view K c" using r(2) by (simp add: put_result_def kview_of_def)
      then show ?thesis using r(4) Some assms(2) by simp
    qed
    then have "gapless K c c'" using r(3) by (intro gapless_step [where h = "[view K c']"]) simp_all
    moreover have "bpf_index_ok K c'" if "bpf_index_ok K c"
      using that r(4) view_endpoint [OF r(2)] EndpointSwap_index [OF that assms(4)]
      by (auto simp: put_result_def)
    moreover have "i \<noteq> ?n \<longrightarrow> endpoints K c (EndpointKey s p ?n) = Some luid" using l(1) by auto
    ultimately show ?thesis using r(1,2,5) by (intro exI [of _ e] exI [of _ c'] conjI exI [of _ luid]) auto
  qed
qed

lemma ServiceUpdate_spec:
  assumes "kernel_laws K" and "ServiceUpdate K s sv c = (e, c')"
  shows "view K c' = (view K c)\<lparr>v_service := put_result (services K c) s sv e\<rparr>"
    and "endpointKeys c' = endpointKeys c" and "history K c' = view K c' # history K c"
    and "endpoints K c' = endpoints K c"
proof -
  note u = map_Update_spec [OF kernel_lawsD(2) [OF assms(1)] assms(2) [unfolded ServiceUpdate_def]]
  show "view K c' = (view K c)\<lparr>v_service := put_result (services K c) s sv e\<rparr>"
    and "endpointKeys c' = endpointKeys c" and "history K c' = view K c' # history K c" using u by simp_all
  show "endpoints K c' = endpoints K c" using arg_cong [OF u(1), of v_endpoint] by simp
qed

lemma ServiceUpdate_gapless:
  assumes "kernel_laws K" and "safe_cache K c" and "ServiceUpdate K s sv c = (e, c')"
    and "safe ((view K c)\<lparr>v_service := (services K c)(s \<mapsto> sv)\<rparr>) (endpointKeys c)"
  shows "gapless K c c'"
proof -
  note u = ServiceUpdate_spec [OF assms(1,3)]
  have "safe_cache K c'"
  proof (cases e)
    case None
    then show ?thesis using u(1,2) assms(4) by (simp add: put_result_def)
  next
    case (Some err)
    then have "view K c' = view K c" using u(1) by (simp add: put_result_def kview_of_def)
    then show ?thesis using u(2) assms(2) by simp
  qed
  then show ?thesis using u(3) by (intro gapless_step [where h = "[view K c']"]) simp_all
qed

lemma EndpointDelete_gapless:
  assumes "kernel_laws K" and "safe_cache K c" and "EndpointDelete K (EndpointKey s p i) c = (e, c')"
    and "\<not> in_range (view K c) s p i"
  shows "gapless K c c'"
proof -
  note d = EndpointDelete_spec [OF assms(1,3)]
  have k: "endpointKeys c' = endpointKeys c \<or> (\<exists>u. endpointKeys c' = index_remove u (EndpointKey s p i) (endpointKeys c))"
    using assms(3) map_Delete_spec(2) [OF kernel_lawsD(3) [OF assms(1)]]
    by (fastforce simp: EndpointDelete_def split: sum.splits)
  have nk: "\<not> in_range ((view K c)\<lparr>v_endpoint := ep\<rparr>) s p i" for ep using assms(4) by (simp add: in_range_def)
  have same: "safe (view K c) (endpointKeys c')"
    using k assms(2) safe_delete(2) [OF assms(2,4)] by auto
  have "safe_cache K c'"
  proof (cases e)
    case None
    have "safe ((view K c)\<lparr>v_endpoint := (endpoints K c)(EndpointKey s p i := None)\<rparr>) (endpointKeys c')"
    proof -
      have "\<exists>u. safe ((view K c)\<lparr>v_endpoint := (endpoints K c)(EndpointKey s p i := None)\<rparr>)
              (index_remove u (EndpointKey s p i) (endpointKeys c'))"
        using safe_delete(1) [OF same assms(4)] by simp
      then obtain u where u: "safe ((view K c)\<lparr>v_endpoint := (endpoints K c)(EndpointKey s p i := None)\<rparr>)
              (index_remove u (EndpointKey s p i) (endpointKeys c'))" by blast
      show ?thesis
        by (rule safe_index [OF u]) (use safe_rangeD [OF u] in \<open>fastforce simp: idx_remove split: if_splits\<close>)
    qed
    then show ?thesis using d(1) None by simp
  next
    case (Some err)
    then have "view K c' = view K c" using d(1) by (simp add: kview_of_def)
    then show ?thesis using same by simp
  qed
  then show ?thesis using d(2) gapless_step by blast
qed

lemma deleteEndpoint_run:
  assumes "kernel_laws (kern E)" and "safe_cache (kern E) (bpf P)" and "services (kern E) (bpf P) s = Some sv"
    and "endpoints (kern E) (bpf P) (EndpointKey s p i) = Some uid"
  shows "\<exists>e c'. deleteEndpoint E (EndpointKey s p i) uid sv s P = Some (e, P\<lparr>bpf := c'\<rparr>) \<and>
           gapless (kern E) (bpf P) c' \<and>
           (e = None \<longrightarrow> i \<le> EndpointCount sv ! unat p \<and>
              view (kern E) c' = del_view s p i (view (kern E) (bpf P)) \<and>
              (bpf_index_ok (kern E) (bpf P) \<longrightarrow> bpf_index_ok (kern E) c')) \<and>
           (kernel_reliable (kern E) \<longrightarrow> i \<le> EndpointCount sv ! unat p \<longrightarrow> e = None)"
proof -
  let ?K = "kern E" and ?n = "EndpointCount sv ! unat p" and ?c = "bpf P"
  have i0: "0 < i" "unat p < PrioCount" using safe_keyD [OF assms(2)] assms(4) by simp_all
  have len: "length (EndpointCount sv) = PrioCount" using safe_lenD [OF assms(2)] assms(3) by simp
  have get: "arr_get (EndpointCount sv) (unat p) = Some ?n" using len i0(2) by (simp add: arr_get_def)
  have set: "arr_set (EndpointCount sv) (unat p) m = Some ((EndpointCount sv)[unat p := m])" for m
    using len i0(2) by (simp add: arr_set_def)
  show ?thesis
  proof (cases "i \<le> ?n")
    case False
    then obtain err where "EndpointSwap ?K i uid ?n s p ?c = Some (Some err, ?c)"
      by (simp add: EndpointSwap_def not_le)
    then show ?thesis using False gapless_refl [OF assms(2)]
      by (intro exI [of _ "Some err"] exI [of _ ?c]) (simp add: deleteEndpoint_def get)
  next
    case True
    have n0: "?n \<noteq> 0" using True i0(1) by auto
    then have n1: "\<not> unat ?n \<le> unat ?n - 1" using unat_gt_0 [of ?n] by linarith
    obtain e1 c1 x where sw: "EndpointSwap ?K i uid ?n s p ?c = Some (e1, c1)" "gapless ?K ?c c1"
      "view ?K c1 = (view ?K ?c)\<lparr>v_endpoint := put_result (endpoints ?K ?c) (EndpointKey s p i) x e1\<rparr>"
      "i \<noteq> ?n \<Longrightarrow> endpoints ?K ?c (EndpointKey s p ?n) = Some x"
      "bpf_index_ok ?K ?c \<Longrightarrow> bpf_index_ok ?K c1" "kernel_reliable ?K \<Longrightarrow> e1 = None"
      using swap_phase [OF assms True] by blast
    let ?sv = "sv\<lparr>EndpointCount := (EndpointCount sv)[unat p := ?n - 1]\<rparr>"
    have s1: "services ?K c1 = services ?K ?c" using arg_cong [OF sw(3), of v_service] by simp
    obtain e2 c2 where su: "ServiceUpdate ?K s ?sv c1 = (e2, c2)" by fastforce
    have g2: "gapless ?K c1 c2"
    proof (rule ServiceUpdate_gapless [OF assms(1) gapless_safe [OF sw(2)] su])
      have "j \<le> ?n" if "j \<le> ?n - 1" for j
        using that unat_dec [OF n0] by (simp add: word_le_nat_alt)
      then show "safe ((view ?K c1)\<lparr>v_service := (services ?K c1)(s \<mapsto> ?sv)\<rparr>) (endpointKeys c1)"
        using safe_count [OF gapless_safe [OF sw(2)], of s sv "?n - 1" p] s1 assms(3) by simp
    qed
    have run: "deleteEndpoint E (EndpointKey s p i) uid sv s P =
        (case e1 of Some err \<Rightarrow> Some (Some err, P\<lparr>bpf := c1\<rparr>)
         | None \<Rightarrow> (case e2 of Some err \<Rightarrow> Some (Some err, P\<lparr>bpf := c2\<rparr>)
           | None \<Rightarrow> Some (on_bpf (EndpointDelete ?K (EndpointKey s p ?n)) (P\<lparr>bpf := c2\<rparr>))))"
      by (simp add: deleteEndpoint_def get set sw(1) on_bpf_def su Let_def split: option.splits)
    obtain e3 c3 where d: "EndpointDelete ?K (EndpointKey s p ?n) c2 = (e3, c3)" by fastforce
    show ?thesis
    proof (cases "e1 = None \<and> e2 = None")
      case ok: True
      have v2: "view ?K c2 = (view ?K ?c)\<lparr>v_endpoint := (endpoints ?K ?c)(EndpointKey s p i \<mapsto> x),
          v_service := (services ?K ?c)(s \<mapsto> ?sv)\<rparr>"
        using ServiceUpdate_spec(1) [OF assms(1) su] sw(3) s1 ok by (simp add: put_result_def)
      have ep2: "endpoints ?K c2 = (endpoints ?K ?c)(EndpointKey s p i \<mapsto> x)"
        using arg_cong [OF v2, of v_endpoint] by simp
      have "\<not> in_range (view ?K c2) s p ?n"
        using v2 len i0 n1 unat_dec [OF n0] by (simp add: in_range_def word_le_nat_alt not_le)
      then have g3: "gapless ?K c2 c3"
        by (rule EndpointDelete_gapless [OF assms(1) gapless_safe [OF g2] d])
      have "view ?K c3 = del_view s p i (view ?K ?c)" if "e3 = None"
        using EndpointDelete_spec(1) [OF assms(1) d, unfolded ep2 v2] sw(4) that assms(3)
        by (cases "i = ?n") (simp_all add: del_view_def Let_def)
      moreover have "bpf_index_ok ?K c3" if "e3 = None" "bpf_index_ok ?K ?c"
        using EndpointDelete_spec(3) [OF assms(1) d] that sw(5) ServiceUpdate_spec(2,4) [OF assms(1) su] by simp
      moreover have "e3 = None" if "kernel_reliable ?K"
        using reliable_ops(10) [OF that, of "EndpointKey s p ?n" c2] d by simp
      ultimately show ?thesis
        using run ok d True gapless_trans [OF gapless_trans [OF sw(2) g2] g3]
        by (intro exI [of _ e3] exI [of _ c3]) (simp add: on_bpf_def)
    next
      case err: False
      have "e2 = None" if "kernel_reliable ?K"
        using reliable_ops(3) [OF that, of s ?sv c1] su by simp
      then have "\<not> kernel_reliable ?K" using sw(6) err by blast
      then show ?thesis
        using run err sw(2) gapless_trans [OF sw(2) g2] by (cases e1; cases e2) auto
    qed
  qed
qed

lemma EndpointLookup_iff: "EndpointLookup K k c = Inr u \<longleftrightarrow> endpoints K c k = Some u"
  by (simp add: EndpointLookup_def lookup_contents)

lemma ServiceLookup_iff: "ServiceLookup K k c = Inr u \<longleftrightarrow> services K c k = Some u"
  by (simp add: ServiceLookup_def lookup_contents)

lemma delete_record_run:
  assumes "kernel_laws (kern E)" and "safe_cache (kern E) (bpf P)"
  shows "\<exists>c' ec. delete_record E ek P = Some (P\<lparr>bpf := c', EndpointCache := ec\<rparr>) \<and> gapless (kern E) (bpf P) c'"
proof -
  let ?K = "kern E"
  obtain s p i where ek: "ek = EndpointKey s p i" by (cases ek)
  have same: "P = P\<lparr>bpf := bpf P, EndpointCache := EndpointCache P\<rparr>" by simp
  show ?thesis
  proof (cases "EndpointLookup ?K ek (bpf P)")
    case (Inl err)
    then have "delete_record E ek P = Some P" by (auto simp: delete_record_def Let_def split: sum.splits)
    then show ?thesis using same gapless_refl [OF assms(2)] by metis
  next
    case lk: (Inr uid)
    then have u: "endpoints ?K (bpf P) (EndpointKey s p i) = Some uid" by (simp add: EndpointLookup_iff ek)
    show ?thesis
    proof (cases "ServiceLookup ?K s (bpf P)")
      case (Inl err)
      then have "services ?K (bpf P) s = None" by (simp add: ServiceLookup_def lookup_contents)
      then have nr: "\<not> in_range (view ?K (bpf P)) s p i" by (simp add: in_range_def)
      obtain e c' where d: "EndpointDelete ?K ek (bpf P) = (e, c')" by fastforce
      have "gapless ?K (bpf P) c'" using EndpointDelete_gapless [OF assms d [unfolded ek] nr] .
      moreover have "\<exists>ec. delete_record E ek P = Some (P\<lparr>bpf := c', EndpointCache := ec\<rparr>)"
        using Inl lk d ek by (simp add: delete_record_def on_bpf_def Let_def)
          (metis Processor.surjective Processor.update_convs(6))
      ultimately show ?thesis by blast
    next
      case (Inr sv)
      then have sv: "services ?K (bpf P) s = Some sv" by (simp add: ServiceLookup_iff)
      obtain e c' where d: "deleteEndpoint E (EndpointKey s p i) uid sv s P = Some (e, P\<lparr>bpf := c'\<rparr>)"
        "gapless ?K (bpf P) c'" using deleteEndpoint_run [OF assms sv u] by blast
      have "\<exists>ec. delete_record E ek P = Some (P\<lparr>bpf := c', EndpointCache := ec\<rparr>)"
        using Inr lk d(1) ek by (simp add: delete_record_def Let_def)
          (metis Processor.surjective Processor.update_convs(6))
      with d(2) show ?thesis by blast
    qed
  qed
qed

lemma delete_records_run:
  assumes "kernel_laws (kern E)" and "safe_cache (kern E) (bpf P)"
  shows "\<exists>c' ec. for_each (delete_record E) eks P = Some (P\<lparr>bpf := c', EndpointCache := ec\<rparr>) \<and>
           gapless (kern E) (bpf P) c'"
  using assms(2)
proof (induction eks arbitrary: P)
  case Nil
  have "P = P\<lparr>bpf := bpf P, EndpointCache := EndpointCache P\<rparr>" by simp
  then show ?case using gapless_refl [OF Nil] by (metis for_each.simps(1))
next
  case (Cons ek eks)
  obtain c1 ec1 where r: "delete_record E ek P = Some (P\<lparr>bpf := c1, EndpointCache := ec1\<rparr>)"
    "gapless (kern E) (bpf P) c1" using delete_record_run [OF assms(1) Cons.prems] by blast
  let ?P = "P\<lparr>bpf := c1, EndpointCache := ec1\<rparr>"
  obtain c' ec where "for_each (delete_record E) eks ?P = Some (?P\<lparr>bpf := c', EndpointCache := ec\<rparr>)"
    "gapless (kern E) (bpf ?P) c'" using Cons.IH [of ?P] gapless_safe [OF r(2)] by auto
  then show ?case using r gapless_trans [OF r(2)] by auto
qed

lemma addWorkloadToService_run:
  assumes "kernel_laws (kern E)" and "safe_cache (kern E) (bpf P)" and "services (kern E) (bpf P) s = Some sv"
    and "unat p < PrioCount" and "EndpointCount sv ! unat p \<noteq> max_u32"
  shows "\<exists>ek e c' ec. addWorkloadToService E s sv uid p P =
             Some ((ek, e), P\<lparr>bpf := c', EndpointCache := ec\<rparr>) \<and> gapless (kern E) (bpf P) c' \<and>
           (e = None \<longrightarrow> view (kern E) c' = add_view s p uid (view (kern E) (bpf P)) \<and>
              ec = AddEndpointToService (Endpoint s p (EndpointCount sv ! unat p + 1)) uid (EndpointCache P) \<and>
              (bpf_index_ok (kern E) (bpf P) \<longrightarrow> table_ok (view (kern E) (bpf P)) \<longrightarrow> bpf_index_ok (kern E) c')) \<and>
           (kernel_reliable (kern E) \<longrightarrow> e = None)"
proof -
  let ?K = "kern E" and ?n = "EndpointCount sv ! unat p" and ?c = "bpf P"
  let ?k = "EndpointKey s p (?n + 1)" and ?sv = "sv\<lparr>EndpointCount := (EndpointCount sv)[unat p := ?n + 1]\<rparr>"
  have len: "length (EndpointCount sv) = PrioCount" using safe_lenD [OF assms(2)] assms(3) by simp
  have get: "arr_get (EndpointCount sv) (unat p) = Some ?n" using len assms(4) by (simp add: arr_get_def)
  have set: "arr_set (EndpointCount sv) (unat p) m = Some ((EndpointCount sv)[unat p := m])" for m
    using len assms(4) by (simp add: arr_set_def)
  have inc: "unat (?n + 1) = Suc (unat ?n)" by (rule unat_inc [OF assms(5)])
  have nr: "\<not> in_range (view ?K ?c) s p (?n + 1)"
    using assms(3) inc by (simp add: in_range_def word_le_nat_alt)
  obtain e1 c1 where u: "EndpointUpdate ?K ?k uid ?c = (e1, c1)" by fastforce
  note us = EndpointUpdate_spec [OF assms(1) u]
  have k1: "endpointKeys c1 = index_insert uid ?k (endpointKeys ?c)"
    using u map_Update_spec(2) [OF kernel_lawsD(3) [OF assms(1)]] by (fastforce simp: EndpointUpdate_def)
  note pos = inc [THEN arg_cong [of _ _ "\<lambda>x. 0 < x"]]
  have safe1: "safe_cache ?K c1"
    using safe_put [OF assms(2) _ assms(4) nr, of uid] pos us(1) k1
    by (cases e1) (simp_all add: put_result_def u32_pos_iff kview_of_def)
  then have g1: "gapless ?K ?c c1" using us(2) by (intro gapless_step [where h = "[view ?K c1]"]) simp_all
  show ?thesis
  proof (cases e1)
    case (Some err)
    then have "addWorkloadToService E s sv uid p P = Some ((?k, Some err), P\<lparr>bpf := c1\<rparr>)"
      by (simp add: addWorkloadToService_def get set on_bpf_def u)
    moreover have "\<not> kernel_reliable ?K" using Some u reliable_ops(9) [of ?K ?k uid ?c] by auto
    moreover have "P\<lparr>bpf := c1\<rparr> = P\<lparr>bpf := c1, EndpointCache := EndpointCache P\<rparr>" by simp
    ultimately show ?thesis using g1 by (metis option.distinct(1))
  next
    case None
    obtain e2 c2 where su: "ServiceUpdate ?K s ?sv c1 = (e2, c2)" by fastforce
    note ss = ServiceUpdate_spec [OF assms(1) su]
    have v1: "view ?K c1 = (view ?K ?c)\<lparr>v_endpoint := (endpoints ?K ?c)(?k \<mapsto> uid)\<rparr>"
      using us(1) None by (simp add: put_result_def)
    have s1: "services ?K c1 = services ?K ?c" using arg_cong [OF v1, of v_service] by simp
    have ep1: "endpoints ?K c1 = (endpoints ?K ?c)(?k \<mapsto> uid)" using arg_cong [OF v1, of v_endpoint] by simp
    have g2: "gapless ?K c1 c2"
    proof (rule ServiceUpdate_gapless [OF assms(1) safe1 su])
      have "j \<le> ?n \<or> (\<exists>u. endpoints ?K c1 (EndpointKey s p j) = Some u \<and> EndpointKey s p j \<in> set (idx (endpointKeys c1) u))"
        if "j \<le> ?n + 1" for j
      proof (cases "j = ?n + 1")
        case True
        then show ?thesis using ep1 k1 by (simp add: idx_insert)
      next
        case False
        then show ?thesis using that inc by (auto simp: word_le_nat_alt word_unat_eq_iff)
      qed
      then show "safe ((view ?K c1)\<lparr>v_service := (services ?K c1)(s \<mapsto> ?sv)\<rparr>) (endpointKeys c1)"
        using safe_count [OF safe1, of s sv "?n + 1" p] s1 assms(3) by simp
    qed
    have run: "addWorkloadToService E s sv uid p P = Some ((?k, e2), P\<lparr>bpf := c2,
        EndpointCache := AddEndpointToService (Endpoint s p (?n + 1)) uid (EndpointCache P)\<rparr>)"
      using None by (simp add: addWorkloadToService_def get set on_bpf_def u su)
    have "view ?K c2 = add_view s p uid (view ?K ?c)" if "e2 = None"
      using ss(1) [unfolded s1 v1] that assms(3) by (simp add: add_view_def put_result_def Let_def)
    moreover have "bpf_index_ok ?K c2" if "bpf_index_ok ?K ?c" "table_ok (view ?K ?c)"
    proof -
      have "endpoints ?K ?c ?k = None"
        using that(2) nr unfolding table_ok_def in_range_def by (metis kview_of_sel(3))
      then show ?thesis using us(3) [OF that(1) _ None] ss(2,4) by simp
    qed
    moreover have "e2 = None" if "kernel_reliable ?K" using reliable_ops(3) [OF that, of s ?sv c1] su by simp
    ultimately show ?thesis using run gapless_trans [OF g1 g2] by blast
  qed
qed

subsection \<open>The endpoint map as groups\<close>

definition table_inv :: "'m env \<Rightarrow> 'm Processor \<Rightarrow> bool" where
  "table_inv E P \<longleftrightarrow> kernel_laws (kern E) \<and> kernel_reliable (kern E) \<and>
     table_ok (view (kern E) (bpf P)) \<and> bpf_index_ok (kern E) (bpf P)"

abbreviation proc_groups :: "'m env \<Rightarrow> 'm Processor \<Rightarrow> u32 \<times> u32 \<Rightarrow> u32 list" where
  "proc_groups E P \<equiv> groups (view (kern E) (bpf P))"

definition group_key :: "(u32 \<times> u32) \<times> nat \<Rightarrow> EndpointKey" where
  "group_key = (\<lambda>((s, p), n). EndpointKey s p (word_of_nat (Suc n)))"

lemma table_inv_safe: "table_inv E P \<Longrightarrow> safe_cache (kern E) (bpf P)"
  by (simp add: table_inv_def table_ok_safe)

lemma table_inv_slot:
  assumes "table_inv E P" and "n < length (proc_groups E P (s, p))"
  shows "\<exists>sv. services (kern E) (bpf P) s = Some sv \<and> unat p < PrioCount \<and>
           0 < (word_of_nat (Suc n) :: u32) \<and> word_of_nat (Suc n) \<le> EndpointCount sv ! unat p \<and>
           unat (word_of_nat (Suc n) :: u32) = Suc n \<and>
           endpoints (kern E) (bpf P) (EndpointKey s p (word_of_nat (Suc n))) = Some (proc_groups E P (s, p) ! n)"
proof -
  let ?v = "view (kern E) (bpf P)"
  obtain sv where sv: "services (kern E) (bpf P) s = Some sv" "unat p < PrioCount"
    "n < unat (EndpointCount sv ! unat p)"
    using assms(2) by (auto simp: groups_def split: option.splits if_splits)
  have u: "unat (word_of_nat (Suc n) :: u32) = Suc n"
    using sv(3) unat_less_u32 [of "EndpointCount sv ! unat p"] by (simp add: unat_of_nat del: of_nat_Suc)
  then have r: "0 < (word_of_nat (Suc n) :: u32)" "word_of_nat (Suc n) \<le> EndpointCount sv ! unat p"
    using sv(3) by (simp_all add: u32_pos_iff word_le_nat_alt del: of_nat_Suc)
  obtain uid where uid: "endpoints (kern E) (bpf P) (EndpointKey s p (word_of_nat (Suc n))) = Some uid"
    using table_ok_slot [of ?v s sv p "word_of_nat (Suc n)"] assms(1) sv r by (auto simp: table_inv_def)
  have "proc_groups E P (s, p) ! n = uid"
    using nth_groups [of ?v s sv p "word_of_nat (Suc n)"] sv r u uid by (simp del: of_nat_Suc)
  with sv r u uid show ?thesis by blast
qed

lemma table_inv_key:
  assumes "table_inv E P" and "endpoints (kern E) (bpf P) (EndpointKey s p i) = Some uid"
  shows "unat i - 1 < length (proc_groups E P (s, p)) \<and> proc_groups E P (s, p) ! (unat i - 1) = uid \<and>
           group_key ((s, p), unat i - 1) = EndpointKey s p i"
proof -
  let ?v = "view (kern E) (bpf P)"
  obtain sv where sv: "services (kern E) (bpf P) s = Some sv" "unat p < PrioCount" "0 < i"
    "i \<le> EndpointCount sv ! unat p"
    using table_okD [of ?v s p i uid] assms by (auto simp: table_inv_def)
  have i: "0 < unat i" "unat i \<le> unat (EndpointCount sv ! unat p)"
    using sv by (simp_all add: u32_pos_iff word_le_nat_alt)
  have "proc_groups E P (s, p) ! (unat i - 1) = uid"
    using nth_groups [of ?v s sv p i] sv assms(2) by simp
  moreover have "word_of_nat (Suc (unat i - 1)) = i" using i(1) by (simp del: of_nat_Suc)
  ultimately show ?thesis using length_groups [of ?v s sv p] sv i by (auto simp: group_key_def)
qed

lemma delete_record_ok:
  assumes "table_inv E P" and "endpoints (kern E) (bpf P) (EndpointKey s p i) = Some uid"
  shows "\<exists>c' ec. delete_record E (EndpointKey s p i) P = Some (P\<lparr>bpf := c', EndpointCache := ec\<rparr>) \<and>
           table_inv E (P\<lparr>bpf := c', EndpointCache := ec\<rparr>) \<and>
           view (kern E) c' = del_view s p i (view (kern E) (bpf P)) \<and>
           ec = DeleteEndpointWithPriority s uid p (EndpointCache P)"
proof -
  let ?K = "kern E" and ?v = "view (kern E) (bpf P)"
  obtain sv where sv: "services ?K (bpf P) s = Some sv" "unat p < PrioCount" "0 < i"
    "i \<le> EndpointCount sv ! unat p"
    using table_okD [of ?v s p i uid] assms by (auto simp: table_inv_def)
  have laws: "kernel_laws ?K" "kernel_reliable ?K" "table_ok ?v" "bpf_index_ok ?K (bpf P)"
    using assms(1) by (simp_all add: table_inv_def)
  obtain c' where c': "deleteEndpoint E (EndpointKey s p i) uid sv s P = Some (None, P\<lparr>bpf := c'\<rparr>)"
    "view ?K c' = del_view s p i ?v" "bpf_index_ok ?K c'"
    using deleteEndpoint_run [OF laws(1) table_inv_safe [OF assms(1)] sv(1) assms(2)] laws(2,4) sv(4) by blast
  have "table_ok (view ?K c')" unfolding c'(2) using table_ok_del_view [OF laws(3)] sv by simp
  moreover have "EndpointLookup ?K (EndpointKey s p i) (bpf P) = Inr uid" using assms(2) by (simp add: EndpointLookup_iff)
  moreover have "ServiceLookup ?K s (bpf P) = Inr sv" using sv(1) by (simp add: ServiceLookup_iff)
  ultimately show ?thesis using c' laws
    by (intro exI [of _ c'] exI [of _ "DeleteEndpointWithPriority s uid p (EndpointCache P)"])
      (simp add: delete_record_def table_inv_def Let_def)
qed

interpretation tables: endpoint_groups "table_inv E" "proc_groups E" "\<lambda>k. delete_record E (group_key k)"
proof
  fix P i and g :: "u32 \<times> u32"
  assume inv: "table_inv E P" and i: "i < length (proc_groups E P g)"
  obtain s p where g: "g = (s, p)" by fastforce
  note sl = table_inv_slot [OF inv i [unfolded g]]
  then obtain sv where sv: "services (kern E) (bpf P) s = Some sv" "unat p < PrioCount"
    "0 < (word_of_nat (Suc i) :: u32)" "word_of_nat (Suc i) \<le> EndpointCount sv ! unat p"
    "unat (word_of_nat (Suc i) :: u32) = Suc i" by blast
  obtain c' ec where d: "delete_record E (EndpointKey s p (word_of_nat (Suc i))) P = Some (P\<lparr>bpf := c', EndpointCache := ec\<rparr>)"
    "table_inv E (P\<lparr>bpf := c', EndpointCache := ec\<rparr>)"
    "view (kern E) c' = del_view s p (word_of_nat (Suc i)) (view (kern E) (bpf P))"
    using delete_record_ok [OF inv] sl by blast
  have len: "length (EndpointCount sv) = PrioCount" using safe_lenD [OF table_inv_safe [OF inv]] sv(1) by simp
  have "groups (view (kern E) c') = (proc_groups E P)((s, p) := swap_remove i (proc_groups E P (s, p)))"
    unfolding d(3) using groups_del_view [of "view (kern E) (bpf P)" s sv p "word_of_nat (Suc i)"] sv len
    by (simp del: of_nat_Suc)
  then show "\<exists>P'. delete_record E (group_key (g, i)) P = Some P' \<and> table_inv E P' \<and>
      proc_groups E P' = (proc_groups E P)(g := swap_remove i (proc_groups E P g))"
    using d(1,2) g by (auto simp: group_key_def simp del: of_nat_Suc)
qed

text \<open>The order in which a batch is deleted is the order the groups need.\<close>

definition key_group :: "EndpointKey \<Rightarrow> (u32 \<times> u32) \<times> nat" where
  "key_group k = ((ek_ServiceId k, ek_Prio k), unat (ek_BackendIndex k) - 1)"

lemma ek_order_descending:
  assumes "distinct eks" and "\<forall>k \<in> set eks. 0 < ek_BackendIndex k"
  shows "sorted_wrt (\<lambda>(g, i) (h, j). h = g \<longrightarrow> j < i) (map key_group (sort_key ek_order eks))"
proof -
  let ?ks = "sort_key ek_order eks"
  have "h = g \<longrightarrow> j < i" if m: "m < n" "n < length ?ks" "key_group (?ks ! m) = (g, i)" "key_group (?ks ! n) = (h, j)"
    for m n g h i j
  proof
    assume "h = g"
    let ?k = "?ks ! m" and ?l = "?ks ! n"
    have mem: "?k \<in> set eks" "?l \<in> set eks" using m(1,2) nth_mem [of m ?ks] nth_mem [of n ?ks] by simp_all
    have "?k \<noteq> ?l" using m(1,2) assms(1) by (simp add: nth_eq_iff_index_eq)
    moreover have grp: "ek_ServiceId ?k = ek_ServiceId ?l" "ek_Prio ?k = ek_Prio ?l"
      using m(3,4) \<open>h = g\<close> by (auto simp: key_group_def)
    ultimately have "ek_BackendIndex ?k \<noteq> ek_BackendIndex ?l" by (cases ?k; cases ?l) auto
    moreover have "ek_order ?k \<le> ek_order ?l"
      using sorted_nth_mono [OF sorted_sort_key [of ek_order eks], of m n] m(1,2) by simp
    then have "uint (ek_BackendIndex ?l) \<le> uint (ek_BackendIndex ?k)"
      using grp(2) by (simp add: ek_order_def less_eq_prod_def)
    then have "ek_BackendIndex ?l \<le> ek_BackendIndex ?k" by (simp add: word_le_def)
    ultimately have "unat (ek_BackendIndex ?l) < unat (ek_BackendIndex ?k)"
      by (simp add: word_less_nat_alt [symmetric])
    moreover have "0 < unat (ek_BackendIndex ?l)" using assms(2) mem by (simp add: u32_pos_iff)
    ultimately show "j < i" using m(3,4) by (auto simp: key_group_def)
  qed
  note main = this [OF _ _ surjective_pairing surjective_pairing]
  show ?thesis unfolding sorted_wrt_map unfolding sorted_wrt_iff_nth_less case_prod_beta using main by blast
qed

lemma deleteEndpointRecords_groups:
  assumes "table_inv E P" and "\<forall>k \<in> set eks. endpoints (kern E) (bpf P) k \<noteq> None"
  shows "deleteEndpointRecords E eks P = do {
           P1 \<leftarrow> for_each (\<lambda>k. delete_record E (group_key k)) (map key_group (sort_key ek_order eks)) P;
           Some (None, P1) }"
proof -
  have "group_key (key_group k) = k" if "k \<in> set eks" for k
    using table_inv_key [OF assms(1)] assms(2) that by (cases k) (auto simp: key_group_def)
  then have "map (\<lambda>k. group_key (key_group k)) (sort_key ek_order eks) = sort_key ek_order eks"
    by (intro map_idI) simp
  then have "for_each (delete_record E) (sort_key ek_order eks) P =
      for_each (delete_record E) (map group_key (map key_group (sort_key ek_order eks))) P"
    by (simp add: comp_def)
  then show ?thesis unfolding deleteEndpointRecords_def for_each_map by simp
qed

subsection \<open>A small table\<close>

text \<open>One service with two endpoints at priority 0, on the kernel of association lists.\<close>

text \<open>Deleting all indexed keys of a workload.\<close>

lemma delete_own_keys:
  assumes "table_inv E P"
  shows "\<exists>P'. deleteEndpointRecords E (GetEndpointKeys (bpf P) uid) P = Some (None, P') \<and> table_inv E P' \<and>
           (\<forall>s p. mset (proc_groups E P' (s, p)) = filter_mset (\<lambda>u. u \<noteq> uid) (mset (proc_groups E P (s, p)))) \<and>
           (\<forall>k. endpoints (kern E) (bpf P') k \<noteq> Some uid) \<and> GetEndpointKeys (bpf P') uid = []"
proof -
  let ?eks = "GetEndpointKeys (bpf P) uid"
  let ?ks = "map key_group (sort_key ek_order ?eks)"
  have idx: "bpf_index_ok (kern E) (bpf P)" using assms by (simp add: table_inv_def)
  have mem: "k \<in> set ?eks \<longleftrightarrow> endpoints (kern E) (bpf P) k = Some uid" for k
    using index_ok_mem [OF idx] by (simp add: GetEndpointKeys_idx)
  have dist: "distinct ?eks" using index_ok_distinct [OF idx] by (simp add: GetEndpointKeys_idx)
  have "0 < ek_BackendIndex k" if "k \<in> set ?eks" for k
    using safe_keyD [OF table_inv_safe [OF assms], of _ _ _ uid] mem that by (cases k) simp
  then have sorted: "sorted_wrt (\<lambda>(g, i) (h, j). h = g \<longrightarrow> j < i) ?ks" by (intro ek_order_descending [OF dist]) blast
  have occ: "(g, i) \<in> set ?ks \<longleftrightarrow> i < length (proc_groups E P g) \<and> proc_groups E P g ! i = uid" for g i
  proof
    assume "(g, i) \<in> set ?ks"
    then obtain k where "endpoints (kern E) (bpf P) k = Some uid" "key_group k = (g, i)" using mem by auto
    then show "i < length (proc_groups E P g) \<and> proc_groups E P g ! i = uid"
      using table_inv_key [OF assms] by (cases k) (auto simp: key_group_def)
  next
    obtain s p where g: "g = (s, p)" by fastforce
    assume "i < length (proc_groups E P g) \<and> proc_groups E P g ! i = uid"
    then have "endpoints (kern E) (bpf P) (EndpointKey s p (word_of_nat (Suc i))) = Some uid"
      "unat (word_of_nat (Suc i) :: u32) = Suc i"
      using table_inv_slot [OF assms, of i s p] g by auto
    then have "EndpointKey s p (word_of_nat (Suc i)) \<in> set ?eks"
      "key_group (EndpointKey s p (word_of_nat (Suc i))) = (g, i)"
      using mem g by (simp_all add: key_group_def del: of_nat_Suc)
    then show "(g, i) \<in> set ?ks" by (metis image_eqI set_map set_sort)
  qed
  obtain P' where P': "for_each (\<lambda>k. delete_record E (group_key k)) ?ks P = Some P'" "table_inv E P'"
    "\<forall>g. mset (proc_groups E P' g) = filter_mset (\<lambda>y. y \<noteq> uid) (mset (proc_groups E P g))"
    using tables.remove_every_occurrence [OF assms sorted occ] by blast
  have none: "endpoints (kern E) (bpf P') k \<noteq> Some uid" for k
  proof (cases k)
    case (EndpointKey s p i)
    have "uid \<notin> set (proc_groups E P' (s, p))"
      using P'(3) by (metis (mono_tags, lifting) mem_Collect_eq set_mset_filter set_mset_mset)
    then show ?thesis using table_inv_key [OF P'(2)] EndpointKey by (metis nth_mem)
  qed
  have "k \<notin> set (GetEndpointKeys (bpf P') uid)" for k
    using index_ok_mem [of "endpointKeys (bpf P')" "endpoints (kern E) (bpf P')" k uid] none P'(2)
    by (simp add: table_inv_def GetEndpointKeys_idx)
  then have "GetEndpointKeys (bpf P') uid = []" by (metis last_in_set)
  then show ?thesis using P' none deleteEndpointRecords_groups [OF assms, of ?eks] mem by auto
qed

definition ref_env :: "refmaps env" where
  "ref_env = \<lparr>kern = ref_kernel, codec = \<lparr>yaml_marshal = \<lambda>_. '''', yaml_unmarshal = \<lambda>_. (True, [])\<rparr>,
     disk = (\<lambda>_. True), dns = None, restarted = False\<rparr>"

definition empty_processor :: "refmaps Processor" where
  "empty_processor = \<lparr>hashName = empty_hash_name, bpf = NewCache empty_maps, nodeName = ''n1'',
     WorkloadCache = NewWorkloadCache, ServiceCache = NewServiceCache, EndpointCache = NewEndpointCache,
     WaypointCache = NewWaypointCache, locality = NewLocalityCache, once_done = False,
     onWorkloadDeleted = False, events = []\<rparr>"

definition two_endpoints :: "refmaps Processor" where
  "two_endpoints = empty_processor\<lparr>bpf := \<lparr>
     bpfMap = empty_maps\<lparr>
       r_service := [(5, zero_ServiceValue\<lparr>EndpointCount := [2, 0, 0, 0, 0, 0, 0]\<rparr>)],
       r_endpoint := [(EndpointKey 5 0 1, 11), (EndpointKey 5 0 2, 12)]\<rparr>,
     endpointKeys = [11 \<mapsto> [EndpointKey 5 0 1], 12 \<mapsto> [EndpointKey 5 0 2]]\<rparr>\<rparr>"

lemma two_endpoints_maps:
  "services ref_kernel (bpf two_endpoints) = [5 \<mapsto> zero_ServiceValue\<lparr>EndpointCount := [2, 0, 0, 0, 0, 0, 0]\<rparr>]"
  "endpoints ref_kernel (bpf two_endpoints) = [EndpointKey 5 0 1 \<mapsto> 11, EndpointKey 5 0 2 \<mapsto> 12]"
  "endpointKeys (bpf two_endpoints) = [11 \<mapsto> [EndpointKey 5 0 1], 12 \<mapsto> [EndpointKey 5 0 2]]"
  by (simp_all add: two_endpoints_def fun_eq_iff)

lemma two_endpoints_inv: "table_inv ref_env two_endpoints"
proof -
  let ?sv = "zero_ServiceValue\<lparr>EndpointCount := [2, 0, 0, 0, 0, 0, 0]\<rparr>"
  have small: "0 < i \<and> i \<le> 2 \<longleftrightarrow> i = 1 \<or> i = 2" for i :: u32
    by (auto simp: word_less_nat_alt word_le_nat_alt word_unat_eq_iff)
  have zero: "[0, 0, 0, 0, 0, 0 :: u32] ! n = 0" if "n < 6" for n
    using that by (simp add: nth_Cons split: nat.splits)
  have cnt: "EndpointCount ?sv ! unat p = (if p = 0 then 2 else 0)" if "unat p < PrioCount" for p :: u32
  proof (cases "unat p")
    case (Suc m)
    then have "p \<noteq> 0" by auto
    with Suc that zero [of m] show ?thesis by simp
  qed (simp add: unat_eq_0)
  have "(endpoints ref_kernel (bpf two_endpoints) (EndpointKey s p i) \<noteq> None) =
      (\<exists>sv. services ref_kernel (bpf two_endpoints) s = Some sv \<and> unat p < PrioCount \<and> 0 < i \<and>
        i \<le> EndpointCount sv ! unat p)" for s p i
    unfolding two_endpoints_maps using small [of i] cnt [of p] by (auto split: if_splits)
  moreover have "length (EndpointCount sv) = PrioCount"
    if "services ref_kernel (bpf two_endpoints) s = Some sv" for s sv
    using that unfolding two_endpoints_maps by (auto split: if_splits)
  ultimately have "table_ok (view ref_kernel (bpf two_endpoints))"
    unfolding table_ok_def kview_of_sel by blast
  moreover have "bpf_index_ok ref_kernel (bpf two_endpoints)"
    unfolding two_endpoints_maps by (auto simp: index_ok_def idx_def split: if_splits)
  ultimately show ?thesis
    by (simp add: table_inv_def ref_env_def ref_kernel_laws ref_kernel_reliable)
qed

subsection \<open>Properties\<close>

text \<open>
  C7.  Deleting a batch of endpoints never opens a gap.  Whatever keys are given and whichever
  writes the kernel refuses, \<open>deleteEndpointRecords\<close> returns without panic, and in every state
  of the maps that a bpf program can see meanwhile each index from 1 to a group's count leads
  to an endpoint.
\<close>

theorem deleteEndpointRecords_no_gap:
  assumes "kernel_laws (kern E)" and "safe_cache (kern E) (bpf P)"
  shows "\<exists>c' ec h. deleteEndpointRecords E eks P = Some (None, P\<lparr>bpf := c', EndpointCache := ec\<rparr>) \<and>
           safe_cache (kern E) c' \<and> history (kern E) c' = h @ history (kern E) (bpf P) \<and>
           (\<forall>v \<in> set h. no_gap v)"
proof -
  obtain c' ec where r: "for_each (delete_record E) (sort_key ek_order eks) P =
      Some (P\<lparr>bpf := c', EndpointCache := ec\<rparr>)" "gapless (kern E) (bpf P) c'"
    using delete_records_run [OF assms] by blast
  then have "deleteEndpointRecords E eks P = Some (None, P\<lparr>bpf := c', EndpointCache := ec\<rparr>)"
    by (simp add: deleteEndpointRecords_def)
  with r(2) show ?thesis unfolding gapless_def by blast
qed

theorem deleteEndpointRecords_no_gap_witness:
  "kernel_laws (kern ref_env) \<and> safe_cache (kern ref_env) (bpf two_endpoints) \<and>
   (\<exists>c' ec h. deleteEndpointRecords ref_env [EndpointKey 5 0 1, EndpointKey 6 0 3] two_endpoints =
       Some (None, two_endpoints\<lparr>bpf := c', EndpointCache := ec\<rparr>) \<and>
      history (kern ref_env) c' = h @ history (kern ref_env) (bpf two_endpoints) \<and> (\<forall>v \<in> set h. no_gap v))"
proof -
  have "kernel_laws (kern ref_env)" "safe_cache (kern ref_env) (bpf two_endpoints)"
    using two_endpoints_inv table_inv_safe by (auto simp: table_inv_def)
  with deleteEndpointRecords_no_gap [OF this, of "[EndpointKey 5 0 1, EndpointKey 6 0 3]"]
  show ?thesis by blast
qed

text \<open>
  C29.  Adding a workload to a service appends it to the group of its priority and changes no
  other group; the table stays exact.  With a kernel that refuses writes it still opens no gap.
\<close>

theorem addWorkloadToService_appends:
  assumes "kernel_laws (kern E)" and "safe_cache (kern E) (bpf P)"
    and "services (kern E) (bpf P) s = Some sv" and "unat p < PrioCount"
    and "EndpointCount sv ! unat p \<noteq> max_u32"
  shows "\<exists>ek e P' h. addWorkloadToService E s sv uid p P = Some ((ek, e), P') \<and>
           history (kern E) (bpf P') = h @ history (kern E) (bpf P) \<and> (\<forall>v \<in> set h. no_gap v) \<and>
           (table_inv E P \<longrightarrow> e = None \<and> table_inv E P' \<and>
              proc_groups E P' = (proc_groups E P)((s, p) := proc_groups E P (s, p) @ [uid]))"
proof -
  obtain ek e c' ec where r: "addWorkloadToService E s sv uid p P = Some ((ek, e), P\<lparr>bpf := c', EndpointCache := ec\<rparr>)"
    "gapless (kern E) (bpf P) c'"
    "e = None \<longrightarrow> view (kern E) c' = add_view s p uid (view (kern E) (bpf P)) \<and>
       (bpf_index_ok (kern E) (bpf P) \<longrightarrow> table_ok (view (kern E) (bpf P)) \<longrightarrow> bpf_index_ok (kern E) c')"
    "kernel_reliable (kern E) \<longrightarrow> e = None"
    using addWorkloadToService_run [OF assms] by blast
  let ?P = "P\<lparr>bpf := c', EndpointCache := ec\<rparr>"
  have "e = None \<and> table_inv E ?P \<and>
      proc_groups E ?P = (proc_groups E P)((s, p) := proc_groups E P (s, p) @ [uid])" if i: "table_inv E P"
  proof -
    have e: "e = None" using r(4) i by (simp add: table_inv_def)
    have sv: "v_service (view (kern E) (bpf P)) s = Some sv" using assms(3) by simp
    have t: "table_ok (view (kern E) (bpf P))" using i by (simp add: table_inv_def)
    have len: "length (EndpointCount sv) = PrioCount" using safe_lenD [OF assms(2)] assms(3) by simp
    show ?thesis
      using r(3) e i table_ok_add_view [OF t sv assms(4,5), of uid] groups_add_view [OF sv len assms(4,5), of uid]
      by (simp add: table_inv_def)
  qed
  then show ?thesis using r(1,2) unfolding gapless_def by auto
qed

theorem addWorkloadToService_appends_witness:
  "\<exists>ek P'. addWorkloadToService ref_env 5 (zero_ServiceValue\<lparr>EndpointCount := [2, 0, 0, 0, 0, 0, 0]\<rparr>) 13 0 two_endpoints =
     Some ((ek, None), P') \<and> table_inv ref_env P' \<and>
     proc_groups ref_env P' (5, 0) = proc_groups ref_env two_endpoints (5, 0) @ [13]"
proof -
  let ?sv = "zero_ServiceValue\<lparr>EndpointCount := [2, 0, 0, 0, 0, 0, 0]\<rparr>"
  have "kernel_laws (kern ref_env)" "safe_cache (kern ref_env) (bpf two_endpoints)"
    using two_endpoints_inv table_inv_safe by (auto simp: table_inv_def)
  moreover have "services (kern ref_env) (bpf two_endpoints) 5 = Some ?sv"
    by (simp add: ref_env_def two_endpoints_def)
  ultimately show ?thesis
    using addWorkloadToService_appends [of ref_env two_endpoints 5 ?sv 0 13] two_endpoints_inv by auto
qed

text \<open>
  C13.  \<open>deleteEndpointRecords\<close> refines multiset removal: for distinct keys that are in the map,
  each group loses exactly the backends that its keys held when the call started, although
  every single deletion moves another endpoint; the table stays exact.
\<close>

theorem deleteEndpointRecords_refines:
  assumes "table_inv E P" and "distinct eks"
    and "\<forall>k \<in> set eks. endpoints (kern E) (bpf P) k \<noteq> None"
  shows "\<exists>P'. deleteEndpointRecords E eks P = Some (None, P') \<and> table_inv E P' \<and>
           (\<forall>s p. mset (proc_groups E P' (s, p)) = mset (proc_groups E P (s, p)) -
              mset (map (\<lambda>k. the (endpoints (kern E) (bpf P) k))
                        (filter (\<lambda>k. ek_ServiceId k = s \<and> ek_Prio k = p) eks)))"
proof -
  let ?ks = "map key_group (sort_key ek_order eks)"
  have key: "unat (ek_BackendIndex k) - 1 < length (proc_groups E P (ek_ServiceId k, ek_Prio k)) \<and>
      proc_groups E P (ek_ServiceId k, ek_Prio k) ! (unat (ek_BackendIndex k) - 1) = the (endpoints (kern E) (bpf P) k)"
    if "k \<in> set eks" for k
    using table_inv_key [OF assms(1)] assms(3) that by (cases k) fastforce
  have "\<forall>k \<in> set eks. 0 < ek_BackendIndex k"
  proof
    fix k assume "k \<in> set eks"
    then obtain u where "endpoints (kern E) (bpf P) k = Some u" using assms(3) by blast
    with safe_keyD [OF table_inv_safe [OF assms(1)], of _ _ _ u] show "0 < ek_BackendIndex k" by (cases k) simp
  qed
  then have sorted: "sorted_wrt (\<lambda>(g, i) (h, j). h = g \<longrightarrow> j < i) ?ks" by (rule ek_order_descending [OF assms(2)])
  have valid: "\<forall>(g, i) \<in> set ?ks. i < length (proc_groups E P g)" using key by (auto simp: key_group_def)
  obtain P' where P': "for_each (\<lambda>k. delete_record E (group_key k)) ?ks P = Some P'" "table_inv E P'"
    "\<forall>g. mset (proc_groups E P' g) = mset (proc_groups E P g) - tables.held E P ?ks g"
    using tables.remove_all_ok [OF assms(1) valid sorted] by blast
  have "tables.held E P ?ks (s, p) = mset (map (\<lambda>k. the (endpoints (kern E) (bpf P) k))
      (filter (\<lambda>k. ek_ServiceId k = s \<and> ek_Prio k = p) eks))" for s p
  proof -
    have "tables.held E P ?ks (s, p) = mset (map (\<lambda>k. proc_groups E P (ek_ServiceId k, ek_Prio k) ! (unat (ek_BackendIndex k) - 1))
        (filter (\<lambda>k. ek_ServiceId k = s \<and> ek_Prio k = p) (sort_key ek_order eks)))"
      by (simp add: tables.held_def filter_map comp_def key_group_def)
    also have "\<dots> = mset (map (\<lambda>k. the (endpoints (kern E) (bpf P) k))
        (filter (\<lambda>k. ek_ServiceId k = s \<and> ek_Prio k = p) (sort_key ek_order eks)))"
      using key by (intro arg_cong [where f = mset] map_cong) auto
    finally show ?thesis by (simp add: mset_map mset_filter)
  qed
  then show ?thesis using P' deleteEndpointRecords_groups [OF assms(1,3)] by auto
qed

theorem deleteEndpointRecords_refines_witness:
  "\<exists>P'. deleteEndpointRecords ref_env [EndpointKey 5 0 1] two_endpoints = Some (None, P') \<and>
     mset (proc_groups ref_env P' (5, 0)) = mset (proc_groups ref_env two_endpoints (5, 0)) - {# 11 #}"
proof -
  have "\<forall>k \<in> set [EndpointKey 5 0 1]. endpoints (kern ref_env) (bpf two_endpoints) k \<noteq> None"
    by (simp add: ref_env_def two_endpoints_def)
  moreover have "the (endpoints (kern ref_env) (bpf two_endpoints) (EndpointKey 5 0 1)) = 11"
    by (simp add: ref_env_def two_endpoints_def)
  ultimately show ?thesis
    using deleteEndpointRecords_refines [OF two_endpoints_inv, of "[EndpointKey 5 0 1]"] by fastforce
qed

text \<open>
  Deleting the indexed endpoint keys of a workload, as the processor does when a workload
  is removed or becomes unhealthy, leaves no endpoint of it at any service or priority, keeps
  every endpoint of the others, and empties its index entry.
\<close>

theorem workload_endpoints_removed:
  assumes "table_inv E P"
  shows "\<exists>P'. deleteEndpointRecords E (GetEndpointKeys (bpf P) uid) P = Some (None, P') \<and> table_inv E P' \<and>
           (\<forall>s p. mset (proc_groups E P' (s, p)) = filter_mset (\<lambda>u. u \<noteq> uid) (mset (proc_groups E P (s, p)))) \<and>
           (\<forall>k. endpoints (kern E) (bpf P') k \<noteq> Some uid) \<and> GetEndpointKeys (bpf P') uid = []"
  by (rule delete_own_keys [OF assms])

theorem workload_endpoints_removed_witness:
  "table_inv ref_env two_endpoints \<and>
   (\<exists>P'. deleteEndpointRecords ref_env (GetEndpointKeys (bpf two_endpoints) 11) two_endpoints = Some (None, P') \<and>
     mset (proc_groups ref_env P' (5, 0)) = filter_mset (\<lambda>u. u \<noteq> 11) (mset (proc_groups ref_env two_endpoints (5, 0))) \<and>
     GetEndpointKeys (bpf P') 11 = [])"
  using two_endpoints_inv workload_endpoints_removed [OF two_endpoints_inv, of 11] by blast

end
