(* ===== verification/Workload_Processor.thy ===== *)
theory Workload_Processor
  imports Endpoint_Table
begin

text \<open>
  The handlers of \<open>workload_processor.go\<close> for workloads: what an added, updated, unhealthy or
  removed workload does to the frontend, backend, endpoint, service and policy maps.  A handler
  returns the Go error (\<open>None\<close> for nil) and the new processor; the outer option is \<open>None\<close> when
  the code panics.  Errors the code logs and ignores are dropped here too.
\<close>

subsection \<open>Frontend map\<close>

definition deletePodFrontendData :: "'m env \<Rightarrow> u32 \<Rightarrow> 'm Processor \<Rightarrow> go_err option \<times> 'm Processor" where
  "deletePodFrontendData E uid p =
     (case BackendLookup (kern E) uid (bpf p) of
        Inr bv \<Rightarrow> on_bpf (FrontendDelete (kern E) (bv_Ip bv)) p
      | Inl _ \<Rightarrow> (None, p))"

definition storePodFrontendData :: "'m env \<Rightarrow> u32 \<Rightarrow> bytes \<Rightarrow> 'm Processor \<Rightarrow> go_err option \<times> 'm Processor" where
  "storePodFrontendData E uid ip p =
     (case on_bpf (FrontendUpdate (kern E) (CopyIpByteFromSlice zero_ip ip) uid) p of
        (Some err, p1) \<Rightarrow> (Some (GoWrap ''update frontend map failed, err:'' err), p1)
      | (None, p1) \<Rightarrow> (None, p1))"

text \<open>The key variable is reused: a 4-byte address keeps the tail of the one before it.\<close>

fun delete_frontends :: "'m env \<Rightarrow> bytes \<Rightarrow> bytes list \<Rightarrow> 'm Processor \<Rightarrow> go_err option \<times> 'm Processor" where
  "delete_frontends E frontKey [] p = (None, p)"
| "delete_frontends E frontKey (address # rest) p =
     (let key = CopyIpByteFromSlice frontKey address in
      case on_bpf (FrontendDelete (kern E) key) p of
        (Some err, p1) \<Rightarrow> (Some err, p1)
      | (None, p1) \<Rightarrow> delete_frontends E key rest p1)"

definition deleteFrontendByIp :: "'m env \<Rightarrow> bytes list \<Rightarrow> 'm Processor \<Rightarrow> go_err option \<times> 'm Processor" where
  "deleteFrontendByIp E addresses p = delete_frontends E zero_ip addresses p"

definition getServiceByAddress :: "'m Processor \<Rightarrow> bytes \<Rightarrow> Service option" where
  "getServiceByAddress p address = GetServiceByIP (ServiceCache p) (AddrFromSlice address)"

fun store_frontends :: "'m env \<Rightarrow> u32 \<Rightarrow> bytes list \<Rightarrow> 'm Processor \<Rightarrow> go_err option \<times> 'm Processor" where
  "store_frontends E backendUid [] p = (None, p)"
| "store_frontends E backendUid (ip # rest) p =
     (if getServiceByAddress p ip \<noteq> None then store_frontends E backendUid rest p
      else case storePodFrontendData E backendUid ip p of
        (Some err, p1) \<Rightarrow> (Some (GoWrap ''storePodFrontendData failed, err:'' err), p1)
      | (None, p1) \<Rightarrow> store_frontends E backendUid rest p1)"

definition updateWorkloadInFrontendMap :: "'m env \<Rightarrow> Workload \<Rightarrow> 'm Processor \<Rightarrow> go_err option \<times> 'm Processor" where
  "updateWorkloadInFrontendMap E workload p =
     (if wl_network_mode workload = HOST_NETWORK then (None, p)
      else (let (backendUid, p1) = p_Hash E (wl_uid workload) p in
            store_frontends E backendUid (wl_addresses workload) p1))"

subsection \<open>Backend map\<close>

fun fill_services :: "'m env \<Rightarrow> string list \<Rightarrow> BackendValue \<Rightarrow> 'm Processor \<Rightarrow> (BackendValue \<times> 'm Processor) option" where
  "fill_services E [] bv p = Some (bv, p)"
| "fill_services E (serviceName # rest) bv p =
     (let (num, p1) = p_Hash E serviceName p in do {
        svcs \<leftarrow> arr_set (bv_Services bv) (unat (bv_ServiceCount bv)) num;
        let bv1 = bv\<lparr>bv_Services := svcs, bv_ServiceCount := bv_ServiceCount bv + 1\<rparr>;
        (if bv_ServiceCount bv1 \<ge> word_of_nat MaxServiceNum then Some (bv1, p1)
         else fill_services E rest bv1 p1) })"

fun store_backends :: "'m env \<Rightarrow> u32 \<Rightarrow> BackendValue \<Rightarrow> bytes list \<Rightarrow> 'm Processor \<Rightarrow> go_err option \<times> 'm Processor" where
  "store_backends E backendUid bv [] p = (None, p)"
| "store_backends E backendUid bv (ip # rest) p =
     (let bv1 = bv\<lparr>bv_Ip := CopyIpByteFromSlice (bv_Ip bv) ip\<rparr> in
      case on_bpf (BackendUpdate (kern E) backendUid bv1) p of
        (Some err, p1) \<Rightarrow> (Some err, p1)
      | (None, p1) \<Rightarrow> store_backends E backendUid bv1 rest p1)"

definition updateWorkloadInBackendMap :: "'m env \<Rightarrow> Workload \<Rightarrow> 'm Processor \<Rightarrow> (go_err option \<times> 'm Processor) option" where
  "updateWorkloadInBackendMap E workload p =
     (let (backendUid, p1) = p_Hash E (wl_uid workload) p;
          bv = (case wl_waypoint workload of
                  None \<Rightarrow> zero_BackendValue
                | Some wp \<Rightarrow>
                    (case gw_address wp of
                       None \<Rightarrow> zero_BackendValue
                     | Some a \<Rightarrow> zero_BackendValue\<lparr>
                         bv_WaypointAddr := CopyIpByteFromSlice (bv_WaypointAddr zero_BackendValue) (na_address a),
                         bv_WaypointPort := ConvertPortToBigEndian (gw_hbone_mtls_port wp)\<rparr>))
      in do {
        (bv1, p2) \<leftarrow> fill_services E (map fst (wl_services workload)) bv p1;
        Some (store_backends E backendUid bv1 (wl_addresses workload) p2) })"

subsection \<open>Workload policies\<close>

fun hash_policies :: "'m env \<Rightarrow> nat \<Rightarrow> string list \<Rightarrow> u32 list \<Rightarrow> 'm Processor \<Rightarrow> (u32 list \<times> 'm Processor) option" where
  "hash_policies E i [] value p = Some (value, p)"
| "hash_policies E i (v # rest) value p =
     (if i < length value then
        (let (num, p1) = p_Hash E v p in do {
           value1 \<leftarrow> arr_set value i num;
           hash_policies E (i + 1) rest value1 p1 })
      else Some (value, p))"

definition storeWorkloadPolicies :: "'m env \<Rightarrow> string \<Rightarrow> string list \<Rightarrow> 'm Processor \<Rightarrow> 'm Processor option" where
  "storeWorkloadPolicies E uid polices p =
     (if polices = [] then Some p
      else (let (key, p1) = p_Hash E uid p in do {
        (value, p2) \<leftarrow> hash_policies E 0 polices (replicate 4 0) p1;
        Some (snd (on_bpf (WorkloadPolicyUpdate (kern E) key value) p2)) }))"

definition deleteWorkloadPolicies :: "'m env \<Rightarrow> u32 \<Rightarrow> 'm Processor \<Rightarrow> 'm Processor" where
  "deleteWorkloadPolicies E uid p = snd (on_bpf (WorkloadPolicyDelete (kern E) uid) p)"

subsection \<open>Services of a workload\<close>

text \<open>
  \<open>compareWorkloadServices\<close>: the ids of the workload's services, then one pass over its
  endpoint keys; a service id is dropped from the set when its first key is met.
\<close>

fun hash_services :: "'m env \<Rightarrow> string list \<Rightarrow> u32 list \<Rightarrow> 'm Processor \<Rightarrow> u32 list \<times> 'm Processor" where
  "hash_services E [] acc p = (acc, p)"
| "hash_services E (svcKey # rest) acc p =
     (let (num, p1) = p_Hash E svcKey p in hash_services E rest (set_ins num acc) p1)"

fun compare_keys :: "EndpointKey list \<Rightarrow> u32 list \<Rightarrow> EndpointKey list \<times> u32 list" where
  "compare_keys [] allServices = ([], allServices)"
| "compare_keys (ek # rest) allServices =
     (let (unbound, new) = compare_keys rest (set_del (ek_ServiceId ek) allServices) in
      (if ek_ServiceId ek \<notin> set allServices then ek # unbound else unbound, new))"

definition compareWorkloadServices :: "'m env \<Rightarrow> Workload \<Rightarrow> 'm Processor \<Rightarrow>
    (EndpointKey list \<times> u32 list) \<times> 'm Processor" where
  "compareWorkloadServices E workload p =
     (let (workloadUid, p1) = p_Hash E (wl_uid workload) p;
          (allServices, p2) = hash_services E (map fst (wl_services workload)) [] p1
      in (compare_keys (GetEndpointKeys (bpf p2) workloadUid) allServices, p2))"

definition handleWorkloadUnboundServices :: "'m env \<Rightarrow> Workload \<Rightarrow> EndpointKey list \<Rightarrow> 'm Processor \<Rightarrow>
    (go_err option \<times> 'm Processor) option" where
  "handleWorkloadUnboundServices E workload eks p = deleteEndpointRecords E eks p"

text \<open>One round of the loop of \<open>handleWorkloadNewBoundServices\<close>.\<close>

definition bind_service :: "'m env \<Rightarrow> Workload \<Rightarrow> u32 \<Rightarrow> u32 \<Rightarrow> 'm Processor \<Rightarrow> (go_err option \<times> 'm Processor) option" where
  "bind_service E workload workloadId svcUid p =
     (case ServiceLookup (kern E) svcUid (bpf p) of
        Inl _ \<Rightarrow> Some (None, p)
      | Inr sv \<Rightarrow>
          if LbPolicy sv = UNSPECIFIED_MODE then do {
            ((ek, e), p1) \<leftarrow> addWorkloadToService E svcUid sv workloadId 0 p;
            Some (e, p1) }
          else (case GetService (ServiceCache p) (NumToStr (hashName p) svcUid) of
            None \<Rightarrow> Some (None, p)
          | Some service \<Rightarrow> do {
              prio \<leftarrow> (if locality p \<noteq> None
                       then CalcLocalityLBPrio (locality p) (Some workload)
                              (GetRoutingPreference (svc_load_balancing service))
                       else Some 0);
              ((ek, e), p1) \<leftarrow> addWorkloadToService E svcUid sv workloadId prio p;
              Some (e, p1) }))"

definition handleWorkloadNewBoundServices :: "'m env \<Rightarrow> Workload \<Rightarrow> u32 list \<Rightarrow> 'm Processor \<Rightarrow>
    (go_err option \<times> 'm Processor) option" where
  "handleWorkloadNewBoundServices E workload newServices p =
     (if newServices = [] then Some (None, p)
      else (let (workloadId, p1) = p_Hash E (wl_uid workload) p in
            for_each_err (bind_service E workload workloadId) newServices p1))"

subsection \<open>Handling and removing a workload\<close>

definition handleUnhealthyWorkload :: "'m env \<Rightarrow> Workload \<Rightarrow> 'm Processor \<Rightarrow> (go_err option \<times> 'm Processor) option" where
  "handleUnhealthyWorkload E workload p =
     (let (backendUid, p1) = p_Hash E (wl_uid workload) p;
          eks = GetEndpointKeys (bpf p1) backendUid
      in if eks = [] then Some (None, p1)
         else do {
           (e, p2) \<leftarrow> deleteEndpointRecords E eks p1;
           Some (map_option (GoWrap (''handleUnhealthyWorkload: deleteEndpointRecords for '' @ wl_uid workload @ '' failed: '')) e, p2) })"

definition set_node_locality :: "Workload \<Rightarrow> 'm Processor \<Rightarrow> 'm Processor" where
  "set_node_locality workload p =
     (if locality p = None \<and> nodeName p = wl_node workload
      then p\<lparr>locality := SetLocality (nodeName p) (wl_cluster_id workload) (wl_network workload)
              (wl_locality workload) (locality p)\<rparr>
      else p)"

text \<open>The residue of an address change, the last step of \<open>handleWorkload\<close>.\<close>

definition delete_old_frontend :: "'m env \<Rightarrow> Workload option \<Rightarrow> Workload \<Rightarrow> 'm Processor \<Rightarrow> go_err option \<times> 'm Processor" where
  "delete_old_frontend E oldWorkload workload p =
     (case oldWorkload of
        None \<Rightarrow> (None, p)
      | Some old \<Rightarrow>
          (case (wl_addresses workload, wl_addresses old) of
             (a # _, b # _) \<Rightarrow>
               if a \<noteq> b then
                 (case deleteFrontendByIp E (wl_addresses old) p of
                    (Some err, p1) \<Rightarrow> (Some (GoWrap ''frontend map delete failed: '' err), p1)
                  | (None, p1) \<Rightarrow> (None, p1))
               else (None, p)
           | _ \<Rightarrow> (None, p)))"

definition fail_with :: "string \<Rightarrow> (go_err option \<times> 's) \<Rightarrow> ('s \<Rightarrow> (go_err option \<times> 's) option) \<Rightarrow> (go_err option \<times> 's) option" where
  "fail_with msg r k = (case r of (Some err, s) \<Rightarrow> Some (Some (GoWrap msg err), s) | (None, s) \<Rightarrow> k s)"

text \<open>The healthy part of \<open>handleWorkload\<close>, from the backend map on.\<close>

definition store_healthy :: "'m env \<Rightarrow> Workload option \<Rightarrow> Workload \<Rightarrow> 'm Processor \<Rightarrow> (go_err option \<times> 'm Processor) option" where
  "store_healthy E oldWorkload workload p3 = do {
     r1 \<leftarrow> updateWorkloadInBackendMap E workload p3;
     fail_with (''updateWorkloadInBackendMap '' @ wl_uid workload @ '' failed: '') r1 (\<lambda>p4. do {
       let ((unbound, new), p5) = compareWorkloadServices E workload p4;
       r2 \<leftarrow> handleWorkloadUnboundServices E workload unbound p5;
       fail_with (''handleWorkloadUnboundServices '' @ wl_uid workload @ '' failed: '') r2 (\<lambda>p6. do {
         r3 \<leftarrow> handleWorkloadNewBoundServices E workload new p6;
         fail_with (''handleWorkloadNewBoundServices '' @ wl_uid workload @ '' failed: '') r3 (\<lambda>p7.
           fail_with (''updateWorkloadInFrontendMap '' @ wl_uid workload @ '' failed: '')
             (updateWorkloadInFrontendMap E workload p7)
             (\<lambda>p8. Some (delete_old_frontend E oldWorkload workload p8))) }) }) }"

definition handleWorkload :: "'m env \<Rightarrow> Workload \<Rightarrow> 'm Processor \<Rightarrow> (go_err option \<times> 'm Processor) option" where
  "handleWorkload E workload0 p = do {
     ((resolved, workload), w) \<leftarrow> wp_AddOrUpdateWorkload (ServiceCache p) (WaypointCache p) workload0;
     let p0 = p\<lparr>WaypointCache := w\<rparr>;
     (if \<not> resolved then Some (None, p0)
      else do {
        let oldWorkload = GetWorkloadByUid (WorkloadCache p0) (wl_uid workload);
        let p1 = p0\<lparr>WorkloadCache := AddOrUpdateWorkload (WorkloadCache p0) workload\<rparr>;
        p2 \<leftarrow> (if nodeName p1 = wl_node workload
               then storeWorkloadPolicies E (wl_uid workload) (wl_authorization_policies workload) p1
               else Some p1);
        let p3 = set_node_locality workload p2;
        (if wl_status workload = UNHEALTHY then handleUnhealthyWorkload E workload p3
         else store_healthy E oldWorkload workload p3) }) }"

definition removeWorkloadFromBpfMap :: "'m env \<Rightarrow> Workload \<Rightarrow> 'm Processor \<Rightarrow> (go_err option \<times> 'm Processor) option" where
  "removeWorkloadFromBpfMap E workload p =
     (let (backendUid, p0) = p_Hash E (wl_uid workload) p in
      case deletePodFrontendData E backendUid p0 of
        (Some err, p1) \<Rightarrow> Some (Some err, p1)
      | (None, p1) \<Rightarrow> do {
          (e2, p2) \<leftarrow> (let eks = GetEndpointKeys (bpf p1) backendUid in
                       if eks = [] then Some (None, p1) else deleteEndpointRecords E eks p1);
          (case e2 of
             Some err \<Rightarrow> Some (Some err, p2)
           | None \<Rightarrow>
               (case on_bpf (BackendDelete (kern E) backendUid) p2 of
                  (Some err, p3) \<Rightarrow> Some (Some err, p3)
                | (None, p3) \<Rightarrow>
                    (let p4 = (if wl_node workload = nodeName p3 then deleteWorkloadPolicies E backendUid p3 else p3)
                     in Some (None, p_HashDelete E (wl_uid workload) p4)))) })"

definition removeWorkload :: "'m env \<Rightarrow> string \<Rightarrow> 'm Processor \<Rightarrow> (go_err option \<times> 'm Processor) option" where
  "removeWorkload E uid p =
     (let p0 = p\<lparr>WaypointCache := wp_DeleteWorkload (WaypointCache p) uid\<rparr> in
      case GetWorkloadByUid (WorkloadCache p0) uid of
        None \<Rightarrow> Some (None, p0)
      | Some wl \<Rightarrow>
          (let p1 = (if onWorkloadDeleted p0 \<and> wl_name wl \<noteq> ''''
                     then p0\<lparr>events := events p0 @ [WorkloadDeleted (wl_name wl)]\<rparr> else p0);
               p2 = p1\<lparr>WorkloadCache := DeleteWorkload (WorkloadCache p1) uid,
                       events := events p1 @ [WorkloadMetricDeleted (wl_uid wl)]\<rparr>
           in removeWorkloadFromBpfMap E wl p2))"

definition removeWorkloadResources :: "'m env \<Rightarrow> string list \<Rightarrow> 'm Processor \<Rightarrow> 'm Processor option" where
  "removeWorkloadResources E removedResources p =
     for_each (\<lambda>uid p. do { (e, p1) \<leftarrow> removeWorkload E uid p; Some p1 }) removedResources p"

subsection \<open>Registration of the daemon for the DNS proxy\<close>

text \<open>
  \<open>PrepareDNSProxy\<close> and \<open>Close\<close>; the address of the daemon comes from the environment, already
  parsed (an address that does not parse panics, which is \<open>Some None\<close> here).
\<close>

definition PrepareDNSProxy :: "'m env \<Rightarrow> bool \<Rightarrow> bytes option option \<Rightarrow> 'm Processor \<Rightarrow> (go_err option \<times> 'm Processor) option" where
  "PrepareDNSProxy E EnableDNSProxy podIp p =
     (if \<not> EnableDNSProxy then Some (on_bpf (BackendDelete (kern E) 0) p)
      else case podIp of
        None \<Rightarrow> Some (Some (GoErr ''ip of kmesh daemon is not set''), p)
      | Some None \<Rightarrow> None
      | Some (Some ip) \<Rightarrow>
          Some (on_bpf (BackendUpdate (kern E) 0
                  (zero_BackendValue\<lparr>bv_Ip := CopyIpByteFromSlice zero_ip ip\<rparr>)) p))"

definition Close_processor :: "'m env \<Rightarrow> 'm Processor \<Rightarrow> go_err option \<times> 'm Processor" where
  "Close_processor E p = on_bpf (BackendDelete (kern E) 0) p"

end
