(* ===== verification/Service_Processor.thy ===== *)
theory Service_Processor
  imports Workload_Processor
begin

text \<open>
  The handlers of \<open>workload_processor.go\<close> for services, the batches that combine services and
  workloads, and the cleanup after a restart.
\<close>

subsection \<open>Frontend map\<close>

fun delete_addresses :: "'m env \<Rightarrow> bytes \<Rightarrow> NetworkAddress list \<Rightarrow> 'm Processor \<Rightarrow> 'm Processor" where
  "delete_addresses E fk [] p = p"
| "delete_addresses E fk (networkAddress # rest) p =
     (let key = CopyIpByteFromSlice fk (na_address networkAddress) in
      delete_addresses E key rest (snd (on_bpf (FrontendDelete (kern E) key) p)))"

definition deleteServiceFrontendData :: "'m env \<Rightarrow> Service option \<Rightarrow> u32 \<Rightarrow> 'm Processor \<Rightarrow>
    (go_err option \<times> 'm Processor) option" where
  "deleteServiceFrontendData E service sid p =
     (case service of
        Some svc \<Rightarrow> Some (None, delete_addresses E zero_ip (svc_addresses svc) p)
      | None \<Rightarrow> for_each_err (\<lambda>fk p. Some (on_bpf (FrontendDelete (kern E) fk) p))
                  (FrontendIterFindKey (kern E) sid (bpf p)) p)"

fun update_frontends :: "'m env \<Rightarrow> u32 \<Rightarrow> bytes \<Rightarrow> NetworkAddress list \<Rightarrow> 'm Processor \<Rightarrow> go_err option \<times> 'm Processor" where
  "update_frontends E serviceId fk [] p = (None, p)"
| "update_frontends E serviceId fk (networkAddress # rest) p =
     (let key = CopyIpByteFromSlice fk (na_address networkAddress) in
      case on_bpf (FrontendUpdate (kern E) key serviceId) p of
        (Some err, p1) \<Rightarrow> (Some err, p1)
      | (None, p1) \<Rightarrow> update_frontends E serviceId key rest p1)"

definition updateServiceFrontendMap :: "'m env \<Rightarrow> u32 \<Rightarrow> Service \<Rightarrow> 'm Processor \<Rightarrow> go_err option \<times> 'm Processor" where
  "updateServiceFrontendMap E serviceId service p =
     update_frontends E serviceId zero_ip (svc_addresses service) p"

subsection \<open>Removing a service\<close>

text \<open>
  The loop over one priority: the indices 1 to the count, in 32-bit arithmetic.  At the largest
  count the loop variable wraps around and the loop does not end.
\<close>

definition delete_priority :: "'m env \<Rightarrow> u32 \<Rightarrow> ServiceValue \<Rightarrow> nat \<Rightarrow> 'm Processor \<Rightarrow> 'm Processor option" where
  "delete_priority E serviceId svDelete j p = do {
     n \<leftarrow> arr_get (EndpointCount svDelete) j;
     (if n = max_u32 then None
      else for_each (\<lambda>i p. Some (snd (on_bpf (EndpointDelete (kern E)
                        (EndpointKey serviceId (word_of_nat j) (word_of_nat i))) p)))
             [1..<Suc (unat n)] p) }"

definition removeServiceResourceFromBpfMap :: "'m env \<Rightarrow> Service option \<Rightarrow> string \<Rightarrow> 'm Processor \<Rightarrow>
    (go_err option \<times> 'm Processor) option" where
  "removeServiceResourceFromBpfMap E svc name p =
     (let (serviceId, p0) = p_Hash E name p in do {
        p3 \<leftarrow> (case ServiceLookup (kern E) serviceId (bpf p0) of
                 Inl _ \<Rightarrow> Some p0
               | Inr svDelete \<Rightarrow> do {
                   (e, p1) \<leftarrow> deleteServiceFrontendData E svc serviceId p0;
                   let p2 = snd (on_bpf (ServiceDelete (kern E) serviceId) p1);
                   for_each (delete_priority E serviceId svDelete) [0..<PrioCount] p2 });
        let p4 = p3\<lparr>EndpointCache := DeleteEndpointByServiceId serviceId (EndpointCache p3)\<rparr>;
        Some (None, p_HashDelete E name p4) })"

definition remove_service :: "'m env \<Rightarrow> string \<Rightarrow> 'm Processor \<Rightarrow> 'm Processor option" where
  "remove_service E name p = do {
     let svc = GetService (ServiceCache p) name;
     let p1 = p\<lparr>WaypointCache := wp_DeleteService (WaypointCache p) name,
                events := events p @ [ServiceMetricDeleted name],
                ServiceCache := DeleteService (ServiceCache p) name\<rparr>;
     (e, p2) \<leftarrow> removeServiceResourceFromBpfMap E svc name p1;
     Some p2 }"

definition removeServiceResources :: "'m env \<Rightarrow> string list \<Rightarrow> 'm Processor \<Rightarrow> 'm Processor option" where
  "removeServiceResources E resources p = for_each (remove_service E) resources p"

subsection \<open>Moving endpoints between priorities\<close>

definition ep_order :: "Endpoint \<Rightarrow> int \<times> int" where
  "ep_order e = (- uint (ep_Prio e), - uint (ep_BackendIndex e))"

text \<open>One round of \<open>updateEndpointOneByOne\<close>; the service is nil when it is not in the cache.\<close>

definition move_endpoint :: "'m env \<Rightarrow> u32 \<Rightarrow> Service option \<Rightarrow> bool \<Rightarrow> Endpoint \<Rightarrow> 'm Processor \<Rightarrow>
    (go_err option \<times> 'm Processor) option" where
  "move_endpoint E serviceId service toLLb ep p =
     (let ek = EndpointKey (ep_ServiceId ep) (ep_Prio ep) (ep_BackendIndex ep) in
      case EndpointLookup (kern E) ek (bpf p) of
        Inl err \<Rightarrow> Some (Some (GoWrap ''lookup endpoint failed: '' err), p)
      | Inr ev \<Rightarrow> do {
          prio \<leftarrow> (if toLLb then do {
                     svc \<leftarrow> service;
                     CalcLocalityLBPrio (locality p) (GetWorkloadByUid (WorkloadCache p) (NumToStr (hashName p) ev))
                       (GetRoutingPreference (svc_load_balancing svc)) }
                   else Some 0);
          (if ek_Prio ek = prio then Some (None, p)
           else case ServiceLookup (kern E) serviceId (bpf p) of
             Inl err \<Rightarrow> Some (Some (GoWrap ''lookup service failed: '' err), p)
           | Inr sValue \<Rightarrow> do {
               ((k, e), p1) \<leftarrow> addWorkloadToService E serviceId sValue ev prio p;
               (case e of
                  Some err \<Rightarrow> Some (Some (GoWrap ''update endpoint priority failed: '' err), p1)
                | None \<Rightarrow> do {
                    (e2, p2) \<leftarrow> deleteEndpointRecords E [ek] p1;
                    Some (map_option (GoWrap ''delete endpoint from old priority group failed: '') e2, p2) }) }) })"

definition updateEndpointOneByOne :: "'m env \<Rightarrow> u32 \<Rightarrow> Endpoint list \<Rightarrow> bool \<Rightarrow> 'm Processor \<Rightarrow>
    (go_err option \<times> 'm Processor) option" where
  "updateEndpointOneByOne E serviceId epsUpdate toLLb p =
     (if epsUpdate = [] then Some (None, p)
      else (let service = GetService (ServiceCache p) (NumToStr (hashName p) serviceId) in
            for_each_err (move_endpoint E serviceId service toLLb) (sort_key ep_order epsUpdate) p))"

definition updateEndpointPriority :: "'m env \<Rightarrow> u32 \<Rightarrow> bool \<Rightarrow> 'm Processor \<Rightarrow> (go_err option \<times> 'm Processor) option" where
  "updateEndpointPriority E serviceId toLLb p =
     (let endpointSlice = map snd (List_endpoints (EndpointCache p) serviceId) in
      if toLLb then updateEndpointOneByOne E serviceId endpointSlice toLLb p
      else updateEndpointOneByOne E serviceId (filter (\<lambda>e. ep_Prio e > 0) endpointSlice) toLLb p)"

subsection \<open>Service map\<close>

abbreviation KmeshWaypointPort :: u32 where "KmeshWaypointPort \<equiv> 15019"

text \<open>\<open>strings.Contains\<close>.\<close>

definition str_contains :: "string \<Rightarrow> string \<Rightarrow> bool" where
  "str_contains s t = list_ex (\<lambda>n. take (length t) (drop n s) = t) [0..<Suc (length s)]"

fun fill_ports :: "string \<Rightarrow> nat \<Rightarrow> Port list \<Rightarrow> ServiceValue \<Rightarrow> ServiceValue option" where
  "fill_ports serviceName i [] sv = Some sv"
| "fill_ports serviceName i (port # rest) sv =
     (if i \<ge> MaxPortNum then Some sv
      else do {
        sps \<leftarrow> arr_set (ServicePort sv) i (ConvertPortToBigEndian (service_port port));
        tps \<leftarrow> arr_set (TargetPort sv) i
                 (if str_contains serviceName ''waypoint'' then ConvertPortToBigEndian KmeshWaypointPort
                  else if target_port port = 0 then ConvertPortToBigEndian (service_port port)
                  else ConvertPortToBigEndian (target_port port));
        fill_ports serviceName (i + 1) rest (sv\<lparr>ServicePort := sps, TargetPort := tps\<rparr>) })"

text \<open>The service value built from the resource, before the endpoint counts are carried over.\<close>

definition new_service_info :: "Service \<Rightarrow> ServiceValue option" where
  "new_service_info service =
     (let sv = zero_ServiceValue\<lparr>LbPolicy := GetMode (svc_load_balancing service)\<rparr>;
          sv1 = (case svc_waypoint service of
                   None \<Rightarrow> sv
                 | Some wp \<Rightarrow>
                     (case gw_address wp of
                        None \<Rightarrow> sv
                      | Some a \<Rightarrow> sv\<lparr>
                          sv_WaypointAddr := CopyIpByteFromSlice (sv_WaypointAddr sv) (na_address a),
                          sv_WaypointPort := ConvertPortToBigEndian (gw_hbone_mtls_port wp)\<rparr>))
      in fill_ports (Service_ResourceName service) 0 (svc_ports service) sv1)"

text \<open>\<open>oldService.GetIpAddresses()\<close>; the getter of a nil service returns nil.\<close>

definition old_addresses :: "Service option \<Rightarrow> bytes list" where
  "old_addresses old = (case old of None \<Rightarrow> [] | Some s \<Rightarrow> GetIpAddresses s)"

text \<open>The normal update: the service map, then the frontend map.\<close>

definition store_service :: "'m env \<Rightarrow> u32 \<Rightarrow> ServiceValue \<Rightarrow> Service \<Rightarrow> 'm Processor \<Rightarrow> (go_err option \<times> 'm Processor) option" where
  "store_service E sk sv service p =
     fail_with ''service map update failed: '' (on_bpf (ServiceUpdate (kern E) sk sv) p) (\<lambda>p1.
       fail_with ''updateServiceFrontendMap failed: '' (updateServiceFrontendMap E sk service p1)
         (\<lambda>p2. Some (None, p2)))"

definition to_random :: "'m env \<Rightarrow> u32 \<Rightarrow> ServiceValue \<Rightarrow> 'm Processor \<Rightarrow> (go_err option \<times> 'm Processor) option" where
  "to_random E sk sv p = do {
     r \<leftarrow> updateEndpointPriority E sk False p;
     fail_with ''update endpoint priority failed: '' r (\<lambda>p1.
       case ServiceLookup (kern E) sk (bpf p1) of
         Inl err \<Rightarrow> Some (Some (GoWrap ''service map lookup failed: '' err), p1)
       | Inr cur \<Rightarrow>
           fail_with ''service map update failed: ''
             (on_bpf (ServiceUpdate (kern E) sk (cur\<lparr>LbPolicy := LbPolicy sv\<rparr>)) p1)
             (\<lambda>p2. Some (None, p2))) }"

definition to_locality :: "'m env \<Rightarrow> u32 \<Rightarrow> ServiceValue \<Rightarrow> 'm Processor \<Rightarrow> (go_err option \<times> 'm Processor) option" where
  "to_locality E sk sv p =
     fail_with ''service map update lb policy failed: '' (on_bpf (ServiceUpdate (kern E) sk sv) p) (\<lambda>p1. do {
       r \<leftarrow> updateEndpointPriority E sk True p1;
       fail_with ''update endpoint priority failed: '' r (\<lambda>p2. Some (None, p2)) })"

definition updateServiceMap :: "'m env \<Rightarrow> Service \<Rightarrow> Service option \<Rightarrow> 'm Processor \<Rightarrow> (go_err option \<times> 'm Processor) option" where
  "updateServiceMap E service oldService p =
     (let (sk, p0) = p_Hash E (Service_ResourceName service) p in do {
        info \<leftarrow> new_service_info service;
        (case ServiceLookup (kern E) sk (bpf p0) of
           Inl _ \<Rightarrow> store_service E sk info service p0
         | Inr old \<Rightarrow>
             (let sv = info\<lparr>EndpointCount := EndpointCount old\<rparr> in
              if LbPolicy sv \<noteq> LbPolicy old \<and> LbPolicy sv = UNSPECIFIED_MODE then to_random E sk sv p0
              else if LbPolicy sv \<noteq> LbPolicy old \<and> LbPolicy old = UNSPECIFIED_MODE then to_locality E sk sv p0
              else fail_with ''frontend map delete failed: ''
                     (deleteFrontendByIp E (CompareIpByte (GetIpAddresses service) (old_addresses oldService)) p0)
                     (store_service E sk sv service))) })"

subsection \<open>Handling a service\<close>

definition containsPort :: "Service \<Rightarrow> u32 \<Rightarrow> bool" where
  "containsPort service port = list_ex (\<lambda>p. service_port p = port) (svc_ports service)"

text \<open>The waypoint of a waypoint service itself is dropped.\<close>

definition drop_own_waypoint :: "Service \<Rightarrow> Service" where
  "drop_own_waypoint service =
     (case (waypoint_address (svc_waypoint service), svc_addresses service) of
        (Some wp, a # _) \<Rightarrow>
          if na_address wp = na_address a \<or> containsPort service 15021
          then service\<lparr>svc_waypoint := None\<rparr> else service
      | _ \<Rightarrow> service)"

definition handleService :: "'m env \<Rightarrow> Service \<Rightarrow> 'm Processor \<Rightarrow> (go_err option \<times> 'm Processor) option" where
  "handleService E service0 p = do {
     ((resolved, service), w) \<leftarrow>
       wp_AddOrUpdateService (ServiceCache p) (WaypointCache p) (drop_own_waypoint service0);
     let p0 = p\<lparr>WaypointCache := w\<rparr>;
     (if \<not> resolved then Some (None, p0)
      else do {
        let oldService = GetService (ServiceCache p0) (Service_ResourceName service);
        let p1 = p0\<lparr>ServiceCache := AddOrUpdateService (ServiceCache p0) service\<rparr>;
        updateServiceMap E service oldService p1 }) }"

subsection \<open>Batches\<close>

definition handleRemovedAddresses :: "'m env \<Rightarrow> string list \<Rightarrow> 'm Processor \<Rightarrow> 'm Processor option" where
  "handleRemovedAddresses E removed p =
     (let isWorkload = (\<lambda>res. count_list res (CHR ''/'') > 2) in do {
        p1 \<leftarrow> removeWorkloadResources E (filter isWorkload removed) p;
        removeServiceResources E (filter (\<lambda>res. \<not> isWorkload res) removed) p1 })"

text \<open>Services in order; what each refresh hands back is collected.\<close>

fun handle_services :: "'m env \<Rightarrow> Service list \<Rightarrow> 'm Processor \<Rightarrow>
    ((Service list \<times> Workload list) \<times> 'm Processor) option" where
  "handle_services E [] p = Some (([], []), p)"
| "handle_services E (service # rest) p = do {
     (e, p1) \<leftarrow> handleService E service p;
     ((svcs, wls), w) \<leftarrow> Refresh (WaypointCache p1) service;
     ((svcs', wls'), p2) \<leftarrow> handle_services E rest (p1\<lparr>WaypointCache := w\<rparr>);
     Some ((svcs @ svcs', wls @ wls'), p2) }"

text \<open>
  A workload without addresses goes to the resolver goroutine; its reply is a workload, or
  nothing on a timeout.  A reply without addresses is skipped.
\<close>

definition handle_one_workload :: "'m env \<Rightarrow> Workload \<Rightarrow> 'm Processor \<Rightarrow> 'm Processor option" where
  "handle_one_workload E workload p =
     (let run = (\<lambda>w. do { (e, p1) \<leftarrow> handleWorkload E w p; Some p1 }) in
      if wl_addresses workload = [] then
        (case dns E of
           None \<Rightarrow> Some p
         | Some resolve \<Rightarrow>
             (case resolve workload of
                None \<Rightarrow> Some p
              | Some newWorkload \<Rightarrow> if wl_addresses newWorkload = [] then Some p else run newWorkload))
      else run workload)"

definition handleServicesAndWorkloads :: "'m env \<Rightarrow> Service list \<Rightarrow> Workload list \<Rightarrow> 'm Processor \<Rightarrow> 'm Processor option" where
  "handleServicesAndWorkloads E svcs workloads p = do {
     ((servicesToRefresh, wls), p1) \<leftarrow> handle_services E svcs p;
     p2 \<leftarrow> for_each (\<lambda>service p. do { (e, p') \<leftarrow> handleService E service p; Some p' }) servicesToRefresh p1;
     for_each (handle_one_workload E) (workloads @ wls) p2 }"

subsection \<open>Cleanup after a restart\<close>

definition remove_residual :: "'m env \<Rightarrow> string \<times> u32 \<Rightarrow> 'm Processor \<Rightarrow> 'm Processor option" where
  "remove_residual E = (\<lambda>(str, num) p.
     if GetWorkloadByUid (WorkloadCache p) str = None \<and> GetService (ServiceCache p) str = None then
       (case BackendLookup (kern E) num (bpf p) of
          Inr bv \<Rightarrow> do {
            (e, p1) \<leftarrow> removeWorkloadFromBpfMap E
              \<lparr>wl_uid = str, wl_name = '''', wl_namespace = '''', wl_addresses = [], wl_network = '''',
               wl_trust_domain = '''', wl_service_account = '''', wl_waypoint = None, wl_node = '''',
               wl_services = [], wl_authorization_policies = [], wl_status = HEALTHY, wl_cluster_id = '''',
               wl_locality = None, wl_network_mode = STANDARD\<rparr> p;
            Some p1 }
        | Inl _ \<Rightarrow>
            (case ServiceLookup (kern E) num (bpf p) of
               Inr sv \<Rightarrow> do { (e, p1) \<leftarrow> removeServiceResourceFromBpfMap E None str p; Some p1 }
             | Inl _ \<Rightarrow> Some p))
     else Some p)"

text \<open>
  The loop ranges over the name table while its body removes names; the body removes no name
  but its own, so every name of the table at the start is visited.
\<close>

definition handleRemovedAddressesDuringRestart :: "'m env \<Rightarrow> 'm Processor \<Rightarrow> 'm Processor option" where
  "handleRemovedAddressesDuringRestart E p =
     (if \<not> restarted E then Some p
      else for_each (remove_residual E) (GetStrToNum (hashName p)) p)"

text \<open>
  \<open>handleAddressTypeResponse\<close> on the decoded resources: a resource that does not unmarshal or
  is of no known type is left out of the two lists.
\<close>

datatype Address = AddressWorkload Workload | AddressService Service

definition handleAddressTypeResponse :: "'m env \<Rightarrow> Address list \<Rightarrow> string list \<Rightarrow> 'm Processor \<Rightarrow> 'm Processor option" where
  "handleAddressTypeResponse E resources removed p = do {
     let svcs = List.map_filter (\<lambda>a. case a of AddressService s \<Rightarrow> Some s | _ \<Rightarrow> None) resources;
     let workloads = List.map_filter (\<lambda>a. case a of AddressWorkload w \<Rightarrow> Some w | _ \<Rightarrow> None) resources;
     p1 \<leftarrow> handleServicesAndWorkloads E svcs workloads p;
     p2 \<leftarrow> handleRemovedAddresses E removed p1;
     (if once_done p2 then Some p2
      else do { p3 \<leftarrow> handleRemovedAddressesDuringRestart E p2; Some (p3\<lparr>once_done := True\<rparr>) }) }"

end
