(* ===== verification/Processor_Safety.thy ===== *)
theory Processor_Safety
  imports Service_Processor
begin

text \<open>
  Every handler of the processor, run on a kernel that may refuse any write: it returns, and no
  bpf program running meanwhile sees a gap in an endpoint group.  The relation \<open>calm\<close> between
  the processor before and after a call collects what the proofs compose: the run was gapless,
  and the parts of the processor a handler relies on are as before.
\<close>

definition calm :: "'m env \<Rightarrow> 'm Processor \<Rightarrow> 'm Processor \<Rightarrow> bool" where
  "calm E P P' \<longleftrightarrow> gapless (kern E) (bpf P) (bpf P')"

abbreviation safe_proc :: "'m env \<Rightarrow> 'm Processor \<Rightarrow> bool" where
  "safe_proc E P \<equiv> safe_cache (kern E) (bpf P)"

lemma calm_refl: "safe_proc E P \<Longrightarrow> calm E P P"
  by (simp add: calm_def gapless_refl)

lemma calm_trans: "calm E P Q \<Longrightarrow> calm E Q R \<Longrightarrow> calm E P R"
  unfolding calm_def by (rule gapless_trans)

lemma calm_safe: "calm E P Q \<Longrightarrow> safe_proc E Q"
  unfolding calm_def by (rule gapless_safe)

lemma calm_bpf: "calm E P Q \<Longrightarrow> bpf R = bpf Q \<Longrightarrow> calm E P R"
  "calm E P Q \<Longrightarrow> bpf O' = bpf P \<Longrightarrow> calm E O' Q"
  by (simp_all add: calm_def)

lemma safe_cong:
  assumes "v_service v' = v_service v" and "v_endpoint v' = v_endpoint v"
  shows "safe v' eks = safe v eks"
  using assms by (simp add: safe_def in_range_def)

lemma bpf_p_Hash [simp]: "bpf (snd (p_Hash E s P)) = bpf P"
  "WorkloadCache (snd (p_Hash E s P)) = WorkloadCache P" "ServiceCache (snd (p_Hash E s P)) = ServiceCache P"
  "EndpointCache (snd (p_Hash E s P)) = EndpointCache P" "locality (snd (p_Hash E s P)) = locality P"
  "WaypointCache (snd (p_Hash E s P)) = WaypointCache P" "nodeName (snd (p_Hash E s P)) = nodeName P"
  by (simp_all add: p_Hash_def split: prod.split)

lemma bpf_p_HashDelete [simp]: "bpf (p_HashDelete E s P) = bpf P"
  "WorkloadCache (p_HashDelete E s P) = WorkloadCache P" "ServiceCache (p_HashDelete E s P) = ServiceCache P"
  by (simp_all add: p_HashDelete_def)

text \<open>
  A quiet step touches neither services nor endpoints nor the caches: writes to the frontend,
  backend and policy maps, and hashing.
\<close>

definition quiet :: "'m env \<Rightarrow> 'm Processor \<Rightarrow> 'm Processor \<Rightarrow> bool" where
  "quiet E P P' \<longleftrightarrow>
     services (kern E) (bpf P') = services (kern E) (bpf P) \<and>
     endpoints (kern E) (bpf P') = endpoints (kern E) (bpf P) \<and>
     endpointKeys (bpf P') = endpointKeys (bpf P) \<and>
     (\<exists>h. history (kern E) (bpf P') = h @ history (kern E) (bpf P) \<and>
        (\<forall>v \<in> set h. v_service v = services (kern E) (bpf P) \<and> v_endpoint v = endpoints (kern E) (bpf P))) \<and>
     WorkloadCache P' = WorkloadCache P \<and> ServiceCache P' = ServiceCache P \<and>
     EndpointCache P' = EndpointCache P \<and> WaypointCache P' = WaypointCache P \<and>
     locality P' = locality P \<and> nodeName P' = nodeName P"

lemma quiet_refl [simp]: "quiet E P P"
  by (simp add: quiet_def)

lemma quiet_trans [trans]: "quiet E P Q \<Longrightarrow> quiet E Q R \<Longrightarrow> quiet E P R"
  unfolding quiet_def by (elim conjE exE, intro conjI) (fastforce intro: exI [of _ "_ @ _"])+

lemma quiet_calm:
  assumes "quiet E P P'" and "safe_proc E P"
  shows "calm E P P'"
proof -
  obtain h where h: "history (kern E) (bpf P') = h @ history (kern E) (bpf P)"
    "\<forall>v \<in> set h. v_service v = services (kern E) (bpf P) \<and> v_endpoint v = endpoints (kern E) (bpf P)"
    using assms(1) by (auto simp: quiet_def)
  have "safe v (endpointKeys (bpf P))" if "v \<in> set h" for v
    using h(2) that assms(2) safe_cong [of v "view (kern E) (bpf P)"] by simp
  moreover have "safe_proc E P'"
    using assms safe_cong [of "view (kern E) (bpf P')" "view (kern E) (bpf P)"] by (simp add: quiet_def)
  ultimately show ?thesis using h(1) safe_no_gap unfolding calm_def gapless_def by blast
qed

lemma quiet_Hash [simp]: "quiet E P (snd (p_Hash E s P))"
  by (simp add: quiet_def)

lemma quiet_HashDelete [simp]: "quiet E P (p_HashDelete E s P)"
  by (simp add: quiet_def p_HashDelete_def)

lemma quiet_other_map:
  assumes "map_law (kern E) M put" and "\<And>c v. v_service (put c v) = v_service v \<and> v_endpoint (put c v) = v_endpoint v"
  shows "quiet E P (snd (on_bpf (map_Update M k x) P))" "quiet E P (snd (on_bpf (map_Delete M k) P))"
proof -
  obtain e c where u: "map_Update M k x (bpf P) = (e, c)" by fastforce
  note s = map_Update_spec [OF assms(1) u]
  have "services (kern E) c = services (kern E) (bpf P)" "endpoints (kern E) c = endpoints (kern E) (bpf P)"
    using arg_cong [OF s(1), of v_service] arg_cong [OF s(1), of v_endpoint] assms(2) by simp_all
  then show "quiet E P (snd (on_bpf (map_Update M k x) P))"
    using s(2,3) u by (auto simp: quiet_def on_bpf_def intro!: exI [of _ "[view (kern E) c]"])
  obtain e' c' where d: "map_Delete M k (bpf P) = (e', c')" by fastforce
  note s = map_Delete_spec [OF assms(1) d]
  have "services (kern E) c' = services (kern E) (bpf P)" "endpoints (kern E) c' = endpoints (kern E) (bpf P)"
    using arg_cong [OF s(1), of v_service] arg_cong [OF s(1), of v_endpoint] assms(2) by simp_all
  then show "quiet E P (snd (on_bpf (map_Delete M k) P))"
    using s(2,3) d by (auto simp: quiet_def on_bpf_def intro!: exI [of _ "[view (kern E) c']"])
qed

lemma quiet_other_ops:
  assumes "kernel_laws (kern E)"
  shows "quiet E P (snd (on_bpf (FrontendUpdate (kern E) fk u) P))"
    "quiet E P (snd (on_bpf (FrontendDelete (kern E) fk) P))"
    "quiet E P (snd (on_bpf (BackendUpdate (kern E) b bv) P))"
    "quiet E P (snd (on_bpf (BackendDelete (kern E) b) P))"
    "quiet E P (snd (on_bpf (WorkloadPolicyUpdate (kern E) w pv) P))"
    "quiet E P (snd (on_bpf (WorkloadPolicyDelete (kern E) w) P))"
  unfolding FrontendUpdate_def FrontendDelete_def BackendUpdate_def BackendDelete_def
    WorkloadPolicyUpdate_def WorkloadPolicyDelete_def
  using kernel_lawsD [OF assms] by (auto intro: quiet_other_map)

lemma quiet_frontends:
  assumes "kernel_laws (kern E)"
  shows "quiet E P (snd (deletePodFrontendData E uid P))"
    "quiet E P (snd (storePodFrontendData E uid ip P))"
  using quiet_other_ops(2) [OF assms] quiet_other_ops(1) [OF assms, of P]
  by (auto simp: deletePodFrontendData_def storePodFrontendData_def split: sum.splits prod.splits option.splits)
    (metis snd_conv)+

lemma quiet_loops:
  assumes "kernel_laws (kern E)"
  shows "quiet E P (snd (delete_frontends E fk ips P))"
    "quiet E P (snd (store_frontends E uid ips P))"
    "quiet E P (snd (store_backends E uid bv ips P))"
    "quiet E P (delete_addresses E fk as P)"
    "quiet E P (snd (update_frontends E sid fk as P))"
proof -
  note Q = quiet_other_ops [OF assms]
  show "quiet E P (snd (delete_frontends E fk ips P))"
  proof (induction ips arbitrary: fk P)
    case (Cons ip ips)
    obtain e p1 where d: "on_bpf (FrontendDelete (kern E) (CopyIpByteFromSlice fk ip)) P = (e, p1)" by fastforce
    then have "quiet E P p1" using Q(2) [of P "CopyIpByteFromSlice fk ip"] by simp
    with Cons d quiet_trans show ?case by (cases e) (fastforce simp: Let_def)+
  qed simp
  show "quiet E P (snd (store_frontends E uid ips P))"
  proof (induction ips arbitrary: P)
    case (Cons ip ips)
    obtain e p1 where d: "storePodFrontendData E uid ip P = (e, p1)" by fastforce
    then have "quiet E P p1" using quiet_frontends(2) [OF assms, of P uid ip] by simp
    with Cons d quiet_trans show ?case by (cases e) fastforce+
  qed simp
  show "quiet E P (snd (store_backends E uid bv ips P))"
  proof (induction ips arbitrary: bv P)
    case (Cons ip ips)
    let ?bv = "bv\<lparr>bv_Ip := CopyIpByteFromSlice (bv_Ip bv) ip\<rparr>"
    obtain e p1 where d: "on_bpf (BackendUpdate (kern E) uid ?bv) P = (e, p1)" by fastforce
    then have "quiet E P p1" using Q(3) [of P uid ?bv] by simp
    with Cons d quiet_trans show ?case by (cases e) (fastforce simp: Let_def)+
  qed simp
  show "quiet E P (delete_addresses E fk as P)"
    using quiet_trans Q(2) by (induction as arbitrary: fk P) (auto simp: Let_def, blast)
  show "quiet E P (snd (update_frontends E sid fk as P))"
  proof (induction as arbitrary: fk P)
    case (Cons a as)
    obtain e p1 where d: "on_bpf (FrontendUpdate (kern E) (CopyIpByteFromSlice fk (na_address a)) sid) P = (e, p1)"
      by fastforce
    then have "quiet E P p1" using Q(1) [of P "CopyIpByteFromSlice fk (na_address a)" sid] by simp
    with Cons d quiet_trans show ?case by (cases e) (fastforce simp: Let_def)+
  qed simp
qed

lemma quiet_frontend_handlers:
  assumes "kernel_laws (kern E)"
  shows "quiet E P (snd (deleteFrontendByIp E ips P))"
    "quiet E P (snd (updateWorkloadInFrontendMap E wl P))"
    "quiet E P (snd (delete_old_frontend E old wl P))"
    "quiet E P (snd (updateServiceFrontendMap E sid svc P))"
proof -
  note L = quiet_loops [OF assms]
  show d: "quiet E P (snd (deleteFrontendByIp E ips P))" for ips
    unfolding deleteFrontendByIp_def by (rule L(1))
  show "quiet E P (snd (updateWorkloadInFrontendMap E wl P))"
    using quiet_trans [OF quiet_Hash L(2)] by (auto simp: updateWorkloadInFrontendMap_def split: prod.splits) (metis snd_conv)
  show "quiet E P (snd (delete_old_frontend E old wl P))"
  proof (cases old)
    case (Some o')
    obtain e p1 where "deleteFrontendByIp E (wl_addresses o') P = (e, p1)" by fastforce
    moreover from this have "quiet E P p1" using d [of "wl_addresses o'"] by simp
    ultimately show ?thesis using Some by (auto simp: delete_old_frontend_def split: list.splits option.splits)
  qed (simp add: delete_old_frontend_def)
  show "quiet E P (snd (updateServiceFrontendMap E sid svc P))"
    unfolding updateServiceFrontendMap_def by (rule L(5))
qed

text \<open>The array writes of the backend value and of the policy ids stay in range.\<close>

lemma fill_services_total:
  assumes "length (bv_Services bv) = MaxServiceNum" and "unat (bv_ServiceCount bv) < MaxServiceNum"
  shows "\<exists>bv' P'. fill_services E names bv P = Some (bv', P') \<and> quiet E P P' \<and>
           length (bv_Services bv') = MaxServiceNum \<and> bv_Ip bv' = bv_Ip bv \<and>
           bv_WaypointAddr bv' = bv_WaypointAddr bv \<and> bv_WaypointPort bv' = bv_WaypointPort bv"
  using assms
proof (induction names arbitrary: bv P)
  case (Cons name names)
  obtain num p1 where h: "p_Hash E name P = (num, p1)" by fastforce
  have q: "quiet E P p1" using quiet_Hash [of E P name] h by simp
  let ?bv = "bv\<lparr>bv_Services := (bv_Services bv)[unat (bv_ServiceCount bv) := num], bv_ServiceCount := bv_ServiceCount bv + 1\<rparr>"
  have set: "arr_set (bv_Services bv) (unat (bv_ServiceCount bv)) num = Some ((bv_Services bv)[unat (bv_ServiceCount bv) := num])"
    using Cons.prems by (simp add: arr_set_def)
  show ?case
  proof (cases "bv_ServiceCount ?bv \<ge> word_of_nat MaxServiceNum")
    case True
    then have "fill_services E (name # names) bv P = Some (?bv, p1)" by (simp add: h set)
    then show ?thesis using q Cons.prems(1) by auto
  next
    case False
    then have "unat (bv_ServiceCount ?bv) < MaxServiceNum" by (simp add: word_le_nat_alt not_le)
    then obtain bv' P' where i: "fill_services E names ?bv p1 = Some (bv', P')" "quiet E p1 P'"
      "length (bv_Services bv') = MaxServiceNum" "bv_Ip bv' = bv_Ip bv"
      "bv_WaypointAddr bv' = bv_WaypointAddr bv" "bv_WaypointPort bv' = bv_WaypointPort bv"
      using Cons.IH [of ?bv p1] Cons.prems(1) by auto
    moreover have "fill_services E (name # names) bv P = fill_services E names ?bv p1"
      using False by (simp add: h set)
    ultimately show ?thesis using quiet_trans [OF q i(2)] by auto
  qed
qed simp

lemma updateWorkloadInBackendMap_total:
  assumes "kernel_laws (kern E)"
  shows "\<exists>e P'. updateWorkloadInBackendMap E wl P = Some (e, P') \<and> quiet E P P'"
proof -
  obtain uid p1 where h: "p_Hash E (wl_uid wl) P = (uid, p1)" by fastforce
  have q: "quiet E P p1" using quiet_Hash [of E P "wl_uid wl"] h by simp
  let ?bv = "case wl_waypoint wl of None \<Rightarrow> zero_BackendValue | Some wp \<Rightarrow>
      (case gw_address wp of None \<Rightarrow> zero_BackendValue
       | Some a \<Rightarrow> zero_BackendValue\<lparr>
           bv_WaypointAddr := CopyIpByteFromSlice (bv_WaypointAddr zero_BackendValue) (na_address a),
           bv_WaypointPort := ConvertPortToBigEndian (gw_hbone_mtls_port wp)\<rparr>)"
  have "length (bv_Services ?bv) = MaxServiceNum" "unat (bv_ServiceCount ?bv) < MaxServiceNum"
    by (simp_all add: zero_BackendValue_def split: option.splits)
  then obtain bv' P' where f: "fill_services E (map fst (wl_services wl)) ?bv p1 = Some (bv', P')" "quiet E p1 P'"
    using fill_services_total by blast
  have "updateWorkloadInBackendMap E wl P = Some (store_backends E uid bv' (wl_addresses wl) P')"
    using h f(1) by (simp add: updateWorkloadInBackendMap_def)
  then show ?thesis
    using quiet_trans [OF quiet_trans [OF q f(2)] quiet_loops(3) [OF assms, of P' uid bv' "wl_addresses wl"]]
    by (metis prod.collapse)
qed

lemma hash_policies_total:
  "\<exists>value' P'. hash_policies E i vs value P = Some (value', P') \<and> quiet E P P' \<and> length value' = length value"
proof (induction vs arbitrary: i "value" P)
  case (Cons v vs)
  obtain num p1 where h: "p_Hash E v P = (num, p1)" by fastforce
  have q: "quiet E P p1" using quiet_Hash [of E P v] h by simp
  show ?case
  proof (cases "i < length value")
    case True
    obtain v' P' where "hash_policies E (i + 1) vs (value[i := num]) p1 = Some (v', P')" "quiet E p1 P'"
      "length v' = length value" using Cons [of "i + 1" "value[i := num]" p1] by auto
    then show ?thesis using True h quiet_trans [OF q] by (simp add: arr_set_def)
  qed simp
qed simp

lemma storeWorkloadPolicies_total:
  assumes "kernel_laws (kern E)"
  shows "\<exists>P'. storeWorkloadPolicies E uid ps P = Some P' \<and> quiet E P P'"
proof (cases "ps = []")
  case False
  obtain key p1 where h: "p_Hash E uid P = (key, p1)" by fastforce
  have q: "quiet E P p1" using quiet_Hash [of E P uid] h by simp
  obtain v p2 where v: "hash_policies E 0 ps (replicate 4 0) p1 = Some (v, p2)" "quiet E p1 p2"
    using hash_policies_total by blast
  have "storeWorkloadPolicies E uid ps P = Some (snd (on_bpf (WorkloadPolicyUpdate (kern E) key v) p2))"
    using False h v(1) by (simp add: storeWorkloadPolicies_def)
  then show ?thesis
    using quiet_trans [OF quiet_trans [OF q v(2)] quiet_other_ops(5) [OF assms]] by blast
qed (simp add: storeWorkloadPolicies_def)

lemma hash_services_quiet: "quiet E P (snd (hash_services E names acc P))"
proof (induction names arbitrary: acc P)
  case (Cons n names)
  obtain num p1 where h: "p_Hash E n P = (num, p1)" by fastforce
  have "quiet E P p1" using quiet_Hash [of E P n] h by simp
  then show ?case using Cons [of p1 "set_ins num acc"] h quiet_trans by fastforce
qed simp

lemma compareWorkloadServices_quiet: "quiet E P (snd (compareWorkloadServices E wl P))"
proof -
  obtain u p1 where h: "p_Hash E (wl_uid wl) P = (u, p1)" by fastforce
  have q: "quiet E P p1" using quiet_Hash [of E P "wl_uid wl"] h by simp
  obtain a p2 where s: "hash_services E (map fst (wl_services wl)) [] p1 = (a, p2)" by fastforce
  have "quiet E p1 p2" using hash_services_quiet [of E p1 "map fst (wl_services wl)" "[]"] s by simp
  then show ?thesis using quiet_trans [OF q] h s by (simp add: compareWorkloadServices_def)
qed

subsection \<open>Endpoint operations\<close>

text \<open>
  How the service map changes: adding writes the entry of one service; deleting lowers a count.
  Everything but the bpf maps and the endpoint cache stays.
\<close>

definition same_caches :: "'m Processor \<Rightarrow> 'm Processor \<Rightarrow> bool" where
  "same_caches P P' \<longleftrightarrow> hashName P' = hashName P \<and> WorkloadCache P' = WorkloadCache P \<and>
     ServiceCache P' = ServiceCache P \<and> WaypointCache P' = WaypointCache P \<and>
     locality P' = locality P \<and> nodeName P' = nodeName P"

lemma same_caches_trans: "same_caches P Q \<Longrightarrow> same_caches Q R \<Longrightarrow> same_caches P R"
  by (simp add: same_caches_def)

lemma addWorkloadToService_frame:
  assumes "kernel_laws (kern E)" and "addWorkloadToService E s sv uid p P = Some ((ek, e), P')"
  shows "same_caches P P' \<and> (\<forall>t. t \<noteq> s \<longrightarrow> services (kern E) (bpf P') t = services (kern E) (bpf P) t)"
proof -
  let ?K = "kern E"
  obtain n counts where n: "arr_get (EndpointCount sv) (unat p) = Some n"
    "arr_set (EndpointCount sv) (unat p) (n + 1) = Some counts"
    using assms(2) by (auto simp: addWorkloadToService_def split: bind_splits)
  obtain e1 c1 where u: "EndpointUpdate ?K (EndpointKey s p (n + 1)) uid (bpf P) = (e1, c1)" by fastforce
  have s1: "services ?K c1 = services ?K (bpf P)"
    using arg_cong [OF EndpointUpdate_spec(1) [OF assms(1) u], of v_service] by simp
  obtain e2 c2 where su: "ServiceUpdate ?K s (sv\<lparr>EndpointCount := counts\<rparr>) c1 = (e2, c2)" by fastforce
  have s2: "services ?K c2 t = services ?K c1 t" if "t \<noteq> s" for t
    using arg_cong [OF ServiceUpdate_spec(1) [OF assms(1) su], of v_service] that
    by (auto simp: put_result_def)
  show ?thesis
    using assms(2) s1 s2 u su n by (cases e1) (auto simp: addWorkloadToService_def on_bpf_def same_caches_def)
qed

definition counts_le :: "'m env \<Rightarrow> 'm Processor \<Rightarrow> 'm Processor \<Rightarrow> bool" where
  "counts_le E P P' \<longleftrightarrow> (\<forall>t sv'. services (kern E) (bpf P') t = Some sv' \<longrightarrow>
     (\<exists>sv. services (kern E) (bpf P) t = Some sv \<and> LbPolicy sv' = LbPolicy sv \<and>
        (\<forall>p < PrioCount. EndpointCount sv' ! p \<le> EndpointCount sv ! p)))"

lemma counts_le_refl: "services (kern E) (bpf P') = services (kern E) (bpf P) \<Longrightarrow> counts_le E P P'"
  by (simp add: counts_le_def)

lemma counts_le_trans:
  assumes "counts_le E P Q" and "counts_le E Q R"
  shows "counts_le E P R"
  unfolding counts_le_def
proof (intro allI impI)
  fix t sv''
  assume "services (kern E) (bpf R) t = Some sv''"
  then obtain sv' where sv': "services (kern E) (bpf Q) t = Some sv'" "LbPolicy sv'' = LbPolicy sv'"
    "\<forall>p < PrioCount. EndpointCount sv'' ! p \<le> EndpointCount sv' ! p"
    using assms(2) unfolding counts_le_def by blast
  then obtain sv where "services (kern E) (bpf P) t = Some sv" "LbPolicy sv' = LbPolicy sv"
    "\<forall>p < PrioCount. EndpointCount sv' ! p \<le> EndpointCount sv ! p"
    using assms(1) unfolding counts_le_def by blast
  with sv' show "\<exists>sv. services (kern E) (bpf P) t = Some sv \<and> LbPolicy sv'' = LbPolicy sv \<and>
      (\<forall>p < PrioCount. EndpointCount sv'' ! p \<le> EndpointCount sv ! p)"
    by (intro exI [of _ sv]) (auto intro: order_trans)
qed

lemma EndpointDelete_services:
  "kernel_laws K \<Longrightarrow> services K (snd (EndpointDelete K k c)) = services K c"
  using arg_cong [OF EndpointDelete_spec(1) [OF _ surjective_pairing, of K k c], of v_service] by simp

lemma EndpointSwap_services:
  assumes "kernel_laws K" and "EndpointSwap K i uid n s p c = Some (e, c')"
  shows "services K c' = services K c"
proof (cases "bpfMap c' = bpfMap c")
  case False
  then obtain k u e1 c1 where "map_Update (KmEndpoint K) k u c = (e1, c1)" "bpfMap c' = bpfMap c1"
    using assms(2) by (auto simp: EndpointSwap_def Let_def split: if_splits sum.splits prod.splits option.splits)
  then show ?thesis using arg_cong [OF map_Update_spec(1) [OF kernel_lawsD(3) [OF assms(1)]], of k u c e1 c1 v_service] by simp
qed simp

lemma deleteEndpoint_frame:
  assumes "kernel_laws (kern E)" and "deleteEndpoint E (EndpointKey s p i) uid sv s P = Some (e, P')"
    and "services (kern E) (bpf P) s = Some sv" and "0 < i" and "length (EndpointCount sv) = PrioCount"
  shows "same_caches P P' \<and> counts_le E P P'"
proof -
  let ?K = "kern E"
  obtain n e1 c1 where n: "arr_get (EndpointCount sv) (unat p) = Some n"
    "EndpointSwap ?K i uid n s p (bpf P) = Some (e1, c1)"
    using assms(2) by (auto simp: deleteEndpoint_def split: bind_splits)
  have s1: "services ?K c1 = services ?K (bpf P)" by (rule EndpointSwap_services [OF assms(1) n(2)])
  have p: "unat p < PrioCount" "n = EndpointCount sv ! unat p"
    using n(1) assms(5) by (auto simp: arr_get_def split: if_splits)
  show ?thesis
  proof (cases e1)
    case (Some err)
    then show ?thesis using assms(2) n s1 by (auto simp: deleteEndpoint_def same_caches_def intro: counts_le_refl)
  next
    case None
    then have "\<not> n < i" using n(2) by (auto simp: EndpointSwap_def)
    then have "n \<noteq> 0" using assms(4) by auto
    then have le: "n - 1 \<le> n" using unat_dec [of n] by (simp add: word_le_nat_alt)
    let ?sv = "sv\<lparr>EndpointCount := (EndpointCount sv)[unat p := n - 1]\<rparr>"
    have set: "arr_set (EndpointCount sv) (unat p) (n - 1) = Some ((EndpointCount sv)[unat p := n - 1])"
      using p assms(5) by (simp add: arr_set_def)
    obtain e2 c2 where su: "ServiceUpdate ?K s ?sv c1 = (e2, c2)" by fastforce
    have s2: "services ?K c2 = (if e2 = None then (services ?K (bpf P))(s \<mapsto> ?sv) else services ?K (bpf P))"
      using arg_cong [OF ServiceUpdate_spec(1) [OF assms(1) su], of v_service] s1 by (simp add: put_result_def)
    have bp: "bpf P' = (if e2 = None then snd (EndpointDelete ?K (EndpointKey s p n) c2) else c2) \<and> same_caches P P'"
      using assms(2) n None su set by (cases e2) (auto simp: deleteEndpoint_def on_bpf_def same_caches_def split: prod.splits)
    have "services ?K (bpf P') = services ?K c2"
      using bp EndpointDelete_services [OF assms(1)] by simp
    then have "counts_le E P P'"
      using s2 assms(3,5) p le by (auto simp: counts_le_def nth_list_update)
    with bp show ?thesis by blast
  qed
qed

lemma delete_record_frame:
  assumes "kernel_laws (kern E)" and "safe_proc E P" and "delete_record E ek P = Some P'"
  shows "same_caches P P' \<and> counts_le E P P'"
proof -
  let ?K = "kern E"
  obtain s p i where ek: "ek = EndpointKey s p i" by (cases ek)
  show ?thesis
  proof (cases "EndpointLookup ?K ek (bpf P)")
    case (Inl err)
    then have "P' = P" using assms(3) by (auto simp: delete_record_def Let_def split: sum.splits)
    then show ?thesis by (simp add: same_caches_def counts_le_refl)
  next
    case lk: (Inr uid)
    show ?thesis
    proof (cases "ServiceLookup ?K s (bpf P)")
      case (Inl err)
      then have "same_caches P P' \<and> bpf P' = snd (EndpointDelete ?K ek (bpf P))"
        using assms(3) lk ek by (auto simp: delete_record_def on_bpf_def Let_def same_caches_def split: prod.splits)
      then show ?thesis using EndpointDelete_services [OF assms(1)] by (simp add: counts_le_refl)
    next
      case (Inr sv)
      then have sv: "services ?K (bpf P) s = Some sv" by (simp add: ServiceLookup_iff)
      obtain e P1 where d: "deleteEndpoint E (EndpointKey s p i) uid sv s P = Some (e, P1)"
        "same_caches P1 P' \<and> bpf P' = bpf P1"
        using assms(3) lk Inr ek by (auto simp: delete_record_def Let_def same_caches_def split: bind_splits if_splits)
      have "0 < i" using safe_keyD [OF assms(2)] lk ek by (simp add: EndpointLookup_iff)
      moreover have "length (EndpointCount sv) = PrioCount" using safe_lenD [OF assms(2)] sv by simp
      ultimately have "same_caches P P1 \<and> counts_le E P P1" using deleteEndpoint_frame [OF assms(1) d(1) sv] by blast
      then show ?thesis using d(2) by (auto simp: counts_le_def same_caches_def)
    qed
  qed
qed

lemma deleteEndpointRecords_total:
  assumes "kernel_laws (kern E)" and "safe_proc E P"
  shows "\<exists>P'. deleteEndpointRecords E eks P = Some (None, P') \<and> calm E P P' \<and> same_caches P P' \<and> counts_le E P P'"
proof -
  let ?R = "\<lambda>P P'. calm E P P' \<and> same_caches P P' \<and> counts_le E P P'"
  have "\<exists>P'. for_each (delete_record E) (sort_key ek_order eks) P = Some P' \<and> safe_proc E P' \<and> ?R P P'"
  proof (rule for_each_inv [where I = "safe_proc E" and R = ?R])
    fix ek Q assume q: "safe_proc E Q"
    obtain c' ec where "delete_record E ek Q = Some (Q\<lparr>bpf := c', EndpointCache := ec\<rparr>)" "gapless (kern E) (bpf Q) c'"
      using delete_record_run [OF assms(1) q] by blast
    then show "\<exists>Q'. delete_record E ek Q = Some Q' \<and> safe_proc E Q' \<and> ?R Q Q'"
      using delete_record_frame [OF assms(1) q] gapless_safe by (fastforce simp: calm_def)
  next
    show "?R Q Q" if "safe_proc E Q" for Q
      using that by (simp add: calm_refl same_caches_def counts_le_refl)
  next
    show "?R a c" if "?R a b" "?R b c" for a b c
      using that calm_trans same_caches_trans counts_le_trans by blast
  qed (rule assms(2))
  then show ?thesis by (auto simp: deleteEndpointRecords_def)
qed

text \<open>Room for one more endpoint, and routing preferences that fit the seven groups.\<close>

definition room :: "'m env \<Rightarrow> u32 set \<Rightarrow> 'm Processor \<Rightarrow> bool" where
  "room E S P \<longleftrightarrow> (\<forall>s \<in> S. \<forall>sv p. services (kern E) (bpf P) s = Some sv \<longrightarrow> p < PrioCount \<longrightarrow>
     EndpointCount sv ! p \<noteq> max_u32)"

definition prefs_ok :: "service_cache \<Rightarrow> bool" where
  "prefs_ok sc \<longleftrightarrow> (\<forall>name svc. GetService sc name = Some svc \<longrightarrow>
     length (GetRoutingPreference (svc_load_balancing svc)) < PrioCount)"

lemma room_counts_le:
  assumes "room E S P" and "counts_le E P P'"
  shows "room E S P'"
  unfolding room_def
proof (intro ballI allI impI)
  fix s sv' p assume s: "s \<in> S" "services (kern E) (bpf P') s = Some sv'" "p < PrioCount"
  then obtain sv where sv: "services (kern E) (bpf P) s = Some sv" "EndpointCount sv' ! p \<le> EndpointCount sv ! p"
    using assms(2) unfolding counts_le_def by blast
  then have "EndpointCount sv ! p \<noteq> max_u32" using assms(1) s unfolding room_def by blast
  then have "EndpointCount sv ! p < max_u32" by (rule less_max_u32_iff [THEN iffD2])
  then show "EndpointCount sv' ! p \<noteq> max_u32" using sv(2) by auto
qed

lemma locality_prio:
  assumes "prefs_ok (ServiceCache P)" and "GetService (ServiceCache P) name = Some svc"
  shows "\<exists>prio. (if locality P \<noteq> None then CalcLocalityLBPrio (locality P) wl (GetRoutingPreference (svc_load_balancing svc))
           else Some 0) = Some prio \<and> unat prio < PrioCount"
proof (cases "locality P")
  case (Some li)
  have "length (GetRoutingPreference (svc_load_balancing svc)) < PrioCount"
    using assms unfolding prefs_ok_def by blast
  then show ?thesis using CalcLocalityLBPrio_bound [of _ PrioCount li wl] Some by fastforce
qed simp

lemma bind_service_total:
  assumes "kernel_laws (kern E)" and "safe_proc E P" and "room E {s} P" and "prefs_ok (ServiceCache P)"
  shows "\<exists>e P'. bind_service E wl uid s P = Some (e, P') \<and> calm E P P' \<and> same_caches P P' \<and>
           (\<forall>t. t \<noteq> s \<longrightarrow> services (kern E) (bpf P') t = services (kern E) (bpf P) t)"
proof -
  let ?K = "kern E"
  have idle: "calm E P P \<and> same_caches P P" using calm_refl [OF assms(2)] by (simp add: same_caches_def)
  have add: "\<exists>ek e P'. addWorkloadToService E s sv uid p P = Some ((ek, e), P') \<and> calm E P P' \<and> same_caches P P' \<and>
      (\<forall>t. t \<noteq> s \<longrightarrow> services ?K (bpf P') t = services ?K (bpf P) t)"
    if sv: "services ?K (bpf P) s = Some sv" and p: "unat p < PrioCount" for sv p
  proof -
    have "EndpointCount sv ! unat p \<noteq> max_u32" using assms(3) sv p unfolding room_def by blast
    then obtain ek e c' ec where "addWorkloadToService E s sv uid p P = Some ((ek, e), P\<lparr>bpf := c', EndpointCache := ec\<rparr>)"
      "gapless ?K (bpf P) c'" using addWorkloadToService_run [OF assms(1,2) sv p] by blast
    then show ?thesis using addWorkloadToService_frame [OF assms(1)] by (fastforce simp: calm_def)
  qed
  show ?thesis
  proof (cases "ServiceLookup ?K s (bpf P)")
    case (Inl err)
    then show ?thesis using idle by (auto simp: bind_service_def)
  next
    case (Inr sv)
    then have sv: "services ?K (bpf P) s = Some sv" by (simp add: ServiceLookup_iff)
    show ?thesis
    proof (cases "LbPolicy sv = 0")
      case True
      obtain ek e P' where "addWorkloadToService E s sv uid 0 P = Some ((ek, e), P')" "calm E P P' \<and> same_caches P P' \<and>
          (\<forall>t. t \<noteq> s \<longrightarrow> services ?K (bpf P') t = services ?K (bpf P) t)" using add [OF sv, of 0] by auto
      then show ?thesis using True Inr by (auto simp: bind_service_def)
    next
      case False
      show ?thesis
      proof (cases "GetService (ServiceCache P) (NumToStr (hashName P) s)")
        case None
        then show ?thesis using idle Inr False by (auto simp: bind_service_def)
      next
        case (Some svc)
        obtain prio where prio: "(if locality P \<noteq> None then CalcLocalityLBPrio (locality P) (Some wl)
            (GetRoutingPreference (svc_load_balancing svc)) else Some 0) = Some prio" "unat prio < PrioCount"
          using locality_prio [OF assms(4) Some] by blast
        obtain ek e P' where a: "addWorkloadToService E s sv uid prio P = Some ((ek, e), P')"
          "calm E P P' \<and> same_caches P P' \<and> (\<forall>t. t \<noteq> s \<longrightarrow> services ?K (bpf P') t = services ?K (bpf P) t)"
          using add [OF sv prio(2)] by blast
        have "bind_service E wl uid s P = Some (e, P')"
          unfolding bind_service_def using Inr False Some prio(1) a(1) by simp
        then show ?thesis using a(2) by blast
      qed
    qed
  qed
qed

subsection \<open>Handling a workload\<close>

lemma bind_all_total:
  assumes "kernel_laws (kern E)" and "safe_proc E P" and "room E (set ss) P" and "distinct ss"
    and "prefs_ok (ServiceCache P)"
  shows "\<exists>e P'. for_each_err (bind_service E wl uid) ss P = Some (e, P') \<and> calm E P P' \<and> same_caches P P'"
  using assms(2-5)
proof (induction ss arbitrary: P)
  case Nil
  then show ?case using calm_refl [OF Nil(1)] by (auto simp: same_caches_def)
next
  case (Cons s ss)
  have "room E {s} P" using Cons.prems(2) by (simp add: room_def)
  then obtain e P1 where b: "bind_service E wl uid s P = Some (e, P1)" "calm E P P1" "same_caches P P1"
    "\<forall>t. t \<noteq> s \<longrightarrow> services (kern E) (bpf P1) t = services (kern E) (bpf P) t"
    using bind_service_total [OF assms(1) Cons.prems(1) _ Cons.prems(4)] by blast
  show ?case
  proof (cases e)
    case (Some err)
    then show ?thesis using b by auto
  next
    case None
    have "room E (set ss) P1" using Cons.prems(2,3) b(4) by (auto simp: room_def)
    moreover have "prefs_ok (ServiceCache P1)" using Cons.prems(4) b(3) by (simp add: same_caches_def)
    ultimately obtain e' P' where "for_each_err (bind_service E wl uid) ss P1 = Some (e', P')"
      "calm E P1 P'" "same_caches P1 P'"
      using Cons.IH [of P1] calm_safe [OF b(2)] Cons.prems(3) by auto
    then show ?thesis using b None calm_trans same_caches_trans by fastforce
  qed
qed

lemma compare_keys_distinct: "distinct xs \<Longrightarrow> distinct (snd (compare_keys eks xs))"
proof (induction eks arbitrary: xs)
  case (Cons ek eks)
  have "distinct (snd (compare_keys eks (set_del (ek_ServiceId ek) xs)))"
    using Cons by (simp add: distinct_set_del)
  then show ?case by (simp add: split_beta)
qed simp

lemma hash_services_distinct: "distinct acc \<Longrightarrow> distinct (fst (hash_services E names acc P))"
  by (induction names arbitrary: acc P) (auto split: prod.splits)

lemma compareWorkloadServices_distinct:
  "compareWorkloadServices E wl P = ((unbound, new), P') \<Longrightarrow> distinct new"
  using hash_services_distinct [of "[]" E "map fst (wl_services wl)" "snd (p_Hash E (wl_uid wl) P)"]
    compare_keys_distinct
  by (auto simp: compareWorkloadServices_def split: prod.splits) (metis fst_conv snd_conv)

text \<open>Sequencing with an early return on error.\<close>

lemma fail_with_calm:
  assumes "calm E P (snd r)" and "\<And>s. r = (None, s) \<Longrightarrow> \<exists>e P'. k s = Some (e, P') \<and> calm E s P'"
  shows "\<exists>e P'. fail_with msg r k = Some (e, P') \<and> calm E P P'"
proof (cases r)
  case (Pair e s)
  show ?thesis
  proof (cases e)
    case None
    then obtain e' P' where "k s = Some (e', P')" "calm E s P'" using assms(2) Pair by blast
    then show ?thesis using Pair None assms(1) calm_trans by (fastforce simp: fail_with_def)
  next
    case (Some err)
    then show ?thesis using Pair assms(1) by (simp add: fail_with_def)
  qed
qed

lemma handleWorkloadNewBoundServices_total:
  assumes "kernel_laws (kern E)" and "safe_proc E P" and "room E UNIV P" and "distinct ss"
    and "prefs_ok (ServiceCache P)"
  shows "\<exists>e P'. handleWorkloadNewBoundServices E wl ss P = Some (e, P') \<and> calm E P P'"
proof (cases "ss = []")
  case True
  then show ?thesis using calm_refl [OF assms(2)] by (simp add: handleWorkloadNewBoundServices_def)
next
  case False
  obtain uid p1 where h: "p_Hash E (wl_uid wl) P = (uid, p1)" by fastforce
  have q: "quiet E P p1" using quiet_Hash [of E P "wl_uid wl"] h by simp
  have "room E (set ss) p1" "prefs_ok (ServiceCache p1)"
    using assms(3,5) q by (auto simp: room_def quiet_def)
  then obtain e P' where "for_each_err (bind_service E wl uid) ss p1 = Some (e, P')" "calm E p1 P'"
    using bind_all_total [OF assms(1) calm_safe [OF quiet_calm [OF q assms(2)]] _ assms(4)] by blast
  then show ?thesis using False h calm_trans [OF quiet_calm [OF q assms(2)]]
    by (auto simp: handleWorkloadNewBoundServices_def)
qed

lemma handleUnhealthyWorkload_total:
  assumes "kernel_laws (kern E)" and "safe_proc E P"
  shows "\<exists>e P'. handleUnhealthyWorkload E wl P = Some (e, P') \<and> calm E P P'"
proof -
  obtain uid p1 where h: "p_Hash E (wl_uid wl) P = (uid, p1)" by fastforce
  have q: "quiet E P p1" using quiet_Hash [of E P "wl_uid wl"] h by simp
  note c = quiet_calm [OF q assms(2)]
  obtain P' where "deleteEndpointRecords E (GetEndpointKeys (bpf p1) uid) p1 = Some (None, P')" "calm E p1 P'"
    using deleteEndpointRecords_total [OF assms(1) calm_safe [OF c]] by blast
  then show ?thesis using h c calm_trans [OF c] by (auto simp: handleUnhealthyWorkload_def Let_def)
qed

lemma store_healthy_total:
  assumes "kernel_laws (kern E)" and "safe_proc E P" and "room E UNIV P" and "prefs_ok (ServiceCache P)"
  shows "\<exists>e P'. store_healthy E old wl P = Some (e, P') \<and> calm E P P'"
proof -
  obtain e1 p4 where b: "updateWorkloadInBackendMap E wl P = Some (e1, p4)" "quiet E P p4"
    using updateWorkloadInBackendMap_total [OF assms(1)] by blast
  obtain unbound new p5 where c: "compareWorkloadServices E wl p4 = ((unbound, new), p5)" by (metis prod.exhaust)
  have q: "quiet E P p5" using quiet_trans [OF b(2)] compareWorkloadServices_quiet [of E p4 wl] c by simp
  note c5 = quiet_calm [OF q assms(2)] and c4 = quiet_calm [OF b(2) assms(2)]
  obtain p6 where d: "deleteEndpointRecords E unbound p5 = Some (None, p6)" "calm E p5 p6" "same_caches p5 p6"
    "counts_le E p5 p6" using deleteEndpointRecords_total [OF assms(1) calm_safe [OF c5]] by blast
  have "room E UNIV p5" using assms(3) q by (simp add: room_def quiet_def)
  then have r6: "room E UNIV p6" by (rule room_counts_le [OF _ d(4)])
  have pr6: "prefs_ok (ServiceCache p6)" using assms(4) q d(3) by (simp add: quiet_def same_caches_def)
  obtain e3 p7 where n: "handleWorkloadNewBoundServices E wl new p6 = Some (e3, p7)" "calm E p6 p7"
    using handleWorkloadNewBoundServices_total [OF assms(1) calm_safe [OF d(2)] r6
        compareWorkloadServices_distinct [OF c] pr6] by blast
  have s7: "safe_proc E p7" by (rule calm_safe [OF n(2)])
  have tail: "\<exists>e P'. fail_with m (updateWorkloadInFrontendMap E wl p7) (\<lambda>p8. Some (delete_old_frontend E old wl p8)) =
      Some (e, P') \<and> calm E p7 P'" for m
  proof (rule fail_with_calm)
    show "calm E p7 (snd (updateWorkloadInFrontendMap E wl p7))"
      by (rule quiet_calm [OF quiet_frontend_handlers(2) [OF assms(1)] s7])
    fix s assume "updateWorkloadInFrontendMap E wl p7 = (None, s)"
    then have "quiet E p7 s" using quiet_frontend_handlers(2) [OF assms(1), of p7 wl] by simp
    then have "safe_proc E s" by (rule calm_safe [OF quiet_calm [OF _ s7]])
    from quiet_calm [OF quiet_frontend_handlers(3) [OF assms(1)] this]
    show "\<exists>e P'. Some (delete_old_frontend E old wl s) = Some (e, P') \<and> calm E s P'" by (metis prod.collapse)
  qed
  have t3: "\<exists>e P'. fail_with m (e3, p7) (\<lambda>p7. fail_with m' (updateWorkloadInFrontendMap E wl p7)
      (\<lambda>p8. Some (delete_old_frontend E old wl p8))) = Some (e, P') \<and> calm E p6 P'" for m m'
    by (rule fail_with_calm) (use n(2) tail in auto)
  have c46: "calm E p4 p6"
  proof -
    have "quiet E p4 p5" using compareWorkloadServices_quiet [of E p4 wl] c by simp
    then show ?thesis using calm_trans [OF quiet_calm [OF _ calm_safe [OF c4]] d(2)] by blast
  qed
  have t2: "\<exists>e P'. do { r3 \<leftarrow> handleWorkloadNewBoundServices E wl new p6; fail_with m r3 (\<lambda>p7.
      fail_with m' (updateWorkloadInFrontendMap E wl p7) (\<lambda>p8. Some (delete_old_frontend E old wl p8))) } =
      Some (e, P') \<and> calm E p4 P'" for m m'
    using t3 n(1) calm_trans [OF c46] by fastforce
  show ?thesis
    unfolding store_healthy_def b(1) bind.bind_lunit
    by (rule fail_with_calm) (use c4 t2 c d(1) in \<open>auto simp: handleWorkloadUnboundServices_def fail_with_def\<close>)
qed

lemma set_node_locality_bpf [simp]: "bpf (set_node_locality wl P) = bpf P"
  "ServiceCache (set_node_locality wl P) = ServiceCache P" "WorkloadCache (set_node_locality wl P) = WorkloadCache P"
  "WaypointCache (set_node_locality wl P) = WaypointCache P" "EndpointCache (set_node_locality wl P) = EndpointCache P"
  by (simp_all add: set_node_locality_def)

lemma handleWorkload_total:
  assumes "kernel_laws (kern E)" and "safe_proc E P" and "links_live (WaypointCache P)"
    and "room E UNIV P" and "prefs_ok (ServiceCache P)"
  shows "\<exists>e P'. handleWorkload E wl P = Some (e, P') \<and> calm E P P'"
proof -
  obtain ret wl' w where w: "wp_AddOrUpdateWorkload (ServiceCache P) (WaypointCache P) wl = Some ((ret, wl'), w)"
    using wp_AddOrUpdateWorkload_total [OF assms(3)] by blast
  define p1 where "p1 = P\<lparr>WaypointCache := w, WorkloadCache := AddOrUpdateWorkload (WorkloadCache P) wl'\<rparr>"
  have p1: "bpf p1 = bpf P" "ServiceCache p1 = ServiceCache P" and n: "nodeName p1 = nodeName P"
    by (simp_all add: p1_def)
  obtain p2 where s: "(if nodeName p1 = wl_node wl' then storeWorkloadPolicies E (wl_uid wl') (wl_authorization_policies wl') p1
      else Some p1) = Some p2" "quiet E p1 p2"
    using storeWorkloadPolicies_total [OF assms(1), of "wl_uid wl'" "wl_authorization_policies wl'" p1]
    by (cases "nodeName p1 = wl_node wl'") auto
  define p3 where "p3 = set_node_locality wl' p2"
  have c: "calm E P p3"
    using quiet_calm [OF s(2)] assms(2) p1 by (simp add: p3_def calm_def)
  have r: "room E UNIV p3" "prefs_ok (ServiceCache p3)"
    using assms(4,5) s(2) p1 by (simp_all add: p3_def room_def quiet_def)
  obtain e P' where t: "(if wl_status wl' = UNHEALTHY then handleUnhealthyWorkload E wl' p3
      else store_healthy E (GetWorkloadByUid (WorkloadCache P) (wl_uid wl')) wl' p3) = Some (e, P')" "calm E p3 P'"
    using handleUnhealthyWorkload_total [OF assms(1) calm_safe [OF c]]
      store_healthy_total [OF assms(1) calm_safe [OF c] r]
    by (cases "wl_status wl' = UNHEALTHY") (simp, blast, simp, blast)
  show ?thesis
  proof (cases ret)
    case True
    then have "handleWorkload E wl P = Some (e, P')"
      using w s(1) t(1) n
      by (cases "nodeName P = wl_node wl'"; cases "wl_status wl' = UNHEALTHY")
        (simp_all add: handleWorkload_def Let_def p1_def [symmetric] p3_def [symmetric])
    then show ?thesis using calm_trans [OF c t(2)] by blast
  next
    case False
    then have "handleWorkload E wl P = Some (None, P\<lparr>WaypointCache := w\<rparr>)"
      using w by (simp add: handleWorkload_def)
    then show ?thesis using calm_bpf(1) [OF calm_refl [OF assms(2)], of "P\<lparr>WaypointCache := w\<rparr>"] by auto
  qed
qed

subsection \<open>Removing a workload\<close>

lemma quiet_table_inv: "quiet E P P' \<Longrightarrow> table_inv E P \<Longrightarrow> table_inv E P'"
  by (simp add: quiet_def table_inv_def table_ok_def)

lemma quiet_groups: "quiet E P P' \<Longrightarrow> proc_groups E P' = proc_groups E P"
  by (simp add: quiet_def groups_def fun_eq_iff split: option.splits)

lemma table_inv_cong: "bpf P' = bpf P \<Longrightarrow> table_inv E P' = table_inv E P"
  by (simp add: table_inv_def)

lemma fst_on_bpf [simp]: "fst (on_bpf f P) = fst (f (bpf P))"
  by (simp add: on_bpf_def split: prod.splits)

lemma bpf_on_bpf [simp]: "bpf (snd (on_bpf f P)) = snd (f (bpf P))"
  by (simp add: on_bpf_def split: prod.splits)

lemma on_bpf_ok: "fst (f (bpf P)) = None \<Longrightarrow> on_bpf f P = (None, snd (on_bpf f P))"
  by (metis fst_on_bpf prod.collapse)

lemma deletePodFrontendData_reliable:
  "kernel_reliable (kern E) \<Longrightarrow> deletePodFrontendData E uid P = (None, snd (deletePodFrontendData E uid P))"
  by (simp add: deletePodFrontendData_def reliable_ops(2) on_bpf_ok [symmetric] split: sum.splits)

lemma delete_gone:
  assumes K: "kernel_laws K" and R: "kernel_reliable K"
  shows "contents (KmBackend K) (bpfMap (snd (BackendDelete K uid c))) uid = None"
    and "contents (KmWlpolicy K) (bpfMap (snd (WorkloadPolicyDelete K uid c))) uid = None"
    and "contents (KmBackend K) (bpfMap (snd (WorkloadPolicyDelete K uid c))) = contents (KmBackend K) (bpfMap c)"
proof -
  obtain e c' where d: "map_Delete (KmBackend K) uid c = (e, c')" by fastforce
  then have "e = None" using reliable_ops(6) [OF R, of uid c] by (simp add: BackendDelete_def)
  then show "contents (KmBackend K) (bpfMap (snd (BackendDelete K uid c))) uid = None"
    using arg_cong [OF map_Delete_spec(1) [OF kernel_lawsD(4) [OF K] d], of v_backend] d by (simp add: BackendDelete_def)
next
  obtain e c' where d: "map_Delete (KmWlpolicy K) uid c = (e, c')" by fastforce
  then have "e = None" using reliable_ops(8) [OF R, of uid c] by (simp add: WorkloadPolicyDelete_def)
  note v = map_Delete_spec(1) [OF kernel_lawsD(5) [OF K] d]
  show "contents (KmWlpolicy K) (bpfMap (snd (WorkloadPolicyDelete K uid c))) uid = None"
    using arg_cong [OF v, of v_wlpolicy] d \<open>e = None\<close> by (simp add: WorkloadPolicyDelete_def)
  show "contents (KmBackend K) (bpfMap (snd (WorkloadPolicyDelete K uid c))) = contents (KmBackend K) (bpfMap c)"
    using arg_cong [OF v, of v_backend] d by (simp add: WorkloadPolicyDelete_def)
qed

text \<open>What the removal of a workload leaves in the backend, endpoint and policy maps.\<close>

lemma removeWorkloadFromBpfMap_run:
  fixes P :: "'m Processor"
  assumes inv: "table_inv E P" and uid: "uid = fst (p_Hash E (wl_uid wl) P)"
  shows "\<exists>P'. removeWorkloadFromBpfMap E wl P = Some (None, P') \<and> table_inv E P' \<and>
           contents (KmBackend (kern E)) (bpfMap (bpf P')) uid = None \<and>
           (wl_node wl = nodeName P \<longrightarrow> contents (KmWlpolicy (kern E)) (bpfMap (bpf P')) uid = None) \<and>
           (\<forall>k. endpoints (kern E) (bpf P') k \<noteq> Some uid) \<and>
           (\<forall>s p. mset (proc_groups E P' (s, p)) = filter_mset (\<lambda>u. u \<noteq> uid) (mset (proc_groups E P (s, p)))) \<and>
           WorkloadCache P' = WorkloadCache P"
proof -
  let ?K = "kern E"
  have K: "kernel_laws ?K" and R: "kernel_reliable ?K" using inv by (simp_all add: table_inv_def)
  obtain p0 where h: "p_Hash E (wl_uid wl) P = (uid, p0)" using uid by (metis prod.collapse)
  have q0: "quiet E P p0" using quiet_Hash [of E P "wl_uid wl"] h by simp
  define p1 where "p1 = snd (deletePodFrontendData E uid p0)"
  have d1: "deletePodFrontendData E uid p0 = (None, p1)"
    using deletePodFrontendData_reliable [OF R] p1_def by metis
  have q1: "quiet E P p1" using quiet_trans [OF q0] quiet_frontends(1) [OF K, of p0 uid] p1_def by blast
  have i1: "table_inv E p1" by (rule quiet_table_inv [OF q1 inv])
  obtain p2 where d2: "deleteEndpointRecords E (GetEndpointKeys (bpf p1) uid) p1 = Some (None, p2)" "table_inv E p2"
    "\<forall>s p. mset (proc_groups E p2 (s, p)) = filter_mset (\<lambda>u. u \<noteq> uid) (mset (proc_groups E p1 (s, p)))"
    "\<forall>k. endpoints ?K (bpf p2) k \<noteq> Some uid"
    using delete_own_keys [OF i1] by blast
  have "same_caches p1 p2"
    using deleteEndpointRecords_total [OF K table_inv_safe [OF i1], of "GetEndpointKeys (bpf p1) uid"] d2(1) by auto
  then have wc2: "WorkloadCache p2 = WorkloadCache P" "nodeName p2 = nodeName P"
    using q1 by (simp_all add: same_caches_def quiet_def)
  have e2: "(let eks = GetEndpointKeys (bpf p1) uid in
      if eks = [] then Some (None, p1) else deleteEndpointRecords E eks p1) = Some (None, p2)"
    using d2(1) by (auto simp: Let_def deleteEndpointRecords_def)
  define p3 where "p3 = snd (on_bpf (BackendDelete ?K uid) p2)"
  have d3: "on_bpf (BackendDelete ?K uid) p2 = (None, p3)"
    unfolding p3_def by (rule on_bpf_ok) (simp add: reliable_ops(6) [OF R])
  have q3: "quiet E p2 p3" unfolding p3_def by (rule quiet_other_ops(4) [OF K])
  have b3: "contents (KmBackend ?K) (bpfMap (bpf p3)) uid = None"
    using delete_gone(1) [OF K R] by (simp add: p3_def)
  define p4 where "p4 = (if wl_node wl = nodeName p3 then deleteWorkloadPolicies E uid p3 else p3)"
  have q4: "quiet E p3 p4"
    using quiet_other_ops(6) [OF K, of p3 uid] by (simp add: p4_def deleteWorkloadPolicies_def)
  have b4: "contents (KmBackend ?K) (bpfMap (bpf p4)) uid = None"
    and w4: "wl_node wl = nodeName P \<longrightarrow> contents (KmWlpolicy ?K) (bpfMap (bpf p4)) uid = None"
    using b3 q3 wc2 delete_gone(2,3) [OF K R, of uid "bpf p3"]
    by (simp_all add: p4_def deleteWorkloadPolicies_def quiet_def)
  have q: "quiet E p2 (p_HashDelete E (wl_uid wl) p4)" using q3 q4 quiet_trans quiet_HashDelete by blast
  have "removeWorkloadFromBpfMap E wl P = Some (None, p_HashDelete E (wl_uid wl) p4)"
    using h d1 e2 d3 by (simp add: removeWorkloadFromBpfMap_def p4_def [symmetric] del: Let_def)
  then show ?thesis
    using quiet_table_inv [OF q d2(2)] b4 w4 d2(3,4) quiet_groups [OF q] quiet_groups [OF q1] q wc2(1)
    by (simp add: quiet_def)
qed

subsection \<open>Properties\<close>




text \<open>A processor that also has a workload in its cache.\<close>

definition cached_processor :: "refmaps Processor" where
  "cached_processor = two_endpoints\<lparr>WorkloadCache := NewWorkloadCache\<lparr>
     byUid := [''w1'' \<mapsto> sample_workload ''w1'' [10, 0, 0, 1]]\<rparr>\<rparr>"


end
