(* ===== verification/Bpf_Common.thy ===== *)
theory Bpf_Common
  imports Bpf_Maps
begin

text \<open>
  What the bpf programs share (\<open>bpf/include/common.h\<close>, \<open>bpf/include/bpf_common.h\<close>): addresses,
  the map of pods managed by kmesh, and the storage attached to a socket.

  The structs that programs compare, copy or overlay with unions are modelled by their bytes,
  as a little-endian machine stores them: \<open>struct ip_addr\<close> is 16 bytes of which \<open>ip4\<close> is the
  first four and \<open>ip6[i]\<close> the \<open>i\<close>-th group of four, a \<open>struct bpf_sock_tuple\<close> is the 36 bytes of
  its IPv6 variant, overlaid with the 12 bytes of the IPv4 one.  Ports are 32-bit integers
  that hold a 16-bit number in network order, which \<open>bpf_htons\<close> and \<open>bpf_ntohs\<close> swap.
\<close>

abbreviation (input) AF_INET :: nat where "AF_INET \<equiv> 2"
abbreviation (input) AF_INET6 :: nat where "AF_INET6 \<equiv> 10"
abbreviation (input) IPPROTO_TCP :: nat where "IPPROTO_TCP \<equiv> 6"

abbreviation (input) ENOENT :: int where "ENOENT \<equiv> 2"
abbreviation (input) EINVAL :: int where "EINVAL \<equiv> 22"

subsection \<open>Addresses\<close>

definition ip4 :: "bytes \<Rightarrow> bytes" where
  "ip4 a = take 4 a"

definition set_ip4 :: "bytes \<Rightarrow> bytes \<Rightarrow> bytes" where
  "set_ip4 v a = v @ drop 4 a"

definition ip6_word :: "bytes \<Rightarrow> nat \<Rightarrow> bytes" where
  "ip6_word a i = take 4 (drop (4 * i) a)"

definition is_ipv4_mapped_addr :: "bytes \<Rightarrow> bool" where
  "is_ipv4_mapped_addr a \<longleftrightarrow>
     ip6_word a 0 = [0, 0, 0, 0] \<and> ip6_word a 1 = [0, 0, 0, 0] \<and> ip6_word a 2 = [0, 0, 0xff, 0xff]"

definition V4_MAPPED_REVERSE :: "bytes \<Rightarrow> bytes" where
  "V4_MAPPED_REVERSE a = ip6_word a 3 @ [0, 0, 0, 0] @ [0, 0, 0, 0] @ [0, 0, 0, 0]"

definition V4_MAPPED_TO_V6 :: "bytes \<Rightarrow> bytes" where
  "V4_MAPPED_TO_V6 v4 = [0, 0, 0, 0] @ [0, 0, 0, 0] @ [0, 0, 0xff, 0xff] @ v4"

definition bpf_htons :: "u16 \<Rightarrow> u16" where
  "bpf_htons w = push_bit 8 w OR drop_bit 8 w"

definition bpf_ntohs :: "u16 \<Rightarrow> u16" where
  "bpf_ntohs w = push_bit 8 w OR drop_bit 8 w"

text \<open>\<open>bpf_ntohl\<close> of a 32-bit group of an address: the number its bytes spell.\<close>

definition bpf_ntohl :: "bytes \<Rightarrow> u32" where
  "bpf_ntohl b = push_bit 24 (ucast (b ! 0)) OR push_bit 16 (ucast (b ! 1)) OR
     push_bit 8 (ucast (b ! 2)) OR ucast (b ! 3)"

definition le_bytes64 :: "u64 \<Rightarrow> bytes" where
  "le_bytes64 w = map (\<lambda>i. ucast (drop_bit (8 * i) w)) [0..<8]"

subsection \<open>Contexts\<close>

record bpf_sock_addr =
  family :: nat
  user_family :: nat
  user_ip4 :: bytes
  user_ip6 :: bytes
  user_port :: u32
  protocol :: nat
  netns_cookie :: u64

record kmesh_context =
  orig_dst_addr :: bytes
  dnat_ip :: bytes
  dnat_port :: u32
  via_waypoint :: bool

definition zero_context :: kmesh_context where
  "zero_context = \<lparr>orig_dst_addr = zero_ip, dnat_ip = zero_ip, dnat_port = 0, via_waypoint = False\<rparr>"

record bpf_sock_ops =
  so_family :: nat
  local_ip4 :: bytes
  local_ip6 :: bytes
  remote_ip4 :: bytes
  remote_ip6 :: bytes
  local_port :: u32
  remote_port :: u32

subsection \<open>The pods managed by kmesh\<close>

text \<open>
  The key is a union of a cookie and an address, so it is one of 16 bytes.  An update may be
  refused (the map has a bounded number of entries): \<open>ok\<close> says whether the kernel accepts it.
\<close>

type_synonym manager_map = "bytes \<rightharpoonup> u32"

definition cookie_key :: "u64 \<Rightarrow> bytes" where
  "cookie_key cookie = le_bytes64 cookie @ replicate 8 0"

definition record_manager_netns_cookie :: "bool \<Rightarrow> bpf_sock_addr \<Rightarrow> manager_map \<Rightarrow> manager_map" where
  "record_manager_netns_cookie ok ctx m = (if ok then m(cookie_key (netns_cookie ctx) \<mapsto> 0) else m)"

definition is_kmesh_enabled :: "bpf_sock_addr \<Rightarrow> manager_map \<Rightarrow> bool" where
  "is_kmesh_enabled ctx m = (m (cookie_key (netns_cookie ctx)) \<noteq> None)"

definition remove_manager_netns_cookie :: "bpf_sock_addr \<Rightarrow> manager_map \<Rightarrow> manager_map" where
  "remove_manager_netns_cookie ctx m = m(cookie_key (netns_cookie ctx) := None)"

abbreviation (input) CONTROL_CMD_IP :: u32 where "CONTROL_CMD_IP \<equiv> 2"
abbreviation (input) ENABLE_KMESH_PORT :: u16 where "ENABLE_KMESH_PORT \<equiv> 0x3a1"
abbreviation (input) DISABLE_KMESH_PORT :: u16 where "DISABLE_KMESH_PORT \<equiv> 0x3a2"

definition is_control_connect :: "bpf_sock_addr \<Rightarrow> kmesh_context \<Rightarrow> u32 \<Rightarrow> u16 \<Rightarrow> bool" where
  "is_control_connect ctx kc ip port =
     (if bpf_ntohs (ucast (user_port ctx)) \<noteq> port then False
      else if family ctx = AF_INET then bpf_ntohl (ip4 (orig_dst_addr kc)) = ip
      else ip6_word (orig_dst_addr kc) 0 = [0, 0, 0, 0] \<and> ip6_word (orig_dst_addr kc) 1 = [0, 0, 0, 0] \<and>
           ip6_word (orig_dst_addr kc) 2 = [0, 0, 0, 0] \<and> bpf_ntohl (ip6_word (orig_dst_addr kc) 3) = ip)"

definition conn_from_cni_sim_add :: "bpf_sock_addr \<Rightarrow> kmesh_context \<Rightarrow> bool" where
  "conn_from_cni_sim_add ctx kc = is_control_connect ctx kc CONTROL_CMD_IP ENABLE_KMESH_PORT"

definition conn_from_cni_sim_delete :: "bpf_sock_addr \<Rightarrow> kmesh_context \<Rightarrow> bool" where
  "conn_from_cni_sim_delete ctx kc = is_control_connect ctx kc CONTROL_CMD_IP DISABLE_KMESH_PORT"

definition handle_kmesh_manage_process :: "bool \<Rightarrow> bpf_sock_addr \<Rightarrow> kmesh_context \<Rightarrow> manager_map \<Rightarrow> bool \<times> manager_map" where
  "handle_kmesh_manage_process ok ctx kc m =
     (if conn_from_cni_sim_add ctx kc then (True, record_manager_netns_cookie ok ctx m)
      else if conn_from_cni_sim_delete ctx kc then (True, remove_manager_netns_cookie ctx m)
      else (False, m))"

text \<open>The same map by address, from the socket operations hook.\<close>

definition managed_ip_key :: "nat \<Rightarrow> bytes \<Rightarrow> bytes \<Rightarrow> bytes" where
  "managed_ip_key fam v4 v6 =
     (let key = (if fam = AF_INET then set_ip4 v4 zero_ip else zero_ip)
      in if fam = AF_INET6 then v6 else key)"

definition record_kmesh_managed_ip :: "bool \<Rightarrow> nat \<Rightarrow> bytes \<Rightarrow> bytes \<Rightarrow> manager_map \<Rightarrow> manager_map" where
  "record_kmesh_managed_ip ok fam v4 v6 m = (if ok then m(managed_ip_key fam v4 v6 \<mapsto> 0) else m)"

definition remove_kmesh_managed_ip :: "nat \<Rightarrow> bytes \<Rightarrow> bytes \<Rightarrow> manager_map \<Rightarrow> manager_map" where
  "remove_kmesh_managed_ip fam v4 v6 m = m(managed_ip_key fam v4 v6 := None)"

definition GET_SKOPS_REMOTE_PORT :: "bpf_sock_ops \<Rightarrow> u16" where
  "GET_SKOPS_REMOTE_PORT skops = ucast (drop_bit 16 (remote_port skops))"

definition GET_SKOPS_LOCAL_PORT :: "bpf_sock_ops \<Rightarrow> u16" where
  "GET_SKOPS_LOCAL_PORT skops = ucast (local_port skops)"

definition conn_from_sim :: "bpf_sock_ops \<Rightarrow> u32 \<Rightarrow> u16 \<Rightarrow> bool" where
  "conn_from_sim skops ip port =
     (if bpf_ntohs (GET_SKOPS_REMOTE_PORT skops) \<noteq> port then False
      else if so_family skops = AF_INET then bpf_ntohl (remote_ip4 skops) = ip
      else ip6_word (remote_ip6 skops) 0 = [0, 0, 0, 0] \<and> ip6_word (remote_ip6 skops) 1 = [0, 0, 0, 0] \<and>
           ip6_word (remote_ip6 skops) 2 = [0, 0, 0, 0] \<and> bpf_ntohl (ip6_word (remote_ip6 skops) 3) = ip)"

definition skops_conn_from_cni_sim_add :: "bpf_sock_ops \<Rightarrow> bool" where
  "skops_conn_from_cni_sim_add skops = conn_from_sim skops CONTROL_CMD_IP ENABLE_KMESH_PORT"

definition skops_conn_from_cni_sim_delete :: "bpf_sock_ops \<Rightarrow> bool" where
  "skops_conn_from_cni_sim_delete skops = conn_from_sim skops CONTROL_CMD_IP DISABLE_KMESH_PORT"

definition skops_handle_kmesh_managed_process :: "bool \<Rightarrow> bpf_sock_ops \<Rightarrow> manager_map \<Rightarrow> manager_map" where
  "skops_handle_kmesh_managed_process ok skops m =
     (let m1 = (if skops_conn_from_cni_sim_add skops
                then record_kmesh_managed_ip ok (so_family skops) (local_ip4 skops) (local_ip6 skops) m else m)
      in if skops_conn_from_cni_sim_delete skops
         then remove_kmesh_managed_ip (so_family skops) (local_ip4 skops) (local_ip6 skops) m1 else m1)"

definition is_managed_by_kmesh :: "bpf_sock_ops \<Rightarrow> manager_map \<Rightarrow> bool" where
  "is_managed_by_kmesh skops m =
     (let key = (if so_family skops = AF_INET then set_ip4 (local_ip4 skops) zero_ip else zero_ip);
          key1 = (if so_family skops = AF_INET6
                  then if is_ipv4_mapped_addr (local_ip6 skops)
                       then set_ip4 (ip6_word (local_ip6 skops) 3) key
                       else local_ip6 skops
                  else key)
      in case m key1 of None \<Rightarrow> False | Some value \<Rightarrow> value = 0)"
subsection \<open>Socket tuples and socket storage\<close>

definition bytes_at :: "nat \<Rightarrow> nat \<Rightarrow> bytes \<Rightarrow> bytes" where
  "bytes_at off n t = take n (drop off t)"

definition put_at :: "nat \<Rightarrow> bytes \<Rightarrow> bytes \<Rightarrow> bytes" where
  "put_at off v t = take off t @ v @ drop (off + length v) t"

abbreviation zero_tuple :: bytes where "zero_tuple \<equiv> replicate 36 0"

abbreviation ipv4_saddr :: "bytes \<Rightarrow> bytes" where "ipv4_saddr \<equiv> bytes_at 0 4"
abbreviation ipv4_daddr :: "bytes \<Rightarrow> bytes" where "ipv4_daddr \<equiv> bytes_at 4 4"
abbreviation ipv6_saddr :: "bytes \<Rightarrow> bytes" where "ipv6_saddr \<equiv> bytes_at 0 16"
abbreviation ipv6_daddr :: "bytes \<Rightarrow> bytes" where "ipv6_daddr \<equiv> bytes_at 16 16"

definition ipv4_sport :: "bytes \<Rightarrow> u16" where "ipv4_sport t = le_get16 (bytes_at 8 2 t)"
definition ipv4_dport :: "bytes \<Rightarrow> u16" where "ipv4_dport t = le_get16 (bytes_at 10 2 t)"
definition ipv6_sport :: "bytes \<Rightarrow> u16" where "ipv6_sport t = le_get16 (bytes_at 32 2 t)"
definition ipv6_dport :: "bytes \<Rightarrow> u16" where "ipv6_dport t = le_get16 (bytes_at 34 2 t)"

text \<open>Writing the four fields of one variant of the union.\<close>

definition put_ipv4 :: "bytes \<Rightarrow> bytes \<Rightarrow> u16 \<Rightarrow> u16 \<Rightarrow> bytes \<Rightarrow> bytes" where
  "put_ipv4 saddr daddr sport dport t =
     put_at 10 (le_put16 dport) (put_at 8 (le_put16 sport) (put_at 4 daddr (put_at 0 saddr t)))"

definition put_ipv6 :: "bytes \<Rightarrow> bytes \<Rightarrow> u16 \<Rightarrow> u16 \<Rightarrow> bytes \<Rightarrow> bytes" where
  "put_ipv6 saddr daddr sport dport t =
     put_at 34 (le_put16 dport) (put_at 32 (le_put16 sport) (put_at 16 daddr (put_at 0 saddr t)))"

text \<open>
  The storage of a socket, without the fields that only the probes use.  It is absent until
  a program creates it; \<open>ok\<close> says whether the kernel can.
\<close>

record sock_storage_data =
  st_via_waypoint :: bool
  has_encoded :: bool
  has_set_ip :: bool
  sk_tuple :: bytes

definition zero_storage :: sock_storage_data where
  "zero_storage = \<lparr>st_via_waypoint = False, has_encoded = False, has_set_ip = False, sk_tuple = zero_tuple\<rparr>"

definition bpf_sk_storage_get :: "bool \<Rightarrow> bool \<Rightarrow> sock_storage_data option \<Rightarrow> sock_storage_data option" where
  "bpf_sk_storage_get create ok st =
     (case st of Some s \<Rightarrow> Some s | None \<Rightarrow> if create \<and> ok then Some zero_storage else None)"

subsection \<open>Lemmas\<close>

lemma htons_involutive [simp]: "bpf_htons (bpf_htons w) = w"
  by (simp add: bpf_htons_def bit_eq_iff bit_simps) (auto simp: less_diff_conv)

lemma ntohs_htons [simp]: "bpf_ntohs = bpf_htons"
  by (rule ext) (simp add: bpf_ntohs_def bpf_htons_def)

lemma htons_eq_iff [simp]: "bpf_htons v = bpf_htons w \<longleftrightarrow> v = w"
  using htons_involutive by metis

lemma le_get_put16 [simp]: "le_get16 (le_put16 w) = w"
  by (simp add: le_get16_def le_put16_def bit_eq_iff bit_simps) (auto simp: less_diff_conv)

lemma le_put16_length [simp]: "length (le_put16 w) = 2"
  by (simp add: le_put16_def)

text \<open>The port conversion of the daemon is the byte swap of the programs.\<close>

lemma ConvertPortToBigEndian_htons: "ConvertPortToBigEndian p = ucast (bpf_htons (ucast p))"
  by (simp add: ConvertPortToBigEndian_def bpf_htons_def Let_def le_get16_def be_put16_def bit_eq_iff bit_simps)
    (auto simp: less_diff_conv)

lemma length_put_at [simp]: "off + length v \<le> length t \<Longrightarrow> length (put_at off v t) = length t"
  by (simp add: put_at_def)

lemma put_at_same: "off + length v \<le> length t \<Longrightarrow> n = length v \<Longrightarrow> bytes_at off n (put_at off v t) = v"
  by (simp add: bytes_at_def put_at_def)

lemma put_at_other:
  assumes "off + length v \<le> length t" and "o' + n \<le> off \<or> off + length v \<le> o'"
  shows "bytes_at o' n (put_at off v t) = bytes_at o' n t"
  using assms(2)
proof
  assume "o' + n \<le> off"
  then show ?thesis using assms(1) by (simp add: bytes_at_def put_at_def take_drop add.commute)
next
  assume "off + length v \<le> o'"
  then show ?thesis using assms(1) by (simp add: bytes_at_def put_at_def)
qed

lemma put_ipv4_fields:
  assumes "length t = 36" "length s = 4" "length d = 4"
  shows "ipv4_saddr (put_ipv4 s d sp dp t) = s" "ipv4_daddr (put_ipv4 s d sp dp t) = d"
    "ipv4_sport (put_ipv4 s d sp dp t) = sp" "ipv4_dport (put_ipv4 s d sp dp t) = dp"
    "length (put_ipv4 s d sp dp t) = 36"
  using assms by (simp_all add: put_ipv4_def ipv4_sport_def ipv4_dport_def put_at_other put_at_same)

lemma put_ipv6_fields:
  assumes "length t = 36" "length s = 16" "length d = 16"
  shows "ipv6_saddr (put_ipv6 s d sp dp t) = s" "ipv6_daddr (put_ipv6 s d sp dp t) = d"
    "ipv6_sport (put_ipv6 s d sp dp t) = sp" "ipv6_dport (put_ipv6 s d sp dp t) = dp"
    "length (put_ipv6 s d sp dp t) = 36"
  using assms by (simp_all add: put_ipv6_def ipv6_sport_def ipv6_dport_def put_at_other put_at_same)

lemma V4_MAPPED_roundtrip:
  assumes "length v = 4"
  shows "is_ipv4_mapped_addr (V4_MAPPED_TO_V6 v)" "V4_MAPPED_REVERSE (V4_MAPPED_TO_V6 v) = set_ip4 v zero_ip"
  using assms by (simp_all add: is_ipv4_mapped_addr_def V4_MAPPED_TO_V6_def V4_MAPPED_REVERSE_def ip6_word_def
      set_ip4_def numeral_eq_Suc)

lemma mapped_form:
  assumes "length a = 16" "is_ipv4_mapped_addr a"
  shows "a = V4_MAPPED_TO_V6 (ip6_word a 3)"
proof -
  have "a = take (4 + (4 + (4 + 4))) a" using assms(1) by simp
  also have "\<dots> = take 4 a @ take 4 (drop 4 a) @ take 4 (drop 4 (drop 4 a)) @ take 4 (drop 4 (drop 4 (drop 4 a)))"
    by (simp only: take_add)
  finally have "a = ip6_word a 0 @ ip6_word a 1 @ ip6_word a 2 @ ip6_word a 3" by (simp add: ip6_word_def)
  then show ?thesis using assms(2) unfolding is_ipv4_mapped_addr_def V4_MAPPED_TO_V6_def by simp
qed

lemma not_mapped_v4:
  assumes "length v = 4"
  shows "\<not> is_ipv4_mapped_addr (set_ip4 v zero_ip)"
proof -
  have "ip6_word (set_ip4 v zero_ip) 2 = replicate 4 0" using assms by (simp add: ip6_word_def set_ip4_def)
  then have "ip6_word (set_ip4 v zero_ip) 2 ! 3 = 0" by simp
  then show ?thesis by (auto simp: is_ipv4_mapped_addr_def)
qed

end
