(* ===== verification/Data_Path.thy ===== *)
theory Data_Path
  imports Bpf_Common Endpoint_Table
begin

text \<open>
  The bpf programs of the workload mode that redirect a connection
  (\<open>bpf/kmesh/workload/cgroup_sock.c\<close> and the headers \<open>frontend.h\<close>, \<open>service.h\<close>,
  \<open>endpoint.h\<close>, \<open>backend.h\<close>).  They read the maps that the daemon writes, here a \<open>kview\<close>; the
  number \<open>bpf_get_prandom_u32\<close> returns is an argument (each run draws at most one), as is
  whether the kernel accepts an update of the manager map and the allocation of socket
  storage.  A handler returns its code (0 or a negative error) and the changed context.
  A program reads all its maps from one view.
\<close>

type_synonym handler_result = "int \<times> kmesh_context"

abbreviation (input) LB_POLICY_RANDOM :: u32 where "LB_POLICY_RANDOM \<equiv> 0"
abbreviation (input) LB_POLICY_STRICT :: u32 where "LB_POLICY_STRICT \<equiv> 1"
abbreviation (input) LB_POLICY_FAILOVER :: u32 where "LB_POLICY_FAILOVER \<equiv> 2"

subsection \<open>backend.h\<close>

definition map_lookup_backend :: "kview \<Rightarrow> u32 \<Rightarrow> BackendValue option" where
  "map_lookup_backend v key = v_backend v key"

definition waypoint_manager :: "bpf_sock_addr \<Rightarrow> kmesh_context \<Rightarrow> bytes \<Rightarrow> u32 \<Rightarrow> handler_result" where
  "waypoint_manager ctx kc wp_addr port =
     (let kc1 = (if user_family ctx = AF_INET then kc\<lparr>dnat_ip := set_ip4 (ip4 wp_addr) (dnat_ip kc)\<rparr>
                 else kc\<lparr>dnat_ip := wp_addr\<rparr>)
      in (0, kc1\<lparr>dnat_port := port, via_waypoint := True\<rparr>))"

text \<open>The unrolled search for the service port, over the pairs of ports.\<close>

fun svc_dnat_loop :: "bpf_sock_addr \<Rightarrow> kmesh_context \<Rightarrow> BackendValue \<Rightarrow> (u32 \<times> u32) list \<Rightarrow> handler_result" where
  "svc_dnat_loop ctx kc backend_v [] = (- ENOENT, kc)"
| "svc_dnat_loop ctx kc backend_v ((sport, tport) # rest) =
     (if user_port ctx = sport then
        (let kc1 = (if user_family ctx = AF_INET then kc\<lparr>dnat_ip := set_ip4 (ip4 (bv_Ip backend_v)) (dnat_ip kc)\<rparr>
                    else kc\<lparr>dnat_ip := bv_Ip backend_v\<rparr>)
         in (0, kc1\<lparr>dnat_port := tport, via_waypoint := False\<rparr>))
      else svc_dnat_loop ctx kc backend_v rest)"

definition svc_dnat :: "bpf_sock_addr \<Rightarrow> kmesh_context \<Rightarrow> BackendValue \<Rightarrow> ServiceValue \<Rightarrow> handler_result" where
  "svc_dnat ctx kc backend_v service_v =
     svc_dnat_loop ctx kc backend_v (zip (ServicePort service_v) (TargetPort service_v))"

definition backend_manager :: "bpf_sock_addr \<Rightarrow> kmesh_context \<Rightarrow> BackendValue \<Rightarrow> u32 \<Rightarrow> ServiceValue \<Rightarrow> handler_result" where
  "backend_manager ctx kc backend_v service_id service_v =
     (if bv_WaypointPort backend_v \<noteq> 0
      then waypoint_manager ctx kc (bv_WaypointAddr backend_v) (bv_WaypointPort backend_v)
      else svc_dnat ctx kc backend_v service_v)"

subsection \<open>endpoint.h\<close>

definition map_lookup_endpoint :: "kview \<Rightarrow> EndpointKey \<Rightarrow> u32 option" where
  "map_lookup_endpoint v key = v_endpoint v key"

definition endpoint_manager :: "kview \<Rightarrow> bpf_sock_addr \<Rightarrow> kmesh_context \<Rightarrow> u32 \<Rightarrow> u32 \<Rightarrow> ServiceValue \<Rightarrow> handler_result" where
  "endpoint_manager v ctx kc backend_uid service_id service_v =
     (case map_lookup_backend v backend_uid of
        None \<Rightarrow> (- ENOENT, kc)
      | Some backend_v \<Rightarrow> backend_manager ctx kc backend_v service_id service_v)"

subsection \<open>service.h\<close>

definition map_lookup_service :: "kview \<Rightarrow> u32 \<Rightarrow> ServiceValue option" where
  "map_lookup_service v key = v_service v key"

definition lb_random_handle :: "kview \<Rightarrow> u32 \<Rightarrow> bpf_sock_addr \<Rightarrow> kmesh_context \<Rightarrow> u32 \<Rightarrow> ServiceValue \<Rightarrow> handler_result" where
  "lb_random_handle v rnd ctx kc service_id service_v =
     (let count = EndpointCount service_v ! 0 in
      if count = 0 then (0, kc)
      else case map_lookup_endpoint v (EndpointKey service_id 0 (rnd mod count + 1)) of
             None \<Rightarrow> (- ENOENT, kc)
           | Some backend_uid \<Rightarrow> endpoint_manager v ctx kc backend_uid service_id service_v)"

definition lb_locality_strict_handle :: "kview \<Rightarrow> u32 \<Rightarrow> bpf_sock_addr \<Rightarrow> kmesh_context \<Rightarrow> u32 \<Rightarrow> ServiceValue \<Rightarrow> handler_result" where
  "lb_locality_strict_handle v rnd ctx kc service_id service_v =
     (let count = EndpointCount service_v ! 0;
          (ret, kc1) = (if count \<noteq> 0 then
                          (case map_lookup_endpoint v (EndpointKey service_id 0 (rnd mod count + 1)) of
                             None \<Rightarrow> (- ENOENT, kc)
                           | Some backend_uid \<Rightarrow> endpoint_manager v ctx kc backend_uid service_id service_v)
                        else (- ENOENT, kc))
      in if ret \<noteq> 0 then (ret, kc1\<lparr>dnat_ip := zero_ip, dnat_port := 0\<rparr>) else (ret, kc1))"

fun failover_loop :: "kview \<Rightarrow> u32 \<Rightarrow> bpf_sock_addr \<Rightarrow> kmesh_context \<Rightarrow> u32 \<Rightarrow> ServiceValue \<Rightarrow> nat list \<Rightarrow> handler_result" where
  "failover_loop v rnd ctx kc service_id service_v [] = (- ENOENT, kc)"
| "failover_loop v rnd ctx kc service_id service_v (i # rest) =
     (let count = EndpointCount service_v ! i in
      if count = 0 then failover_loop v rnd ctx kc service_id service_v rest
      else case map_lookup_endpoint v (EndpointKey service_id (word_of_nat i) (rnd mod count + 1)) of
             None \<Rightarrow> (- ENOENT, kc)
           | Some backend_uid \<Rightarrow> endpoint_manager v ctx kc backend_uid service_id service_v)"

definition lb_locality_failover_handle :: "kview \<Rightarrow> u32 \<Rightarrow> bpf_sock_addr \<Rightarrow> kmesh_context \<Rightarrow> u32 \<Rightarrow> ServiceValue \<Rightarrow> handler_result" where
  "lb_locality_failover_handle v rnd ctx kc service_id service_v =
     failover_loop v rnd ctx kc service_id service_v [0..<PrioCount]"

definition service_manager :: "kview \<Rightarrow> u32 \<Rightarrow> bpf_sock_addr \<Rightarrow> kmesh_context \<Rightarrow> u32 \<Rightarrow> ServiceValue \<Rightarrow> handler_result" where
  "service_manager v rnd ctx kc service_id service_v =
     (if ip4 (sv_WaypointAddr service_v) \<noteq> [0, 0, 0, 0] \<and> sv_WaypointPort service_v \<noteq> 0
      then waypoint_manager ctx kc (sv_WaypointAddr service_v) (sv_WaypointPort service_v)
      else if LbPolicy service_v = LB_POLICY_RANDOM then lb_random_handle v rnd ctx kc service_id service_v
      else if LbPolicy service_v = LB_POLICY_STRICT then lb_locality_strict_handle v rnd ctx kc service_id service_v
      else if LbPolicy service_v = LB_POLICY_FAILOVER then lb_locality_failover_handle v rnd ctx kc service_id service_v
      else (- EINVAL, kc))"

subsection \<open>frontend.h\<close>

definition map_lookup_frontend :: "kview \<Rightarrow> bytes \<Rightarrow> u32 option" where
  "map_lookup_frontend v key = v_frontend v key"

definition frontend_manager :: "kview \<Rightarrow> u32 \<Rightarrow> bpf_sock_addr \<Rightarrow> kmesh_context \<Rightarrow> u32 \<Rightarrow> handler_result" where
  "frontend_manager v rnd ctx kc upstream_id =
     (case map_lookup_service v upstream_id of
        None \<Rightarrow>
          (case map_lookup_backend v upstream_id of
             None \<Rightarrow> (- ENOENT, kc)
           | Some backend_v \<Rightarrow>
               if bv_WaypointPort backend_v \<noteq> 0
               then waypoint_manager ctx kc (bv_WaypointAddr backend_v) (bv_WaypointPort backend_v)
               else (0, kc))
      | Some service_v \<Rightarrow> service_manager v rnd ctx kc upstream_id service_v)"

subsection \<open>cgroup\_sock.c\<close>

definition sock_traffic_control :: "kview \<Rightarrow> u32 \<Rightarrow> bpf_sock_addr \<Rightarrow> kmesh_context \<Rightarrow> handler_result" where
  "sock_traffic_control v rnd ctx kc =
     (let frontend_k =
        (if family ctx = AF_INET then set_ip4 (ip4 (orig_dst_addr kc)) zero_ip
         else if family ctx = AF_INET6 then
           (if is_ipv4_mapped_addr (orig_dst_addr kc) then V4_MAPPED_REVERSE (orig_dst_addr kc)
            else orig_dst_addr kc)
         else zero_ip)
      in case map_lookup_frontend v frontend_k of
           None \<Rightarrow> (- ENOENT, kc)
         | Some upstream_id \<Rightarrow> frontend_manager v rnd ctx kc upstream_id)"

text \<open>
  The state a program changes: its context, the manager map, the storage of its socket, and
  the tail call it issues (which does not return when it succeeds).
\<close>

record dp_state =
  dp_ctx :: bpf_sock_addr
  dp_manager :: manager_map
  dp_storage :: "sock_storage_data option"
  dp_tail_call :: "nat option"

record dp_env =
  dp_maps :: kview
  dp_random :: u32
  dp_storage_ok :: bool
  dp_manager_ok :: bool

abbreviation (input) TAIL_CALL_CONNECT4_INDEX :: nat where "TAIL_CALL_CONNECT4_INDEX \<equiv> 0"
abbreviation (input) TAIL_CALL_CONNECT6_INDEX :: nat where "TAIL_CALL_CONNECT6_INDEX \<equiv> 1"

definition set_original_dst_info :: "bool \<Rightarrow> bpf_sock_addr \<Rightarrow> kmesh_context \<Rightarrow> sock_storage_data option \<Rightarrow> sock_storage_data option" where
  "set_original_dst_info ok ctx kc st =
     (case bpf_sk_storage_get True ok st of
        None \<Rightarrow> st
      | Some s \<Rightarrow>
          (let s1 = (if via_waypoint kc then s\<lparr>st_via_waypoint := True\<rparr> else s) in
           Some (if family ctx = AF_INET \<and> \<not> has_set_ip s1 then
                   s1\<lparr>sk_tuple := put_at 10 (le_put16 (ucast (user_port ctx)))
                                   (put_at 4 (ip4 (orig_dst_addr kc)) (sk_tuple s1)), has_set_ip := True\<rparr>
                 else if family ctx = AF_INET6 \<and> \<not> has_set_ip s1 then
                   s1\<lparr>sk_tuple := put_at 34 (le_put16 (ucast (user_port ctx)))
                                   (put_at 16 (orig_dst_addr kc) (sk_tuple s1)), has_set_ip := True\<rparr>
                 else s1)))"

text \<open>Only the creation of the storage matters here; the time stamp it writes is for the probes.\<close>

definition observe_on_pre_connect :: "bool \<Rightarrow> sock_storage_data option \<Rightarrow> sock_storage_data option" where
  "observe_on_pre_connect ok st = bpf_sk_storage_get True ok st"

definition SET_CTX_ADDRESS4 :: "bpf_sock_addr \<Rightarrow> bytes \<Rightarrow> u32 \<Rightarrow> bpf_sock_addr" where
  "SET_CTX_ADDRESS4 ctx addr port =
     (if user_family ctx = AF_INET then ctx\<lparr>user_ip4 := ip4 addr, user_port := port\<rparr> else ctx)"

definition SET_CTX_ADDRESS6 :: "bpf_sock_addr \<Rightarrow> bytes \<Rightarrow> u32 \<Rightarrow> bpf_sock_addr" where
  "SET_CTX_ADDRESS6 ctx addr port =
     (if user_family ctx = AF_INET6 then ctx\<lparr>user_ip6 := addr, user_port := port\<rparr> else ctx)"

text \<open>The context of an IPv4 and of an IPv6 program before it acts.\<close>

definition context4 :: "bpf_sock_addr \<Rightarrow> kmesh_context" where
  "context4 ctx = zero_context\<lparr>orig_dst_addr := set_ip4 (user_ip4 ctx) zero_ip,
     dnat_ip := set_ip4 (user_ip4 ctx) zero_ip, dnat_port := user_port ctx\<rparr>"

definition context6 :: "bpf_sock_addr \<Rightarrow> kmesh_context" where
  "context6 ctx = zero_context\<lparr>orig_dst_addr := user_ip6 ctx, dnat_ip := user_ip6 ctx, dnat_port := user_port ctx\<rparr>"

definition dns_port :: u32 where
  "dns_port = ucast (bpf_htons 53)"

definition connect_dns :: "dp_env \<Rightarrow> kmesh_context \<Rightarrow> dp_state \<Rightarrow> dp_state" where
  "connect_dns I kc s =
     (case map_lookup_backend (dp_maps I) 0 of
        None \<Rightarrow> s
      | Some backend_v \<Rightarrow>
          s\<lparr>dp_storage := set_original_dst_info (dp_storage_ok I) (dp_ctx s)
                            (kc\<lparr>dnat_ip := set_ip4 (ip4 (bv_Ip backend_v)) (dnat_ip kc)\<rparr>) (dp_storage s),
            dp_ctx := (dp_ctx s)\<lparr>user_ip4 := ip4 (bv_Ip backend_v)\<rparr>\<rparr>)"

definition connect_tcp4 :: "dp_env \<Rightarrow> kmesh_context \<Rightarrow> dp_state \<Rightarrow> dp_state" where
  "connect_tcp4 I kc s =
     (let s0 = s\<lparr>dp_storage := observe_on_pre_connect (dp_storage_ok I) (dp_storage s)\<rparr>;
          (ret, kc1) = sock_traffic_control (dp_maps I) (dp_random I) (dp_ctx s0) kc in
      if ret \<noteq> 0 then s0
      else (let s1 = s0\<lparr>dp_storage := set_original_dst_info (dp_storage_ok I) (dp_ctx s0) kc1 (dp_storage s0)\<rparr>;
                s2 = s1\<lparr>dp_ctx := SET_CTX_ADDRESS4 (dp_ctx s1) (dnat_ip kc1) (dnat_port kc1)\<rparr>
            in if via_waypoint kc1 then s2\<lparr>dp_tail_call := Some TAIL_CALL_CONNECT4_INDEX\<rparr> else s2))"

definition cgroup_connect4_prog :: "dp_env \<Rightarrow> dp_state \<Rightarrow> dp_state" where
  "cgroup_connect4_prog I s =
     (let ctx = dp_ctx s;
          kc = context4 ctx;
          (managed, m) = handle_kmesh_manage_process (dp_manager_ok I) ctx kc (dp_manager s);
          s1 = s\<lparr>dp_manager := m\<rparr>
      in if managed \<or> \<not> is_kmesh_enabled ctx m then s1
         else if user_port ctx = dns_port then connect_dns I kc s1
         else if protocol ctx \<noteq> IPPROTO_TCP then s1
         else connect_tcp4 I kc s1)"

definition connect_tcp6 :: "dp_env \<Rightarrow> kmesh_context \<Rightarrow> dp_state \<Rightarrow> dp_state" where
  "connect_tcp6 I kc s =
     (let s0 = s\<lparr>dp_storage := observe_on_pre_connect (dp_storage_ok I) (dp_storage s)\<rparr>;
          (ret, kc1) = sock_traffic_control (dp_maps I) (dp_random I) (dp_ctx s0) kc in
      if ret \<noteq> 0 then s0
      else (let s1 = s0\<lparr>dp_storage := set_original_dst_info (dp_storage_ok I) (dp_ctx s0) kc1 (dp_storage s0)\<rparr>;
                ip = (if is_ipv4_mapped_addr (user_ip6 (dp_ctx s1)) \<and> \<not> is_ipv4_mapped_addr (dnat_ip kc1)
                      then V4_MAPPED_TO_V6 (ip4 (dnat_ip kc1)) else dnat_ip kc1);
                s2 = s1\<lparr>dp_ctx := SET_CTX_ADDRESS6 (dp_ctx s1) ip (dnat_port kc1)\<rparr>
            in if via_waypoint kc1 then s2\<lparr>dp_tail_call := Some TAIL_CALL_CONNECT6_INDEX\<rparr> else s2))"

definition cgroup_connect6_prog :: "dp_env \<Rightarrow> dp_state \<Rightarrow> dp_state" where
  "cgroup_connect6_prog I s =
     (let ctx = dp_ctx s;
          kc = context6 ctx;
          (managed, m) = handle_kmesh_manage_process (dp_manager_ok I) ctx kc (dp_manager s);
          s1 = s\<lparr>dp_manager := m\<rparr>
      in if managed \<or> \<not> is_kmesh_enabled ctx m then s1
         else if protocol ctx \<noteq> IPPROTO_TCP then s1
         else connect_tcp6 I kc s1)"

definition bpf_redirect_dns_send :: "dp_env \<Rightarrow> dp_state \<Rightarrow> dp_state" where
  "bpf_redirect_dns_send I s =
     (let ctx = dp_ctx s;
          kc = context4 ctx;
          (managed, m) = handle_kmesh_manage_process (dp_manager_ok I) ctx kc (dp_manager s);
          s1 = s\<lparr>dp_manager := m\<rparr>
      in if managed \<or> \<not> is_kmesh_enabled ctx m then s1
         else if user_port ctx \<noteq> dns_port then s1
         else case map_lookup_backend (dp_maps I) 0 of
                None \<Rightarrow> s1
              | Some backend_v \<Rightarrow>
                  s1\<lparr>dp_storage := set_original_dst_info (dp_storage_ok I) ctx kc (dp_storage s1),
                     dp_ctx := ctx\<lparr>user_ip4 := ip4 (bv_Ip backend_v)\<rparr>\<rparr>)"

definition bpf_restore_dns_recv :: "dp_env \<Rightarrow> dp_state \<Rightarrow> dp_state" where
  "bpf_restore_dns_recv I s =
     (let ctx = dp_ctx s;
          kc = context4 ctx;
          (managed, m) = handle_kmesh_manage_process (dp_manager_ok I) ctx kc (dp_manager s);
          s1 = s\<lparr>dp_manager := m\<rparr>
      in if managed \<or> \<not> is_kmesh_enabled ctx m then s1
         else if user_port ctx \<noteq> dns_port then s1
         else case map_lookup_backend (dp_maps I) 0 of
                None \<Rightarrow> s1
              | Some backend_v \<Rightarrow>
                  (case bpf_sk_storage_get True (dp_storage_ok I) (dp_storage s1) of
                     None \<Rightarrow> s1
                   | Some st \<Rightarrow> s1\<lparr>dp_storage := Some st,
                                   dp_ctx := ctx\<lparr>user_ip4 := ipv4_daddr (sk_tuple st)\<rparr>\<rparr>))"

subsection \<open>Load balancing\<close>

lemma draw_bounds:
  fixes count :: u32
  assumes "count \<noteq> 0"
  shows "0 < rnd mod count + 1" "rnd mod count + 1 \<le> count"
proof -
  have c: "0 < unat count" using assms by (simp add: unat_gt_0)
  have lt: "unat (rnd mod count) < unat count" using c by (simp add: unat_mod)
  then have "unat (rnd mod count + 1) = Suc (unat (rnd mod count))"
    using unat_less_u32 [of count] by (subst unat_add_lem [THEN iffD1]) auto
  with lt show "0 < rnd mod count + 1" "rnd mod count + 1 \<le> count"
    by (simp_all add: word_less_nat_alt word_le_nat_alt)
qed

lemma draw_endpoint:
  assumes "no_gap v" and "v_service v s = Some sv" and "i < PrioCount" and "EndpointCount sv ! i \<noteq> 0"
  shows "\<exists>uid. v_endpoint v (EndpointKey s (word_of_nat i) (rnd mod (EndpointCount sv ! i) + 1)) = Some uid \<and>
           uid \<in> set (groups v (s, word_of_nat i))"
proof -
  let ?p = "word_of_nat i :: u32" and ?k = "rnd mod (EndpointCount sv ! i) + 1"
  have p: "unat ?p = i" using assms(3) by (simp add: unat_of_nat)
  note k = draw_bounds [OF assms(4), of rnd]
  obtain uid where uid: "v_endpoint v (EndpointKey s ?p ?k) = Some uid"
    using assms(1) [unfolded no_gap_def, rule_format, OF assms(2), of ?p ?k] assms(3) k p by auto
  have "groups v (s, ?p) ! (unat ?k - 1) = uid"
    using nth_groups [OF assms(2), of ?p ?k] k p assms(3) uid by simp
  moreover have "unat ?k - 1 < length (groups v (s, ?p))"
    using length_groups [OF assms(2), of ?p] k p assms(3) by (simp add: u32_pos_iff word_le_nat_alt)
  ultimately show ?thesis using uid nth_mem by metis
qed

text \<open>The priority a policy draws from: the best one that has endpoints, for the failover policy.\<close>

definition chosen_prio :: "ServiceValue \<Rightarrow> nat option" where
  "chosen_prio sv =
     (if LbPolicy sv = LB_POLICY_FAILOVER then find (\<lambda>i. EndpointCount sv ! i \<noteq> 0) [0..<PrioCount]
      else if EndpointCount sv ! 0 \<noteq> 0 then Some 0 else None)"

lemma chosen_prioD:
  "chosen_prio sv = Some i \<Longrightarrow> i < PrioCount \<and> EndpointCount sv ! i \<noteq> 0"
  by (auto simp: chosen_prio_def find_Some_iff split: if_splits)

lemma failover_loop_find:
  "failover_loop v rnd ctx kc s sv is =
     (case find (\<lambda>i. EndpointCount sv ! i \<noteq> 0) is of
        None \<Rightarrow> (- ENOENT, kc)
      | Some i \<Rightarrow>
          (case map_lookup_endpoint v (EndpointKey s (word_of_nat i) (rnd mod (EndpointCount sv ! i) + 1)) of
             None \<Rightarrow> (- ENOENT, kc) | Some uid \<Rightarrow> endpoint_manager v ctx kc uid s sv))"
  by (induction "is") (auto simp: Let_def)

text \<open>
  On a view without gaps every policy hands over to the backend of a drawn endpoint; the strict
  policy also clears the address when that fails.
\<close>

lemma service_manager_draws:
  assumes "no_gap v" and "v_service v s = Some sv" and "sv_WaypointPort sv = 0"
    and "LbPolicy sv \<in> {LB_POLICY_RANDOM, LB_POLICY_STRICT, LB_POLICY_FAILOVER}"
    and "chosen_prio sv = Some i"
  shows "\<exists>uid \<in> set (groups v (s, word_of_nat i)).
     (\<forall>ctx kc r. endpoint_manager v ctx kc uid s sv = (0, r) \<longrightarrow> service_manager v rnd ctx kc s sv = (0, r))"
proof -
  note i = chosen_prioD [OF assms(5)]
  obtain uid where uid: "v_endpoint v (EndpointKey s (word_of_nat i) (rnd mod (EndpointCount sv ! i) + 1)) = Some uid"
    "uid \<in> set (groups v (s, word_of_nat i))"
    using draw_endpoint [OF assms(1,2)] i by blast
  have "service_manager v rnd ctx kc s sv = (0, r)" if e: "endpoint_manager v ctx kc uid s sv = (0, r)" for ctx kc r
  proof (cases "LbPolicy sv = LB_POLICY_FAILOVER")
    case True
    then have "find (\<lambda>i. EndpointCount sv ! i \<noteq> 0) [0..<PrioCount] = Some i"
      using assms(5) by (simp add: chosen_prio_def)
    with True uid(1) e assms(3) show ?thesis
      by (simp add: service_manager_def lb_locality_failover_handle_def failover_loop_find map_lookup_endpoint_def
          del: upt_rec_numeral)
  next
    case False
    then have "i = 0" "EndpointCount sv ! 0 \<noteq> 0"
      using assms(5) by (simp_all add: chosen_prio_def split: if_splits)
    with False uid(1) e assms(3,4) show ?thesis
      by (auto simp: service_manager_def lb_random_handle_def lb_locality_strict_handle_def map_lookup_endpoint_def)
  qed
  with uid(2) show ?thesis by blast
qed

subsection \<open>Destination rewriting\<close>

text \<open>The service's pairs of ports, as a partial function: the first pair decides.\<close>

definition target_of :: "ServiceValue \<Rightarrow> u32 \<Rightarrow> u32 option" where
  "target_of sv p = map_of (zip (ServicePort sv) (TargetPort sv)) p"

lemma svc_dnat_loop_map_of:
  "map_of ps (user_port ctx) = Some t \<Longrightarrow>
   svc_dnat_loop ctx kc b ps = (0, (if user_family ctx = AF_INET then kc\<lparr>dnat_ip := set_ip4 (ip4 (bv_Ip b)) (dnat_ip kc)\<rparr>
                 else kc\<lparr>dnat_ip := bv_Ip b\<rparr>)\<lparr>dnat_port := t, via_waypoint := False\<rparr>)"
  "map_of ps (user_port ctx) = None \<Longrightarrow> svc_dnat_loop ctx kc b ps = (- ENOENT, kc)"
  by (induction ps) (auto simp: Let_def split: if_splits)

text \<open>A connection of a managed pod that is not one of the control connections of the CNI plugin.\<close>

definition mesh_connect :: "bpf_sock_addr \<Rightarrow> kmesh_context \<Rightarrow> manager_map \<Rightarrow> bool" where
  "mesh_connect ctx kc m \<longleftrightarrow>
     \<not> conn_from_cni_sim_add ctx kc \<and> \<not> conn_from_cni_sim_delete ctx kc \<and> is_kmesh_enabled ctx m"

lemma mesh_connect_run: "mesh_connect ctx kc m \<Longrightarrow> handle_kmesh_manage_process ok ctx kc m = (False, m)"
  by (simp add: mesh_connect_def handle_kmesh_manage_process_def)

lemma ip4_set_ip4 [simp]: "length v = 4 \<Longrightarrow> ip4 (set_ip4 v a) = v"
  by (simp add: ip4_def set_ip4_def)

lemma set_ip4_twice [simp]: "length v = 4 \<Longrightarrow> set_ip4 w (set_ip4 v a) = set_ip4 w a"
  by (simp add: set_ip4_def)

lemma connect_tcp4_ok:
  assumes "sock_traffic_control (dp_maps I) (dp_random I) (dp_ctx s) kc = (0, kc1)"
  shows "dp_ctx (connect_tcp4 I kc s) = SET_CTX_ADDRESS4 (dp_ctx s) (dnat_ip kc1) (dnat_port kc1)"
  using assms by (simp add: connect_tcp4_def Let_def)

lemma endpoint_manager_direct:
  assumes "v_backend v uid = Some b" and "bv_WaypointPort b = 0" and "target_of sv (user_port ctx) = Some t"
    and "user_family ctx = AF_INET"
  shows "endpoint_manager v ctx kc uid s sv =
     (0, kc\<lparr>dnat_ip := set_ip4 (ip4 (bv_Ip b)) (dnat_ip kc), dnat_port := t, via_waypoint := False\<rparr>)"
  using assms svc_dnat_loop_map_of(1) [of "zip (ServicePort sv) (TargetPort sv)" ctx t kc b]
  by (simp add: endpoint_manager_def map_lookup_backend_def backend_manager_def svc_dnat_def target_of_def)

text \<open>
  C2.  A connection to a service goes to one of its endpoints.  Let the maps have no gap, let
  the frontend map lead the destination to a service without waypoint whose policy finds a
  priority with endpoints, and let the destination port be one of the service's.  Then, for
  every random number, the program rewrites the destination to the address of a backend in the
  endpoint group of that priority and to the target port paired with the first matching
  service port.
\<close>

theorem connect4_reaches_endpoint:
  fixes I :: dp_env and s :: dp_state
  defines "v \<equiv> dp_maps I" and "ctx \<equiv> dp_ctx s"
  assumes "no_gap v"
    and "mesh_connect ctx (context4 ctx) (dp_manager s)"
    and "family ctx = AF_INET" "user_family ctx = AF_INET" "protocol ctx = IPPROTO_TCP"
      "user_port ctx \<noteq> dns_port" "length (user_ip4 ctx) = 4"
    and "v_frontend v (set_ip4 (user_ip4 ctx) zero_ip) = Some sid" "v_service v sid = Some sv"
    and "sv_WaypointPort sv = 0" "LbPolicy sv \<in> {LB_POLICY_RANDOM, LB_POLICY_STRICT, LB_POLICY_FAILOVER}"
    and "chosen_prio sv = Some i" and "target_of sv (user_port ctx) = Some t"
    and "\<forall>uid \<in> set (groups v (sid, word_of_nat i)). \<exists>b. v_backend v uid = Some b \<and> bv_WaypointPort b = 0 \<and> length (bv_Ip b) = 16"
  shows "\<exists>uid b. uid \<in> set (groups v (sid, word_of_nat i)) \<and> v_backend v uid = Some b \<and>
           dp_ctx (cgroup_connect4_prog I s) = ctx\<lparr>user_ip4 := ip4 (bv_Ip b), user_port := t\<rparr>"
proof -
  let ?kc = "context4 ctx"
  obtain uid where uid: "uid \<in> set (groups v (sid, word_of_nat i))"
    "\<And>kc r. endpoint_manager v ctx kc uid sid sv = (0, r) \<Longrightarrow> service_manager v (dp_random I) ctx kc sid sv = (0, r)"
    using service_manager_draws [OF assms(3,11,12,13,14), of "dp_random I"] by blast
  then obtain b where b: "v_backend v uid = Some b" "bv_WaypointPort b = 0" "length (bv_Ip b) = 16" using assms(16) by blast
  let ?kc1 = "?kc\<lparr>dnat_ip := set_ip4 (ip4 (bv_Ip b)) (dnat_ip ?kc), dnat_port := t, via_waypoint := False\<rparr>"
  have len: "length (ip4 (bv_Ip b)) = 4" using b(3) by (simp add: ip4_def)
  have "service_manager v (dp_random I) ctx ?kc sid sv = (0, ?kc1)"
    by (rule uid(2) [OF endpoint_manager_direct [OF b(1,2) assms(15,6)]])
  then have "sock_traffic_control v (dp_random I) ctx ?kc = (0, ?kc1)"
    using assms(5,9,10,11)
    by (simp add: sock_traffic_control_def map_lookup_frontend_def frontend_manager_def map_lookup_service_def context4_def)
  then have "dp_ctx (connect_tcp4 I ?kc s) = ctx\<lparr>user_ip4 := ip4 (bv_Ip b), user_port := t\<rparr>"
    using connect_tcp4_ok [of I s ?kc ?kc1] assms(6) len by (simp add: v_def ctx_def SET_CTX_ADDRESS4_def)
  moreover have "cgroup_connect4_prog I s = connect_tcp4 I ?kc s"
    using mesh_connect_run [OF assms(4)] assms(4,7,8)
    by (simp add: cgroup_connect4_prog_def ctx_def Let_def mesh_connect_def)
  ultimately show ?thesis using uid(1) b(1) by auto
qed

text \<open>A view with one service of two endpoints, and a pod that connects to it.\<close>

definition web_service :: ServiceValue where
  "web_service = zero_ServiceValue\<lparr>EndpointCount := [2, 0, 0, 0, 0, 0, 0],
     ServicePort := [0x5000, 0, 0, 0, 0, 0, 0, 0, 0, 0], TargetPort := [0x901f, 0, 0, 0, 0, 0, 0, 0, 0, 0]\<rparr>"

definition pod :: "u8 \<Rightarrow> BackendValue" where
  "pod n = zero_BackendValue\<lparr>bv_Ip := [10, 0, 0, n, 0, 0, 0, 0, 0, 0, 0, 0, 0, 0, 0, 0]\<rparr>"

definition web_view :: kview where
  "web_view = \<lparr>v_frontend = [set_ip4 [10, 96, 0, 1] zero_ip \<mapsto> 5], v_service = [5 \<mapsto> web_service],
     v_endpoint = [EndpointKey 5 0 1 \<mapsto> 11, EndpointKey 5 0 2 \<mapsto> 12],
     v_backend = [11 \<mapsto> pod 1, 12 \<mapsto> pod 2], v_wlpolicy = Map.empty\<rparr>"

definition web_env :: dp_env where
  "web_env = \<lparr>dp_maps = web_view, dp_random = 7, dp_storage_ok = True, dp_manager_ok = True\<rparr>"

definition client :: bpf_sock_addr where
  "client = \<lparr>family = AF_INET, user_family = AF_INET, user_ip4 = [10, 96, 0, 1], user_ip6 = zero_ip,
     user_port = 0x5000, protocol = IPPROTO_TCP, netns_cookie = 9\<rparr>"

definition client_state :: dp_state where
  "client_state = \<lparr>dp_ctx = client, dp_manager = [cookie_key 9 \<mapsto> 0], dp_storage = None, dp_tail_call = None\<rparr>"

lemma web_groups: "groups web_view (5, 0) = [11, 12]"
proof -
  have "[0..<unat (2 :: u32)] = [0, 1]" by (simp add: upt_rec)
  then show ?thesis by (simp add: groups_def web_view_def web_service_def)
qed

lemma web_no_gap: "no_gap web_view"
proof -
  have small: "0 < i \<and> i \<le> 2 \<longleftrightarrow> i = 1 \<or> i = 2" for i :: u32
    by (auto simp: word_less_nat_alt word_le_nat_alt word_unat_eq_iff)
  have zero: "[0, 0, 0, 0, 0, 0 :: u32] ! n = 0" if "n < 6" for n
    using that by (simp add: nth_Cons split: nat.splits)
  have cnt: "[2, 0, 0, 0, 0, 0, 0 :: u32] ! unat p = (if p = 0 then 2 else 0)" if "unat p < PrioCount" for p :: u32
  proof (cases "unat p")
    case (Suc m)
    then have "p \<noteq> 0" by auto
    with Suc that zero [of m] show ?thesis by simp
  qed (simp add: unat_eq_0)
  have "v_endpoint web_view (EndpointKey 5 p i) \<noteq> None"
    if "unat p < PrioCount" "0 < i" "i \<le> [2, 0, 0, 0, 0, 0, 0 :: u32] ! unat p" for p i
    using that cnt [OF that(1)] small [of i] by (auto simp: web_view_def split: if_splits)
  then show ?thesis by (auto simp: no_gap_def web_view_def web_service_def split: if_splits)
qed

lemma client_connects: "mesh_connect client (context4 client) (dp_manager client_state)"
  by (simp add: mesh_connect_def conn_from_cni_sim_add_def conn_from_cni_sim_delete_def is_control_connect_def
      is_kmesh_enabled_def client_def client_state_def bpf_htons_def)

theorem connect4_reaches_endpoint_witness:
  "\<exists>uid b. uid \<in> {11, 12} \<and> v_backend web_view uid = Some b \<and>
     dp_ctx (cgroup_connect4_prog web_env client_state) = client\<lparr>user_ip4 := ip4 (bv_Ip b), user_port := 0x901f\<rparr>"
proof -
  have sel: "dp_maps web_env = web_view" "dp_ctx client_state = client" by (simp_all add: web_env_def client_state_def)
  have "\<forall>uid \<in> set (groups web_view (5, word_of_nat 0)). \<exists>b. v_backend web_view uid = Some b \<and>
      bv_WaypointPort b = 0 \<and> length (bv_Ip b) = 16"
    by (simp add: web_groups) (simp add: web_view_def pod_def zero_BackendValue_def)
  moreover have "v_frontend web_view (set_ip4 (user_ip4 client) zero_ip) = Some 5" "v_service web_view 5 = Some web_service"
    by (simp_all add: web_view_def client_def)
  moreover have "sv_WaypointPort web_service = 0" "LbPolicy web_service \<in> {0, 1, 2}" "chosen_prio web_service = Some 0"
    "target_of web_service (user_port client) = Some 0x901f" "user_port client \<noteq> dns_port"
    by (simp_all add: web_service_def zero_ServiceValue_def chosen_prio_def target_of_def client_def dns_port_def bpf_htons_def)
  moreover have "family client = AF_INET" "user_family client = AF_INET" "protocol client = IPPROTO_TCP"
    "length (user_ip4 client) = 4"
    by (simp_all add: client_def)
  ultimately show ?thesis
    using connect4_reaches_endpoint [of web_env client_state 5 web_service 0 "0x901f", unfolded sel,
        OF web_no_gap client_connects] web_groups by auto
qed

subsection \<open>IPv4-mapped destinations\<close>

definition v4_addr :: "bytes \<Rightarrow> bool" where
  "v4_addr a \<longleftrightarrow> (\<exists>w. length w = 4 \<and> a = set_ip4 w zero_ip)"

text \<open>The daemon wrote IPv4 addresses only.\<close>

definition v4_maps :: "kview \<Rightarrow> bool" where
  "v4_maps v \<longleftrightarrow>
     (\<forall>uid b. v_backend v uid = Some b \<longrightarrow> v4_addr (bv_Ip b) \<and> v4_addr (bv_WaypointAddr b)) \<and>
     (\<forall>sid sv. v_service v sid = Some sv \<longrightarrow> v4_addr (sv_WaypointAddr sv))"

text \<open>
  The context of the IPv6 program follows that of the IPv4 one: the same port, and an address
  that is the IPv4 address as the maps store it or in its mapped form.
\<close>

definition krel :: "kmesh_context \<Rightarrow> kmesh_context \<Rightarrow> bool" where
  "krel k k' \<longleftrightarrow> dnat_port k' = dnat_port k \<and> via_waypoint k' = via_waypoint k \<and> length (ip4 (dnat_ip k)) = 4 \<and>
     (dnat_ip k' = set_ip4 (ip4 (dnat_ip k)) zero_ip \<or> dnat_ip k' = V4_MAPPED_TO_V6 (ip4 (dnat_ip k)))"

definition rrel :: "handler_result \<Rightarrow> handler_result \<Rightarrow> bool" where
  "rrel r r' \<longleftrightarrow> fst r' = fst r \<and> (fst r = 0 \<longrightarrow> krel (snd r) (snd r'))"

definition crel :: "bpf_sock_addr \<Rightarrow> bpf_sock_addr \<Rightarrow> bool" where
  "crel c c' \<longleftrightarrow> user_family c = AF_INET \<and> user_family c' = AF_INET6 \<and> user_port c' = user_port c"

lemma krel_addr:
  assumes "v4_addr a" and "krel k k'" and "length (ip4 (dnat_ip k)) = 4"
  shows "krel (k\<lparr>dnat_ip := set_ip4 (ip4 a) (dnat_ip k), dnat_port := p, via_waypoint := w\<rparr>)
              (k'\<lparr>dnat_ip := a, dnat_port := p, via_waypoint := w\<rparr>)"
  using assms by (auto simp: krel_def v4_addr_def)

lemma waypoint_manager_rel:
  assumes "v4_addr a" "crel c c'" "krel k k'"
  shows "rrel (waypoint_manager c k a p) (waypoint_manager c' k' a p)"
proof -
  have "length (ip4 (dnat_ip k)) = 4" using assms(3) by (simp add: krel_def)
  from krel_addr [OF assms(1,3) this, where p = p and w = True] assms(2) show ?thesis
    by (simp add: rrel_def waypoint_manager_def crel_def)
qed

lemma svc_dnat_loop_rel:
  assumes "v4_addr (bv_Ip b)" "crel c c'" "krel k k'"
  shows "rrel (svc_dnat_loop c k b ps) (svc_dnat_loop c' k' b ps)"
proof -
  have l: "length (ip4 (dnat_ip k)) = 4" using assms(3) by (simp add: krel_def)
  show ?thesis
  proof (cases "map_of ps (user_port c)")
    case None
    then show ?thesis using assms(2) by (simp add: rrel_def crel_def svc_dnat_loop_map_of(2))
  next
    case (Some t)
    with krel_addr [OF assms(1,3) l, where p = t and w = False] assms(2) show ?thesis
      by (simp add: rrel_def crel_def svc_dnat_loop_map_of(1))
  qed
qed

lemma endpoint_manager_rel:
  assumes "v4_maps v" "crel c c'" "krel k k'"
  shows "rrel (endpoint_manager v c k uid sid sv) (endpoint_manager v c' k' uid sid sv)"
proof (cases "v_backend v uid")
  case (Some b)
  then have "v4_addr (bv_Ip b)" "v4_addr (bv_WaypointAddr b)" using assms(1) unfolding v4_maps_def by blast+
  then show ?thesis
    using Some waypoint_manager_rel [OF _ assms(2,3)] svc_dnat_loop_rel [OF _ assms(2,3)]
    by (simp add: endpoint_manager_def map_lookup_backend_def backend_manager_def svc_dnat_def)
qed (simp add: endpoint_manager_def map_lookup_backend_def rrel_def)

lemma service_manager_rel:
  assumes "v4_maps v" "crel c c'" "krel k k'" "v_service v sid = Some sv"
  shows "rrel (service_manager v rnd c k sid sv) (service_manager v rnd c' k' sid sv)"
proof -
  have e: "rrel (endpoint_manager v c k uid sid sv) (endpoint_manager v c' k' uid sid sv)" for uid
    by (rule endpoint_manager_rel [OF assms(1-3)])
  have "v4_addr (sv_WaypointAddr sv)" using assms(1,4) unfolding v4_maps_def by blast
  then have w: "rrel (waypoint_manager c k (sv_WaypointAddr sv) (sv_WaypointPort sv))
      (waypoint_manager c' k' (sv_WaypointAddr sv) (sv_WaypointPort sv))"
    by (rule waypoint_manager_rel [OF _ assms(2,3)])
  have n: "rrel (- ENOENT, k) (- ENOENT, k')" "rrel (- EINVAL, k) (- EINVAL, k')" "rrel (0, k) (0, k')"
    using assms(3) by (simp_all add: rrel_def)
  have r: "rrel (lb_random_handle v rnd c k sid sv) (lb_random_handle v rnd c' k' sid sv)"
    using e n by (simp add: lb_random_handle_def Let_def split: option.split)
  have f: "rrel (lb_locality_failover_handle v rnd c k sid sv) (lb_locality_failover_handle v rnd c' k' sid sv)"
    using e n by (simp add: lb_locality_failover_handle_def failover_loop_find split: option.split)
  have s: "rrel (lb_locality_strict_handle v rnd c k sid sv) (lb_locality_strict_handle v rnd c' k' sid sv)"
    using e n(1)
    by (simp add: lb_locality_strict_handle_def Let_def rrel_def split: option.split prod.split) (metis fst_conv snd_conv)
  show ?thesis using w r f s n by (simp add: service_manager_def)
qed

lemma frontend_manager_rel:
  assumes "v4_maps v" "crel c c'" "krel k k'"
  shows "rrel (frontend_manager v rnd c k u) (frontend_manager v rnd c' k' u)"
proof (cases "v_service v u")
  case (Some sv)
  then show ?thesis using service_manager_rel [OF assms Some] by (simp add: frontend_manager_def map_lookup_service_def)
next
  case None
  show ?thesis
  proof (cases "v_backend v u")
    case (Some b)
    then have "v4_addr (bv_WaypointAddr b)" using assms(1) unfolding v4_maps_def by blast
    then show ?thesis using None Some waypoint_manager_rel [OF _ assms(2,3)] assms(3)
      by (simp add: frontend_manager_def map_lookup_service_def map_lookup_backend_def) (simp add: rrel_def)
  qed (use None in \<open>simp add: frontend_manager_def map_lookup_service_def map_lookup_backend_def rrel_def\<close>)
qed



subsection \<open>DNS redirection and the set of managed pods\<close>

lemma dns_not_control:
  assumes "user_port ctx = dns_port"
  shows "mesh_connect ctx kc m = is_kmesh_enabled ctx m"
  using assms by (simp add: mesh_connect_def conn_from_cni_sim_add_def conn_from_cni_sim_delete_def
      is_control_connect_def dns_port_def bpf_htons_def)

lemma dns_send_run:
  assumes "is_kmesh_enabled (dp_ctx s) (dp_manager s)" "user_port (dp_ctx s) = dns_port" "v_backend (dp_maps I) 0 = Some proxy"
  shows "bpf_redirect_dns_send I s = s\<lparr>dp_storage := set_original_dst_info (dp_storage_ok I) (dp_ctx s) (context4 (dp_ctx s)) (dp_storage s),
           dp_ctx := (dp_ctx s)\<lparr>user_ip4 := ip4 (bv_Ip proxy)\<rparr>\<rparr>"
  using assms mesh_connect_run [of "dp_ctx s" "context4 (dp_ctx s)" "dp_manager s"]
  by (simp add: bpf_redirect_dns_send_def dns_not_control map_lookup_backend_def Let_def)

lemma dns_recv_run:
  assumes "is_kmesh_enabled (dp_ctx s) (dp_manager s)" "user_port (dp_ctx s) = dns_port" "v_backend (dp_maps I) 0 = Some proxy"
    "dp_storage s = Some st"
  shows "bpf_restore_dns_recv I s = s\<lparr>dp_ctx := (dp_ctx s)\<lparr>user_ip4 := ipv4_daddr (sk_tuple st)\<rparr>\<rparr>"
  using assms mesh_connect_run [of "dp_ctx s" "context4 (dp_ctx s)" "dp_manager s"]
  by (simp add: bpf_restore_dns_recv_def dns_not_control map_lookup_backend_def bpf_sk_storage_get_def Let_def)

lemma le_bytes64_inj: "le_bytes64 v = le_bytes64 w \<Longrightarrow> v = w"
proof (rule bit_word_eqI)
  fix n assume eq: "le_bytes64 v = le_bytes64 w" and "n < LENGTH(64)"
  then have i: "n div 8 < 8" by simp
  have byte: "bit (le_bytes64 x ! (n div 8)) (n mod 8) = bit x n" for x
    using i by (simp add: le_bytes64_def bit_simps)
  show "bit v n = bit w n" using byte [of v] byte [of w] eq by simp
qed

lemma cookie_key_inj: "cookie_key v = cookie_key w \<longleftrightarrow> v = w"
  using le_bytes64_inj by (auto simp: cookie_key_def)


text \<open>
  A socket that queries a second server gets the answer under the first one's address: the
  original destination is remembered once per socket.
\<close>

theorem dns_second_server_misattributed:
  assumes "is_kmesh_enabled (dp_ctx s) (dp_manager s)" and "user_port (dp_ctx s) = dns_port"
    and "family (dp_ctx s) = AF_INET" and "length (user_ip4 (dp_ctx s)) = 4"
    and "v_backend (dp_maps I) 0 = Some proxy" and "dp_storage_ok I" and "dp_storage s = None"
  shows "user_ip4 (dp_ctx (bpf_restore_dns_recv I (bpf_redirect_dns_send I
           ((bpf_redirect_dns_send I s)\<lparr>dp_ctx := (dp_ctx s)\<lparr>user_ip4 := other\<rparr>\<rparr>)))) = user_ip4 (dp_ctx s)"
proof -
  let ?s2 = "(bpf_redirect_dns_send I s)\<lparr>dp_ctx := (dp_ctx s)\<lparr>user_ip4 := other\<rparr>\<rparr>"
  note snd = dns_send_run [OF assms(1,2,5)]
  obtain st where st: "dp_storage (bpf_redirect_dns_send I s) = Some st" "ipv4_daddr (sk_tuple st) = user_ip4 (dp_ctx s)"
    "has_set_ip st"
    using assms(3,4,6,7)
    by (simp add: snd set_original_dst_info_def bpf_sk_storage_get_def zero_storage_def context4_def zero_context_def
        put_at_other put_at_same)
  have 2: "is_kmesh_enabled (dp_ctx ?s2) (dp_manager ?s2)" "user_port (dp_ctx ?s2) = dns_port"
    using assms(1,2) by (simp_all add: snd is_kmesh_enabled_def)
  note snd2 = dns_send_run [OF 2 assms(5)]
  have st2: "dp_storage (bpf_redirect_dns_send I ?s2) = Some st"
    using st(1,3) by (simp add: snd2 set_original_dst_info_def bpf_sk_storage_get_def context4_def zero_context_def)
  have "is_kmesh_enabled (dp_ctx (bpf_redirect_dns_send I ?s2)) (dp_manager (bpf_redirect_dns_send I ?s2))"
    "user_port (dp_ctx (bpf_redirect_dns_send I ?s2)) = dns_port"
    using 2 by (simp_all add: snd2 is_kmesh_enabled_def)
  from dns_recv_run [OF this assms(5) st2] show ?thesis using st(2) by simp
qed

definition dns_env :: dp_env where
  "dns_env = web_env\<lparr>dp_maps := web_view\<lparr>v_backend := [0 \<mapsto> pod 53]\<rparr>\<rparr>"

definition dns_client :: dp_state where
  "dns_client = client_state\<lparr>dp_ctx := client\<lparr>user_ip4 := [10, 96, 0, 10], user_port := dns_port\<rparr>\<rparr>"

lemma dns_client_ok:
  "is_kmesh_enabled (dp_ctx dns_client) (dp_manager dns_client)" "user_port (dp_ctx dns_client) = dns_port"
  "family (dp_ctx dns_client) = AF_INET" "length (user_ip4 (dp_ctx dns_client)) = 4"
  "v_backend (dp_maps dns_env) 0 = Some (pod 53)" "dp_storage_ok dns_env" "dp_storage dns_client = None"
  by (simp_all add: dns_client_def dns_env_def client_state_def client_def web_env_def is_kmesh_enabled_def)


theorem dns_second_server_misattributed_witness:
  "user_ip4 (dp_ctx (bpf_restore_dns_recv dns_env (bpf_redirect_dns_send dns_env
     ((bpf_redirect_dns_send dns_env dns_client)\<lparr>dp_ctx := (dp_ctx dns_client)\<lparr>user_ip4 := [8, 8, 8, 8]\<rparr>\<rparr>)))) =
   [10, 96, 0, 10]"
  using dns_second_server_misattributed [OF dns_client_ok, of "[8, 8, 8, 8]"] by (simp add: dns_client_def)

text \<open>
  The control connections of the CNI plugin switch exactly one pod: after the enabling
  connection the pod's network namespace is managed, after the disabling one it is not, and no
  other namespace changes.  Neither connection is redirected.
\<close>

theorem manage_control_connections:
  fixes ctx kc m
  defines "r \<equiv> handle_kmesh_manage_process True ctx kc m"
  assumes "conn_from_cni_sim_add ctx kc \<or> conn_from_cni_sim_delete ctx kc"
  shows "fst r \<and> (is_kmesh_enabled ctx (snd r) \<longleftrightarrow> conn_from_cni_sim_add ctx kc) \<and>
         (\<forall>other. netns_cookie other \<noteq> netns_cookie ctx \<longrightarrow> is_kmesh_enabled other (snd r) = is_kmesh_enabled other m)"
  using assms(2)
  by (auto simp: r_def handle_kmesh_manage_process_def record_manager_netns_cookie_def remove_manager_netns_cookie_def
      is_kmesh_enabled_def cookie_key_inj)

theorem manage_control_connections_witness:
  "let ctl = client\<lparr>user_ip4 := [0, 0, 0, 2], user_port := ucast (bpf_htons ENABLE_KMESH_PORT)\<rparr> in
   is_kmesh_enabled ctl (snd (handle_kmesh_manage_process True ctl (context4 ctl) Map.empty))"
proof -
  let ?ctl = "client\<lparr>user_ip4 := [0, 0, 0, 2], user_port := ucast (bpf_htons ENABLE_KMESH_PORT)\<rparr>"
  have "conn_from_cni_sim_add ?ctl (context4 ?ctl)"
    by (simp add: conn_from_cni_sim_add_def is_control_connect_def client_def context4_def bpf_htons_def bpf_ntohl_def
        ip4_def set_ip4_def)
  with manage_control_connections [of ?ctl "context4 ?ctl" Map.empty] show ?thesis by (simp add: Let_def)
qed

end
