(* ===== verification/Sendmsg.thy ===== *)
theory Sendmsg
  imports Data_Path
begin

text \<open>
  The message program that tells a waypoint where a redirected connection was going
  (\<open>bpf/kmesh/workload/sendmsg.c\<close>): the first message of the socket is prefixed with the
  original destination, encoded as a type, a length and a value, and an empty end block.
  A message is the bytes between \<open>data\<close> and \<open>data\_end\<close>.  \<open>bpf_msg_push_data\<close> may fail; when it
  succeeds it inserts bytes of unknown contents, the argument \<open>junk\<close>.
\<close>

abbreviation TLV_TYPE_SIZE :: nat where "TLV_TYPE_SIZE \<equiv> 1"
abbreviation TLV_LENGTH_SIZE :: nat where "TLV_LENGTH_SIZE \<equiv> 4"
abbreviation TLV_IP4_LENGTH :: nat where "TLV_IP4_LENGTH \<equiv> 4"
abbreviation TLV_IP6_LENGTH :: nat where "TLV_IP6_LENGTH \<equiv> 16"
abbreviation TLV_PORT_LENGTH :: nat where "TLV_PORT_LENGTH \<equiv> 2"

abbreviation TLV_ORG_DST_ADDR4_LENGTH :: nat where "TLV_ORG_DST_ADDR4_LENGTH \<equiv> TLV_IP4_LENGTH + TLV_PORT_LENGTH"
abbreviation TLV_ORG_DST_ADDR6_LENGTH :: nat where "TLV_ORG_DST_ADDR6_LENGTH \<equiv> TLV_IP6_LENGTH + TLV_PORT_LENGTH"
abbreviation TLV_ORG_DST_ADDR4_SIZE :: nat where
  "TLV_ORG_DST_ADDR4_SIZE \<equiv> TLV_TYPE_SIZE + TLV_LENGTH_SIZE + TLV_ORG_DST_ADDR4_LENGTH"
abbreviation TLV_ORG_DST_ADDR6_SIZE :: nat where
  "TLV_ORG_DST_ADDR6_SIZE \<equiv> TLV_TYPE_SIZE + TLV_LENGTH_SIZE + TLV_ORG_DST_ADDR6_LENGTH"
abbreviation TLV_END_SIZE :: nat where "TLV_END_SIZE \<equiv> TLV_TYPE_SIZE + TLV_LENGTH_SIZE"

abbreviation TLV_ORG_DST_ADDR :: u8 where "TLV_ORG_DST_ADDR \<equiv> 0x01"
abbreviation TLV_PAYLOAD :: u8 where "TLV_PAYLOAD \<equiv> 0xfe"

record sk_msg_md =
  msg_family :: nat
  msg_data :: bytes

definition check_overflow :: "sk_msg_md \<Rightarrow> nat \<Rightarrow> nat \<Rightarrow> bool" where
  "check_overflow msg begin_off len = (length (msg_data msg) < begin_off + len)"

definition get_origin_dst :: "sk_msg_md \<Rightarrow> sock_storage_data option \<Rightarrow> (bytes \<times> u16) option \<times> sock_storage_data option" where
  "get_origin_dst msg st =
     (case bpf_sk_storage_get False True st of
        None \<Rightarrow> (None, st)
      | Some s \<Rightarrow>
          if \<not> st_via_waypoint s \<or> has_encoded s then (None, st)
          else (Some (if msg_family msg = AF_INET then (set_ip4 (ipv4_daddr (sk_tuple s)) zero_ip, ipv4_dport (sk_tuple s))
                      else (ipv6_daddr (sk_tuple s), ipv6_dport (sk_tuple s))),
                Some (s\<lparr>has_encoded := True\<rparr>)))"

definition alloc_dst_length :: "bool \<Rightarrow> bytes \<Rightarrow> nat \<Rightarrow> sk_msg_md \<Rightarrow> bool \<times> sk_msg_md" where
  "alloc_dst_length ok junk len msg =
     (if \<not> ok then (True, msg) else (False, msg\<lparr>msg_data := take len (junk @ replicate len 0) @ msg_data msg\<rparr>))"

definition SK_MSG_WRITE_BUF :: "bytes \<Rightarrow> sk_msg_md \<times> nat \<Rightarrow> sk_msg_md \<times> nat" where
  "SK_MSG_WRITE_BUF payload = (\<lambda>(msg, off).
     if check_overflow msg off (length payload) then (msg, off)
     else (msg\<lparr>msg_data := put_at off payload (msg_data msg)\<rparr>, off + length payload))"

definition encode_metadata_end :: "sk_msg_md \<times> nat \<Rightarrow> sk_msg_md \<times> nat" where
  "encode_metadata_end w = SK_MSG_WRITE_BUF [0, 0, 0, 0] (SK_MSG_WRITE_BUF [TLV_PAYLOAD] w)"

text \<open>The length field is written in network order.\<close>

definition htonl_bytes :: "nat \<Rightarrow> bytes" where
  "htonl_bytes n = [word_of_nat (n div 2 ^ 24), word_of_nat (n div 2 ^ 16), word_of_nat (n div 2 ^ 8), word_of_nat n]"

definition encode_metadata_org_dst_addr :: "bool \<Rightarrow> bytes \<Rightarrow> bool \<Rightarrow> sk_msg_md \<times> nat \<Rightarrow> sock_storage_data option \<Rightarrow>
    (sk_msg_md \<times> nat) \<times> sock_storage_data option" where
  "encode_metadata_org_dst_addr ok junk v4 w st =
     (let (msg, off) = w;
          tlv_size = (if v4 then TLV_ORG_DST_ADDR4_SIZE else TLV_ORG_DST_ADDR6_SIZE);
          addr_size = (if v4 then TLV_ORG_DST_ADDR4_LENGTH else TLV_ORG_DST_ADDR6_LENGTH);
          (dst, st1) = get_origin_dst msg st
      in case dst of
           None \<Rightarrow> (w, st1)
         | Some (dst_ip, dst_port) \<Rightarrow>
             (let (failed, msg1) = alloc_dst_length ok junk (tlv_size + TLV_END_SIZE) msg in
              if failed then ((msg1, off), st1)
              else (let w1 = SK_MSG_WRITE_BUF [TLV_ORG_DST_ADDR] (msg1, off);
                        w2 = SK_MSG_WRITE_BUF (htonl_bytes addr_size) w1;
                        w3 = SK_MSG_WRITE_BUF (if v4 then ip4 dst_ip else dst_ip) w2;
                        w4 = SK_MSG_WRITE_BUF (le_put16 dst_port) w3
                    in (encode_metadata_end w4, st1))))"

definition sendmsg_prog :: "bool \<Rightarrow> bytes \<Rightarrow> sk_msg_md \<Rightarrow> sock_storage_data option \<Rightarrow> sk_msg_md \<times> sock_storage_data option" where
  "sendmsg_prog ok junk msg st =
     (if msg_family msg \<noteq> AF_INET \<and> msg_family msg \<noteq> AF_INET6 then (msg, st)
      else (let ((msg1, off), st1) = encode_metadata_org_dst_addr ok junk (msg_family msg = AF_INET) (msg, 0) st
            in (msg1, st1)))"

subsection \<open>Writing into the pushed space\<close>

text \<open>What has been written so far is a prefix of the data, and \<open>off\<close> its length.\<close>

lemma write_next:
  assumes "length written = off" and "length payload \<le> length rest"
  shows "SK_MSG_WRITE_BUF payload (msg\<lparr>msg_data := written @ rest\<rparr>, off) =
           (msg\<lparr>msg_data := (written @ payload) @ drop (length payload) rest\<rparr>, off + length payload)"
  using assms by (simp add: SK_MSG_WRITE_BUF_def check_overflow_def put_at_def)

lemma writes:
  assumes "length (concat ps) \<le> length rest"
  shows "fold SK_MSG_WRITE_BUF ps (msg\<lparr>msg_data := written @ rest\<rparr>, length written) =
           (msg\<lparr>msg_data := (written @ concat ps) @ drop (length (concat ps)) rest\<rparr>, length (written @ concat ps))"
  using assms
proof (induction ps arbitrary: written rest)
  case (Cons p ps)
  have "fold SK_MSG_WRITE_BUF ps (msg\<lparr>msg_data := (written @ p) @ drop (length p) rest\<rparr>, length (written @ p)) =
      (msg\<lparr>msg_data := ((written @ p) @ concat ps) @ drop (length (concat ps)) (drop (length p) rest)\<rparr>,
       length ((written @ p) @ concat ps))"
    by (rule Cons.IH) (use Cons.prems in simp)
  then show ?case
    using write_next [OF refl, where payload = p and rest = rest and msg = msg and written = written] Cons.prems by (simp add: add.commute)
qed simp

text \<open>The encoding of an original destination, as the waypoint reads it.\<close>

definition tlv_encoding :: "bytes \<Rightarrow> bytes \<Rightarrow> bytes" where
  "tlv_encoding addr port = [TLV_ORG_DST_ADDR] @ htonl_bytes (length addr + length port) @ addr @ port @
     [TLV_PAYLOAD, 0, 0, 0, 0]"

lemma htonl_bytes_length [simp]: "length (htonl_bytes n) = 4"
  by (simp add: htonl_bytes_def)

lemma encode_writes:
  assumes "length addr + length port = n" and "length space = 10 + n"
  shows "encode_metadata_end (SK_MSG_WRITE_BUF port (SK_MSG_WRITE_BUF addr (SK_MSG_WRITE_BUF (htonl_bytes n)
           (SK_MSG_WRITE_BUF [TLV_ORG_DST_ADDR] (msg\<lparr>msg_data := space @ payload\<rparr>, 0))))) =
         (msg\<lparr>msg_data := tlv_encoding addr port @ payload\<rparr>, 10 + n)"
  using writes [where ps = "[[TLV_ORG_DST_ADDR], htonl_bytes n, addr, port, [TLV_PAYLOAD], [0, 0, 0, 0]]" and
      rest = "space @ payload" and msg = msg and written = "[]"] assms
  by (simp add: encode_metadata_end_def tlv_encoding_def)

text \<open>
  C31.  The first message of a socket that is redirected to a waypoint is prefixed with exactly
  the encoding of the destination remembered for the socket; the message itself is unchanged,
  no write overruns the inserted space, and the socket is marked so that it happens once.
\<close>

theorem sendmsg_encodes:
  assumes "msg_family msg = AF_INET \<or> msg_family msg = AF_INET6" and "st_via_waypoint s" "\<not> has_encoded s"
    and "length (sk_tuple s) = 36"
  shows "sendmsg_prog True junk msg (Some s) =
     (msg\<lparr>msg_data := (if msg_family msg = AF_INET
                      then tlv_encoding (ipv4_daddr (sk_tuple s)) (le_put16 (ipv4_dport (sk_tuple s)))
                      else tlv_encoding (ipv6_daddr (sk_tuple s)) (le_put16 (ipv6_dport (sk_tuple s)))) @ msg_data msg\<rparr>,
      Some (s\<lparr>has_encoded := True\<rparr>))"
proof -
  have len: "length (ipv4_daddr (sk_tuple s)) = 4" "length (ipv6_daddr (sk_tuple s)) = 16"
    using assms(4) by (simp_all add: bytes_at_def)
  have space: "length (take n (junk @ replicate n 0)) = n" for n by simp
  show ?thesis
    using assms(1-3) len
      encode_writes [where addr = "ipv4_daddr (sk_tuple s)" and port = "le_put16 (ipv4_dport (sk_tuple s))" and n = 6
          and space = "take 16 (junk @ replicate 16 0)" and msg = msg and payload = "msg_data msg"]
      encode_writes [where addr = "ipv6_daddr (sk_tuple s)" and port = "le_put16 (ipv6_dport (sk_tuple s))" and n = 18
          and space = "take 28 (junk @ replicate 28 0)" and msg = msg and payload = "msg_data msg"]
    by (auto simp: sendmsg_prog_def encode_metadata_org_dst_addr_def get_origin_dst_def bpf_sk_storage_get_def
        alloc_dst_length_def Let_def space simp del: take_append)
qed

text \<open>
  When the kernel cannot make room for the prefix the destination is lost: the message goes
  out unchanged, and so does every later one, because the socket is already marked.
\<close>

theorem sendmsg_failed_alloc_loses_destination:
  assumes "sendmsg_prog False junk msg (Some s) = (msg1, st1)"
    and "st_via_waypoint s" "msg_family msg = AF_INET \<or> msg_family msg = AF_INET6"
  shows "msg1 = msg \<and> sendmsg_prog ok junk' later st1 = (later, st1)"
  using assms
  by (auto simp: sendmsg_prog_def encode_metadata_org_dst_addr_def get_origin_dst_def bpf_sk_storage_get_def
      alloc_dst_length_def Let_def split: if_splits)

definition waypoint_socket :: sock_storage_data where
  "waypoint_socket = zero_storage\<lparr>st_via_waypoint := True, has_set_ip := True,
     sk_tuple := put_at 10 (le_put16 0x5000) (put_at 4 [10, 96, 0, 1] zero_tuple)\<rparr>"

theorem sendmsg_encodes_witness:
  "sendmsg_prog True [] \<lparr>msg_family = AF_INET, msg_data = [71, 69, 84]\<rparr> (Some waypoint_socket) =
   (\<lparr>msg_family = AF_INET, msg_data = [1, 0, 0, 0, 6, 10, 96, 0, 1, 0, 0x50, 0xfe, 0, 0, 0, 0, 71, 69, 84]\<rparr>,
    Some (waypoint_socket\<lparr>has_encoded := True\<rparr>))"
proof -
  let ?t = "sk_tuple waypoint_socket"
  have t: "ipv4_daddr ?t = [10, 96, 0, 1]" "ipv4_dport ?t = 0x5000" "length ?t = 36"
    by (simp_all add: waypoint_socket_def ipv4_dport_def put_at_same put_at_other)
  show ?thesis
    using sendmsg_encodes [of "\<lparr>msg_family = AF_INET, msg_data = [71, 69, 84]\<rparr>" waypoint_socket "[]"] t
    by (simp add: waypoint_socket_def zero_storage_def tlv_encoding_def htonl_bytes_def le_put16_def)
qed

theorem sendmsg_failed_alloc_loses_destination_witness:
  "let r = sendmsg_prog False [] \<lparr>msg_family = AF_INET, msg_data = [71, 69, 84]\<rparr> (Some waypoint_socket) in
   sendmsg_prog True [] \<lparr>msg_family = AF_INET, msg_data = [72]\<rparr> (snd r) =
     (\<lparr>msg_family = AF_INET, msg_data = [72]\<rparr>, snd r)"
proof -
  have "st_via_waypoint waypoint_socket" by (simp add: waypoint_socket_def)
  then show ?thesis
    using sendmsg_failed_alloc_loses_destination [of "[]" "\<lparr>msg_family = AF_INET, msg_data = [71, 69, 84]\<rparr>"
        waypoint_socket _ _ True "[]" "\<lparr>msg_family = AF_INET, msg_data = [72]\<rparr>"]
    by (metis prod.collapse sk_msg_md.select_convs(1))
qed

end
