(* ===== verification/Policy_Store.thy ===== *)
theory Policy_Store
  imports Service_Cache
begin

text \<open>
  Authorization policies (\<open>api/v2/workloadapi/security\<close>) and the store that indexes them by
  key and by the namespace they apply to (\<open>pkg/auth/policy\_store.go\<close>).  The policies come
  from the wire, where an absent repeated field and an empty one are the same: a repeated field
  is a list, and its nil slice the empty list.  The locks of the store are not modelled: each
  operation runs under the lock from start to end.
\<close>

subsection \<open>Policies\<close>

text \<open>Any number can come over the wire for an enum; \<open>Scope_other\<close> is a value without a name.\<close>

datatype Scope = Scope_GLOBAL | Scope_NAMESPACE | Scope_WORKLOAD_SELECTOR | Scope_other nat

datatype Action = Action_ALLOW | Action_DENY | Action_other nat

datatype StringMatch = SM_Exact string | SM_Prefix string | SM_Suffix string | SM_None

datatype sec_Address = sec_Address (sa_address: bytes) (sa_length: u32)

record sec_Match =
  namespaces :: "StringMatch list"
  not_namespaces :: "StringMatch list"
  principals :: "StringMatch list"
  not_principals :: "StringMatch list"
  source_ips :: "sec_Address list"
  not_source_ips :: "sec_Address list"
  destination_ips :: "sec_Address list"
  not_destination_ips :: "sec_Address list"
  destination_ports :: "u32 list"
  not_destination_ports :: "u32 list"

datatype sec_Clause = sec_Clause (cl_matches: "sec_Match list")

datatype sec_Rule = sec_Rule (ru_clauses: "sec_Clause list")

record Authorization =
  au_name :: string
  au_namespace :: string
  au_scope :: Scope
  au_action :: Action
  au_rules :: "sec_Rule list"

text \<open>The getters of the oneof: the empty string for another variant.\<close>

fun GetExact :: "StringMatch \<Rightarrow> string" where
  "GetExact (SM_Exact s) = s" | "GetExact _ = ''''"

fun GetPrefix :: "StringMatch \<Rightarrow> string" where
  "GetPrefix (SM_Prefix s) = s" | "GetPrefix _ = ''''"

fun GetSuffix :: "StringMatch \<Rightarrow> string" where
  "GetSuffix (SM_Suffix s) = s" | "GetSuffix _ = ''''"

definition Authorization_ResourceName :: "Authorization \<Rightarrow> string" where
  "Authorization_ResourceName x = au_namespace x @ ''/'' @ au_name x"

subsection \<open>The store\<close>

record policyStore =
  ps_byKey :: "(string \<times> Authorization) list"
  ps_byNamespace :: "string \<rightharpoonup> string list"

definition newPolicyStore :: policyStore where
  "newPolicyStore = \<lparr>ps_byKey = [], ps_byNamespace = Map.empty\<rparr>"

definition index_policy :: "string \<Rightarrow> string \<Rightarrow> Authorization \<Rightarrow> policyStore \<Rightarrow> policyStore" where
  "index_policy ns key authPolicy ps =
     (let ps1 = (case ps_byNamespace ps ns of
                   None \<Rightarrow> ps\<lparr>ps_byNamespace := (ps_byNamespace ps)(ns \<mapsto> [key])\<rparr>
                 | Some s \<Rightarrow> ps\<lparr>ps_byNamespace := (ps_byNamespace ps)(ns \<mapsto> set_ins key s)\<rparr>)
      in ps1\<lparr>ps_byKey := AList.update key authPolicy (ps_byKey ps1)\<rparr>)"

definition updatePolicy :: "Authorization option \<Rightarrow> policyStore \<Rightarrow> go_err option \<times> policyStore" where
  "updatePolicy auth ps =
     (case auth of
        None \<Rightarrow> (None, ps)
      | Some authPolicy \<Rightarrow>
          (let key = Authorization_ResourceName authPolicy in
           case au_scope authPolicy of
             Scope_WORKLOAD_SELECTOR \<Rightarrow> (None, ps\<lparr>ps_byKey := AList.update key authPolicy (ps_byKey ps)\<rparr>)
           | Scope_GLOBAL \<Rightarrow> (None, index_policy '''' key authPolicy ps)
           | Scope_NAMESPACE \<Rightarrow> (None, index_policy (au_namespace authPolicy) key authPolicy ps)
           | Scope_other n \<Rightarrow> (Some (GoErr ''invalid scope of authorization policy''), ps)))"

definition unindex_policy :: "string \<Rightarrow> string \<Rightarrow> policyStore \<Rightarrow> policyStore" where
  "unindex_policy ns policyKey ps =
     (case ps_byNamespace ps ns of
        None \<Rightarrow> ps
      | Some s \<Rightarrow>
          (let s1 = set_del policyKey s
           in ps\<lparr>ps_byNamespace := (ps_byNamespace ps)(ns := if s1 = [] then None else Some s1)\<rparr>))"

definition removePolicy :: "string \<Rightarrow> policyStore \<Rightarrow> policyStore" where
  "removePolicy policyKey ps =
     (case map_of (ps_byKey ps) policyKey of
        None \<Rightarrow> ps
      | Some authPolicy \<Rightarrow>
          (let ps1 = ps\<lparr>ps_byKey := AList.delete policyKey (ps_byKey ps)\<rparr> in
           case au_scope authPolicy of
             Scope_GLOBAL \<Rightarrow> unindex_policy '''' policyKey ps1
           | Scope_NAMESPACE \<Rightarrow> unindex_policy (au_namespace authPolicy) policyKey ps1
           | _ \<Rightarrow> ps1))"

definition getAllPolicies :: "policyStore \<Rightarrow> (string \<times> string) list" where
  "getAllPolicies ps = map (\<lambda>(k, _). (k, '''')) (ps_byKey ps)"

definition getByNamespace :: "policyStore \<Rightarrow> string \<Rightarrow> string list" where
  "getByNamespace ps ns = (case ps_byNamespace ps ns of Some s \<Rightarrow> s | None \<Rightarrow> [])"

definition list_policies :: "policyStore \<Rightarrow> Authorization list" where
  "list_policies ps = map snd (ps_byKey ps)"

subsection \<open>The index is exact\<close>

text \<open>Where a policy belongs in the index by namespace.\<close>

definition index_of :: "Authorization \<Rightarrow> string option" where
  "index_of p = (case au_scope p of
      Scope_GLOBAL \<Rightarrow> Some '''' | Scope_NAMESPACE \<Rightarrow> Some (au_namespace p) | _ \<Rightarrow> None)"

definition store_ok :: "policyStore \<Rightarrow> bool" where
  "store_ok ps \<longleftrightarrow> distinct (map fst (ps_byKey ps)) \<and>
     (\<forall>k p. map_of (ps_byKey ps) k = Some p \<longrightarrow> k = Authorization_ResourceName p) \<and>
     (\<forall>ns k. k \<in> set (getByNamespace ps ns) \<longleftrightarrow> (\<exists>p. map_of (ps_byKey ps) k = Some p \<and> index_of p = Some ns)) \<and>
     (\<forall>ns. ps_byNamespace ps ns \<noteq> Some [])"

lemma store_okD:
  assumes "store_ok ps"
  shows "distinct (map fst (ps_byKey ps))"
    "map_of (ps_byKey ps) k = Some p \<Longrightarrow> k = Authorization_ResourceName p"
    "k \<in> set (getByNamespace ps ns) \<longleftrightarrow> (\<exists>p. map_of (ps_byKey ps) k = Some p \<and> index_of p = Some ns)"
    "ps_byNamespace ps ns \<noteq> Some []"
  using assms unfolding store_ok_def by blast+

lemma getByNamespace_index_policy:
  "set (getByNamespace (index_policy ns key p ps) n) =
     (if n = ns then insert key (set (getByNamespace ps n)) else set (getByNamespace ps n))"
  "ps_byKey (index_policy ns key p ps) = AList.update key p (ps_byKey ps)"
  "(\<And>n. ps_byNamespace ps n \<noteq> Some []) \<Longrightarrow> ps_byNamespace (index_policy ns key p ps) n \<noteq> Some []"
  by (auto simp: index_policy_def getByNamespace_def Let_def split: option.splits)

lemma getByNamespace_unindex_policy:
  "set (getByNamespace (unindex_policy ns key ps) n) =
     (if n = ns then set (getByNamespace ps n) - {key} else set (getByNamespace ps n))"
  "ps_byKey (unindex_policy ns key ps) = ps_byKey ps"
  "(\<And>n. ps_byNamespace ps n \<noteq> Some []) \<Longrightarrow> ps_byNamespace (unindex_policy ns key ps) n \<noteq> Some []"
  by (auto simp: unindex_policy_def getByNamespace_def set_del_Nil_iff Let_def split: option.splits if_splits)

lemma new_store_ok: "store_ok newPolicyStore"
  by (simp add: store_ok_def newPolicyStore_def getByNamespace_def)

lemma updatePolicy_keeps:
  assumes ok: "store_ok ps" and upd: "updatePolicy (Some p) ps = (None, ps')"
    and same: "\<And>q. map_of (ps_byKey ps) (Authorization_ResourceName p) = Some q \<Longrightarrow> index_of q = index_of p"
  shows "store_ok ps'" and "map_of (ps_byKey ps') = (map_of (ps_byKey ps))(Authorization_ResourceName p \<mapsto> p)"
proof -
  let ?k = "Authorization_ResourceName p"
  have key: "ps_byKey ps' = AList.update ?k p (ps_byKey ps)"
    using upd by (auto simp: updatePolicy_def getByNamespace_index_policy(2) Let_def split: Scope.splits)
  have ns: "set (getByNamespace ps' n) =
      (if index_of p = Some n then insert ?k (set (getByNamespace ps n)) else set (getByNamespace ps n))" for n
    using upd by (auto simp: updatePolicy_def index_of_def getByNamespace_index_policy(1) Let_def split: Scope.splits if_splits)
      (auto simp: getByNamespace_def)
  have ne: "ps_byNamespace ps' n \<noteq> Some []" for n
    using upd store_okD(4) [OF ok] by (auto simp: updatePolicy_def getByNamespace_index_policy(3) Let_def split: Scope.splits)
  show m: "map_of (ps_byKey ps') = (map_of (ps_byKey ps))(?k \<mapsto> p)" by (simp add: key)
  have "k \<in> set (getByNamespace ps' n) \<longleftrightarrow> (\<exists>q. map_of (ps_byKey ps') k = Some q \<and> index_of q = Some n)" for k n
    using store_okD(3) [OF ok, of k n] same by (auto simp: ns m)
  moreover have "distinct (map fst (ps_byKey ps'))" using store_okD(1) [OF ok] by (simp add: key AList.distinct_update)
  ultimately show "store_ok ps'"
    using store_okD(2) [OF ok] ne unfolding store_ok_def by (auto simp: m)
qed

lemma removePolicy_keeps:
  assumes ok: "store_ok ps"
  shows "store_ok (removePolicy k ps)" and "map_of (ps_byKey (removePolicy k ps)) = (map_of (ps_byKey ps))(k := None)"
proof -
  let ?ps = "removePolicy k ps"
  have "store_ok ?ps \<and> map_of (ps_byKey ?ps) = (map_of (ps_byKey ps))(k := None)"
  proof (cases "map_of (ps_byKey ps) k")
    case None
    then have "(map_of (ps_byKey ps))(k := None) = map_of (ps_byKey ps)" by auto
    then show ?thesis using None ok by (simp add: removePolicy_def)
  next
    case (Some p)
    have key: "ps_byKey ?ps = AList.delete k (ps_byKey ps)"
      using Some by (simp add: removePolicy_def getByNamespace_unindex_policy(2) Let_def split: Scope.splits)
    have ns: "set (getByNamespace ?ps n) =
        (if index_of p = Some n then set (getByNamespace ps n) - {k} else set (getByNamespace ps n))" for n
      using Some by (auto simp: removePolicy_def index_of_def getByNamespace_unindex_policy(1) Let_def split: Scope.splits if_splits)
        (auto simp: getByNamespace_def)
    have ne: "ps_byNamespace ?ps n \<noteq> Some []" for n
      using Some store_okD(4) [OF ok]
      by (auto simp: removePolicy_def getByNamespace_unindex_policy(3) Let_def split: Scope.splits)
    have m: "map_of (ps_byKey ?ps) = (map_of (ps_byKey ps))(k := None)" by (simp add: key)
    have "j \<in> set (getByNamespace ?ps n) \<longleftrightarrow> (\<exists>q. map_of (ps_byKey ?ps) j = Some q \<and> index_of q = Some n)" for j n
      using store_okD(3) [OF ok, of j n] Some by (auto simp: ns m)
    moreover have "distinct (map fst (ps_byKey ?ps))" using store_okD(1) [OF ok] by (simp add: key AList.distinct_delete)
    ultimately show ?thesis
      using store_okD(2) [OF ok] ne unfolding store_ok_def by (auto simp: m split: if_splits)
  qed
  then show "store_ok ?ps" "map_of (ps_byKey ?ps) = (map_of (ps_byKey ps))(k := None)" by blast+
qed

subsection \<open>Reachable stores\<close>

text \<open>
  The stores that updates and removals produce, as long as an update does not move a policy to
  another scope (the namespace is part of the key).
\<close>

inductive ps_reachable :: "policyStore \<Rightarrow> bool" where
  init: "ps_reachable newPolicyStore"
| update: "ps_reachable ps \<Longrightarrow> updatePolicy (Some p) ps = (e, ps') \<Longrightarrow>
    (\<forall>q. map_of (ps_byKey ps) (Authorization_ResourceName p) = Some q \<longrightarrow> index_of q = index_of p) \<Longrightarrow> ps_reachable ps'"
| remove: "ps_reachable ps \<Longrightarrow> ps_reachable (removePolicy k ps)"

lemma updatePolicy_error: "updatePolicy (Some p) ps = (Some e, ps') \<Longrightarrow> ps' = ps"
  by (auto simp: updatePolicy_def Let_def split: Scope.splits)

text \<open>
  C32.  In every reachable store the index by namespace is exact: a key is listed under a
  namespace if and only if the policy stored under that key applies to that namespace (the
  empty name for a global policy), every policy is stored under its own key, and no empty set
  is kept.
\<close>

theorem policy_store_exact:
  assumes "ps_reachable ps"
  shows "store_ok ps"
  using assms
proof induction
  case init
  show ?case by (rule new_store_ok)
next
  case (update ps p e ps')
  show ?case
  proof (cases e)
    case None
    with update show ?thesis using updatePolicy_keeps(1) [of ps p ps'] by blast
  next
    case (Some err)
    with update show ?thesis using updatePolicy_error [of p ps err ps'] by simp
  qed
next
  case (remove ps k)
  then show ?case using removePolicy_keeps(1) by blast
qed

definition sample_policy :: "Scope \<Rightarrow> Action \<Rightarrow> sec_Rule list \<Rightarrow> Authorization" where
  "sample_policy sc act rules = \<lparr>au_name = ''p'', au_namespace = ''ns'', au_scope = sc, au_action = act, au_rules = rules\<rparr>"

theorem policy_store_exact_witness:
  "store_ok (removePolicy ''other/p'' (snd (updatePolicy (Some (sample_policy Scope_NAMESPACE Action_DENY [])) newPolicyStore)))"
proof -
  let ?p = "sample_policy Scope_NAMESPACE Action_DENY []"
  obtain e ps where u: "updatePolicy (Some ?p) newPolicyStore = (e, ps)" by fastforce
  have "ps_reachable ps"
    by (rule ps_reachable.update [OF ps_reachable.init u]) (simp add: newPolicyStore_def)
  then have "ps_reachable (removePolicy ''other/p'' ps)" by (rule ps_reachable.remove)
  from policy_store_exact [OF this] show ?thesis using u by simp
qed

end
