(* ===== verification/Ip_Text.thy ===== *)
theory Ip_Text
  imports Nets Hash_Name
begin

text \<open>
  Addresses as text: \<open>net/netip\<close>'s parser, which \<open>net.ParseIP\<close> uses as well, the formatting of
  \<open>net.IP\<close>, and the part of \<open>pkg/nets/nets.go\<close> that starts from text or from the addresses of the
  host (\<open>ConvertIpToUint32\<close>, \<open>checkIPVersion\<close>, \<open>TriggerControlCommand\<close>).

  A parsed address is its 4 or 16 bytes and its zone.  An address that does not parse is \<open>None\<close>.
\<close>

subsection \<open>Parsing\<close>

definition digit_val :: "char \<Rightarrow> nat option" where
  "digit_val c = (let n = of_char c in if 48 \<le> n \<and> n \<le> 57 then Some (n - 48) else None)"

definition hex_val :: "char \<Rightarrow> nat option" where
  "hex_val c = (let n = of_char c in
     if 48 \<le> n \<and> n \<le> 57 then Some (n - 48)
     else if 97 \<le> n \<and> n \<le> 102 then Some (n - 87)
     else if 65 \<le> n \<and> n \<le> 70 then Some (n - 55) else None)"

text \<open>
  \<open>parseIPv4Fields\<close>: the value and the number of digits of the current octet and the octets
  before it.  A dot at the start, at the end or after a dot leaves an octet without digits.
\<close>

fun parseIPv4Fields :: "nat \<Rightarrow> nat \<Rightarrow> bytes \<Rightarrow> string \<Rightarrow> bytes option" where
  "parseIPv4Fields v digLen octets [] =
     (if digLen = 0 \<or> length octets < 3 then None else Some (octets @ [of_nat v]))"
| "parseIPv4Fields v digLen octets (c # s) =
     (case digit_val c of
        Some d \<Rightarrow>
          if digLen = 1 \<and> v = 0 then None
          else if v * 10 + d > 255 then None
          else parseIPv4Fields (v * 10 + d) (digLen + 1) octets s
      | None \<Rightarrow>
          if c = CHR ''.'' then
            if digLen = 0 \<or> length octets = 3 then None
            else parseIPv4Fields 0 0 (octets @ [of_nat v]) s
          else None)"

text \<open>A group of hexadecimal digits: its value, its length and what follows; five digits fail.\<close>

fun hex_group :: "nat \<Rightarrow> nat \<Rightarrow> string \<Rightarrow> (nat \<times> nat \<times> string) option" where
  "hex_group acc off [] = Some (acc, off, [])"
| "hex_group acc off (c # s) =
     (case hex_val c of
        None \<Rightarrow> Some (acc, off, c # s)
      | Some d \<Rightarrow> if off > 3 then None else hex_group (acc * 16 + d) (off + 1) s)"

text \<open>
  The loop of \<open>parseIPv6\<close>.  The first argument counts the fields that still fit; the result is the
  bytes read, the position of the ellipsis and the text that is left.
\<close>

fun ipv6_groups :: "nat \<Rightarrow> bytes \<Rightarrow> nat option \<Rightarrow> string \<Rightarrow> (bytes \<times> nat option \<times> string) option" where
  "ipv6_groups 0 ip ellipsis s = Some (ip, ellipsis, s)"
| "ipv6_groups (Suc n) ip ellipsis s =
     (case hex_group 0 0 s of
        None \<Rightarrow> None
      | Some (acc, off, rest) \<Rightarrow>
          if off = 0 then None
          else if rest \<noteq> [] \<and> hd rest = CHR ''.'' then
            if ellipsis = None \<and> length ip \<noteq> 12 \<or> length ip + 4 > 16 then None
            else (case parseIPv4Fields 0 0 [] s of None \<Rightarrow> None | Some v4 \<Rightarrow> Some (ip @ v4, ellipsis, []))
          else
            let ip1 = ip @ be_put16 (of_nat acc)
            in case rest of
                 [] \<Rightarrow> Some (ip1, ellipsis, [])
               | c # s1 \<Rightarrow>
                   if c \<noteq> CHR '':'' \<or> s1 = [] then None
                   else if hd s1 = CHR '':'' then
                     if ellipsis \<noteq> None then None
                     else if tl s1 = [] then Some (ip1, Some (length ip1), [])
                     else ipv6_groups n ip1 (Some (length ip1)) (tl s1)
                   else ipv6_groups n ip1 ellipsis s1)"

text \<open>Bytes and zone of a parsed address.\<close>

type_synonym netip = "bytes \<times> string"

definition split_zone :: "string \<Rightarrow> (string \<times> string) option" where
  "split_zone s =
     (case dropWhile (\<lambda>c. c \<noteq> CHR ''%'') s of
        [] \<Rightarrow> Some (s, [])
      | _ # zone \<Rightarrow> if zone = [] then None else Some (takeWhile (\<lambda>c. c \<noteq> CHR ''%'') s, zone))"

definition expand_ellipsis :: "bytes \<Rightarrow> nat option \<Rightarrow> bytes option" where
  "expand_ellipsis ip ellipsis =
     (case ellipsis of
        None \<Rightarrow> if length ip < 16 then None else Some ip
      | Some e \<Rightarrow> if length ip < 16 then Some (take e ip @ replicate (16 - length ip) 0 @ drop e ip) else None)"

definition parseIPv6 :: "string \<Rightarrow> netip option" where
  "parseIPv6 inp =
     (case split_zone inp of
        None \<Rightarrow> None
      | Some (s, zone) \<Rightarrow>
          let lead = take 2 s = ''::'';
              s1 = (if lead then drop 2 s else s)
          in if lead \<and> s1 = [] then Some (zero_ip, zone)
             else (case ipv6_groups 8 [] (if lead then Some 0 else None) s1 of
                     None \<Rightarrow> None
                   | Some (ip, ellipsis, rest) \<Rightarrow>
                       if rest \<noteq> [] then None
                       else (case expand_ellipsis ip ellipsis of None \<Rightarrow> None | Some b \<Rightarrow> Some (b, zone))))"

text \<open>The first dot, colon or percent sign decides.\<close>

definition ParseAddr :: "string \<Rightarrow> netip option" where
  "ParseAddr s =
     (case dropWhile (\<lambda>c. c \<notin> {CHR ''.'', CHR '':'', CHR ''%''}) s of
        [] \<Rightarrow> None
      | c # _ \<Rightarrow>
          if c = CHR ''.'' then map_option (\<lambda>b. (b, [])) (parseIPv4Fields 0 0 [] s)
          else if c = CHR '':'' then parseIPv6 s
          else None)"

abbreviation v4_in_6_prefix :: bytes where
  "v4_in_6_prefix \<equiv> [0, 0, 0, 0, 0, 0, 0, 0, 0, 0, 0xff, 0xff]"

definition As16 :: "bytes \<Rightarrow> bytes" where
  "As16 b = (if length b = 4 then v4_in_6_prefix @ b else b)"

text \<open>\<open>net.ParseIP\<close> answers with 16 bytes and refuses zones.\<close>

definition ParseIP :: "string \<Rightarrow> bytes option" where
  "ParseIP s = (case ParseAddr s of None \<Rightarrow> None | Some (b, zone) \<Rightarrow> if zone \<noteq> [] then None else Some (As16 b))"

definition To4 :: "bytes \<Rightarrow> bytes option" where
  "To4 ip =
     (if length ip = 4 then Some ip
      else if length ip = 16 \<and> take 12 ip = v4_in_6_prefix then Some (drop 12 ip) else None)"

definition To16 :: "bytes \<Rightarrow> bytes option" where
  "To16 ip = (if length ip = 4 then Some (As16 ip) else if length ip = 16 then Some ip else None)"

subsection \<open>Formatting\<close>

definition dotted :: "bytes \<Rightarrow> string" where
  "dotted b = concat (map (\<lambda>i. (if i > 0 then ''.'' else '''') @ decimal (unat (b ! i))) [0..<length b])"

definition hex_digit :: "nat \<Rightarrow> char" where
  "hex_digit d = (if d < 10 then char_of (48 + d) else char_of (87 + d))"

fun appendHex :: "nat \<Rightarrow> string" where
  "appendHex n = (if n < 16 then [hex_digit n] else appendHex (n div 16) @ [hex_digit (n mod 16)])"

declare appendHex.simps [simp del]

text \<open>The first of the longest runs of at least two zero fields.\<close>

definition zero_run :: "nat list \<Rightarrow> nat \<times> nat" where
  "zero_run f =
     fold (\<lambda>i (zs, ze). let l = length (takeWhile (\<lambda>x. x = 0) (drop i f))
                         in if l \<ge> 2 \<and> l > ze - zs then (i, i + l) else (zs, ze))
       [0..<length f] (255, 255)"

definition colon_join :: "nat list \<Rightarrow> string" where
  "colon_join f = concat (map (\<lambda>i. (if i > 0 then '':'' else '''') @ appendHex (f ! i)) [0..<length f])"

definition ipv6_text :: "bytes \<Rightarrow> string" where
  "ipv6_text ip =
     (let f = map (\<lambda>i. unat (be_get16 (drop (2 * i) ip))) [0..<8];
          (zs, ze) = zero_run f
      in if zs = 255 then colon_join f else colon_join (take zs f) @ ''::'' @ colon_join (drop ze f))"

definition hexString :: "bytes \<Rightarrow> string" where
  "hexString b = concat (map (\<lambda>x. [hex_digit (unat x div 16), hex_digit (unat x mod 16)]) b)"

text \<open>\<open>net.IP.String\<close>.\<close>

definition ip_String :: "bytes \<Rightarrow> string" where
  "ip_String ip =
     (if ip = [] then ''<nil>''
      else case To4 ip of
             Some b \<Rightarrow> dotted b
           | None \<Rightarrow> if length ip = 16 then ipv6_text ip else ''?'' @ hexString ip)"

subsection \<open>nets.go\<close>

definition le_get32 :: "bytes \<Rightarrow> u32" where
  "le_get32 b = ucast (b ! 0) OR push_bit 8 (ucast (b ! 1)) OR push_bit 16 (ucast (b ! 2)) OR push_bit 24 (ucast (b ! 3))"

text \<open>\<open>binary.LittleEndian.Uint32\<close> panics on fewer than four bytes, and \<open>To4\<close> is nil for an IPv6 address.\<close>

definition ConvertIpToUint32 :: "string \<Rightarrow> u32 option" where
  "ConvertIpToUint32 ip =
     (case ParseIP ip of
        None \<Rightarrow> Some 0
      | Some netIP \<Rightarrow>
          if length netIP = 16 then (case To4 netIP of None \<Rightarrow> None | Some b \<Rightarrow> Some (le_get32 b))
          else if length netIP = 4 then Some (le_get32 netIP)
          else Some 0)"

text \<open>An address of an interface; a nil address is empty.\<close>

datatype host_addr = IPNet bytes | OtherAddr

definition IsLoopback :: "bytes \<Rightarrow> bool" where
  "IsLoopback ip = (case To4 ip of Some b \<Rightarrow> b ! 0 = 127 | None \<Rightarrow> ip = replicate 15 0 @ [1])"

fun checkIPVersion_loop :: "host_addr list \<Rightarrow> bool \<times> bool \<Rightarrow> bool \<times> bool" where
  "checkIPVersion_loop [] v = v"
| "checkIPVersion_loop (OtherAddr # addrs) v = checkIPVersion_loop addrs v"
| "checkIPVersion_loop (IPNet ip # addrs) (ipv4, ipv6) =
     (if IsLoopback ip \<or> ip = [] then checkIPVersion_loop addrs (ipv4, ipv6)
      else if To4 ip \<noteq> None then checkIPVersion_loop addrs (True, ipv6)
      else if To16 ip \<noteq> None then checkIPVersion_loop addrs (ipv4, True)
      else checkIPVersion_loop addrs (ipv4, ipv6))"

definition checkIPVersion :: "go_err + host_addr list \<Rightarrow> bool \<times> bool" where
  "checkIPVersion addrs = (case addrs of Inl _ \<Rightarrow> (False, False) | Inr l \<Rightarrow> checkIPVersion_loop l (False, False))"

text \<open>
  The system calls of one control connection: each may fail.  A trigger returns its error and the
  connection it started, if it came that far.
\<close>

record sys_calls =
  sc_socket :: "go_err option"
  sc_nonblock :: "go_err option"
  sc_connect :: "go_err option"

abbreviation (input) EINPROGRESS :: go_err where "EINPROGRESS \<equiv> KernelErr 115"

definition trigger_connect :: "sys_calls \<Rightarrow> bytes \<Rightarrow> u16 \<Rightarrow> go_err option \<times> (bytes \<times> u16) option" where
  "trigger_connect sc ip port =
     (case sc_socket sc of
        Some err \<Rightarrow> (Some err, None)
      | None \<Rightarrow>
          (case sc_nonblock sc of
             Some err \<Rightarrow> (Some err, None)
           | None \<Rightarrow>
               (case sc_connect sc of
                  None \<Rightarrow> (None, Some (ip, port))
                | Some err \<Rightarrow> (if err = EINPROGRESS then None else Some err, Some (ip, port)))))"

definition triggerControlCommandWithPortInV4 :: "sys_calls \<Rightarrow> u16 \<Rightarrow> go_err option \<times> (bytes \<times> u16) option" where
  "triggerControlCommandWithPortInV4 sc port = trigger_connect sc (the (To4 (the (ParseIP ''0.0.0.2'')))) port"

definition triggerControlCommandWithPortInV6 :: "sys_calls \<Rightarrow> u16 \<Rightarrow> go_err option \<times> (bytes \<times> u16) option" where
  "triggerControlCommandWithPortInV6 sc port = trigger_connect sc (the (To16 (the (ParseIP ''::2'')))) port"

definition TriggerControlCommand :: "sys_calls \<Rightarrow> go_err + host_addr list \<Rightarrow> u16 \<Rightarrow> go_err option \<times> (bytes \<times> u16) option" where
  "TriggerControlCommand sc addrs oper =
     (let (ipv4, ipv6) = checkIPVersion addrs
      in if ipv4 then triggerControlCommandWithPortInV4 sc oper
         else if ipv6 then triggerControlCommandWithPortInV6 sc oper
         else (None, None))"

subsection \<open>Lemmas\<close>

lemma digit_val_decimal_digit [simp]: "d < 10 \<Longrightarrow> digit_val (decimal_digit d) = Some d"
  by (simp add: digit_val_def decimal_digit_def Let_def)

lemma digit_val_dot [simp]: "digit_val CHR ''.'' = None"
  by (simp add: digit_val_def Let_def)

lemma decimal_not_Nil [simp]: "decimal n \<noteq> []"
  by (subst decimal.simps) simp

lemma parseIPv4Fields_decimal:
  "n \<le> 255 \<Longrightarrow> parseIPv4Fields 0 0 f (decimal n @ rest) = parseIPv4Fields n (length (decimal n)) f rest"
proof (induction n arbitrary: rest rule: decimal.induct)
  case (1 n)
  show ?case
  proof (cases "n < 10")
    case True
    then show ?thesis by (simp add: decimal.simps [of n])
  next
    case False
    then have "0 < n div 10" "n div 10 * 10 + n mod 10 = n" by (simp_all add: div_greater_zero_iff)
    then show ?thesis using 1 False by (simp add: decimal.simps [of n])
  qed
qed

lemma parseIPv4Fields_dot:
  "length f < 3 \<Longrightarrow> parseIPv4Fields n (length (decimal n)) f (CHR ''.'' # rest) = parseIPv4Fields 0 0 (f @ [of_nat n]) rest"
  by simp

lemma length4: "length b = 4 \<longleftrightarrow> (\<exists>w x y z. b = [w, x, y, z])"
  by (auto simp: eval_nat_numeral length_Suc_conv)

lemma dotted4: "dotted [w, x, y, z] =
    decimal (unat w) @ ''.'' @ decimal (unat x) @ ''.'' @ decimal (unat y) @ ''.'' @ decimal (unat z)"
  by (simp add: dotted_def upt_rec)

lemma unat_u8_le [simp]: "unat (w :: u8) \<le> 255"
  using unsigned_less [of w, where ?'a = nat] by simp

lemma parseIPv4_dotted: "length b = 4 \<Longrightarrow> parseIPv4Fields 0 0 [] (dotted b) = Some b"
proof -
  assume "length b = 4"
  then obtain w x y z where b: "b = [w, x, y, z]" by (auto simp: length4)
  have "parseIPv4Fields 0 0 [] (decimal (unat w) @ CHR ''.'' # decimal (unat x) @ CHR ''.'' # decimal (unat y) @ CHR ''.'' # decimal (unat z) @ []) = Some b"
    by (simp only: parseIPv4Fields_decimal unat_u8_le parseIPv4Fields_dot length_append list.size append_Nil)
      (simp add: b)
  then show ?thesis by (simp add: b dotted4)
qed

lemma decimal_digits: "c \<in> set (decimal n) \<Longrightarrow> digit_val c \<noteq> None"
proof (induction n rule: decimal.induct)
  case (1 n)
  then show ?case by (subst (asm) decimal.simps) (auto split: if_splits)
qed

lemma dropWhile_dotted:
  assumes "length b = 4"
  shows "\<exists>t. dropWhile (\<lambda>c. c \<notin> {CHR ''.'', CHR '':'', CHR ''%''}) (dotted b) = CHR ''.'' # t"
proof -
  obtain w x y z where b: "b = [w, x, y, z]" using assms by (auto simp: length4)
  have "c \<notin> {CHR ''.'', CHR '':'', CHR ''%''}" if "c \<in> set (decimal n)" for c n
    using decimal_digits [OF that] by (auto simp: digit_val_def Let_def)
  then show ?thesis by (simp add: b dotted4 dropWhile_append3 dropWhile_append)
qed

text \<open>The text of an IPv4 address parses to the address.\<close>

lemma ParseAddr_dotted: "length b = 4 \<Longrightarrow> ParseAddr (dotted b) = Some (b, [])"
  using dropWhile_dotted [of b] by (auto simp: ParseAddr_def parseIPv4_dotted)

lemma ip_String_v4: "length b = 4 \<Longrightarrow> ip_String b = dotted b"
  by (auto simp: ip_String_def To4_def)

lemma ParseIP_String: "length b = 4 \<Longrightarrow> ParseIP (ip_String b) = Some (v4_in_6_prefix @ b)"
  by (simp add: ParseIP_def ip_String_v4 ParseAddr_dotted As16_def)

lemma ConvertIpToUint32_String: "length b = 4 \<Longrightarrow> ConvertIpToUint32 (ip_String b) = Some (le_get32 b)"
  by (simp add: ConvertIpToUint32_def ParseIP_String To4_def)

end
