(* ===== verification/Rbac.thy ===== *)
theory Rbac
  imports Policy_Store Bpf_Common Ip_Text "HOL-Library.Sublist"
begin

text \<open>
  Authorization in user space (\<open>pkg/auth/rbac.go\<close>, \<open>pkg/auth/xdp\_auth\_handler.go\<close>): the
  policies that apply to the destination of a connection are collected and evaluated, and a
  denied connection is written to the map that the XDP program reads.

  From the standard library the code uses \<open>net.ParseCIDR\<close> on the printed form of an address
  and \<open>IPNet.Contains\<close>; printing and parsing an address give it back, up to the IPv4-mapped
  form, which prints as IPv4.  The workload cache is shared with the processor and is an
  argument here.  The reader of the ring buffer is not modelled: the records it delivers are.
\<close>

subsection \<open>Addresses and prefixes\<close>

definition ip_norm :: "bytes \<Rightarrow> bytes" where
  "ip_norm ip = (case To4 ip of Some x \<Rightarrow> x | None \<Rightarrow> ip)"

fun CIDRMask :: "nat \<Rightarrow> nat \<Rightarrow> bytes" where
  "CIDRMask ones 0 = []"
| "CIDRMask ones (Suc l) =
     (if ones \<ge> 8 then 0xff # CIDRMask (ones - 8) l else NOT (drop_bit ones 0xff) # CIDRMask 0 l)"

text \<open>\<open>ParseCIDR\<close> of the printed address and length: the network number and the mask.\<close>

definition ParseCIDR :: "bytes \<Rightarrow> u32 \<Rightarrow> (bytes \<times> bytes) option" where
  "ParseCIDR addr len =
     (let ip = ip_norm addr in
      if length ip \<noteq> 4 \<and> length ip \<noteq> 16 then None
      else if unat len > 8 * length ip then None
      else (let m = CIDRMask (unat len) (length ip) in Some (map2 (AND) ip m, m)))"

definition IPNet_Contains :: "bytes \<times> bytes \<Rightarrow> bytes \<Rightarrow> bool" where
  "IPNet_Contains ipNet ip =
     (let (nn, m) = ipNet; x = ip_norm ip in
      length x = length nn \<and> list_all (\<lambda>((n, mk), b). n AND mk = b AND mk) (zip (zip nn m) x))"

subsection \<open>Matching one connection\<close>

record Identity =
  id_trustDomain :: string
  id_namespace :: string
  id_serviceAccount :: string

record rbacConnection =
  srcIdentity :: Identity
  dstNetwork :: string
  srcIp :: bytes
  dstIp :: bytes
  dstPort :: u32

abbreviation SPIFFE_PREFIX :: string where "SPIFFE_PREFIX \<equiv> ''spiffe://''"

definition Identity_String :: "Identity \<Rightarrow> string" where
  "Identity_String i = SPIFFE_PREFIX @ id_trustDomain i @ ''/ns/'' @ id_namespace i @ ''/sa/'' @ id_serviceAccount i"

fun internalMatchDstIp :: "bytes \<Rightarrow> sec_Address list \<Rightarrow> bool" where
  "internalMatchDstIp ip [] = False"
| "internalMatchDstIp ip (addr # rest) =
     (case ParseCIDR (sa_address addr) (sa_length addr) of
        None \<Rightarrow> internalMatchDstIp ip rest
      | Some ipNet \<Rightarrow> if IPNet_Contains ipNet ip then True else internalMatchDstIp ip rest)"

fun internalMatchSrcIp :: "bytes \<Rightarrow> sec_Address list \<Rightarrow> bool" where
  "internalMatchSrcIp ip [] = False"
| "internalMatchSrcIp ip (addr # rest) =
     (case ParseCIDR (sa_address addr) (sa_length addr) of
        None \<Rightarrow> internalMatchSrcIp ip rest
      | Some ipNet \<Rightarrow> if IPNet_Contains ipNet ip then True else internalMatchSrcIp ip rest)"

fun internalMatchDstPort :: "u32 \<Rightarrow> u32 list \<Rightarrow> bool" where
  "internalMatchDstPort checkDstPort [] = False"
| "internalMatchDstPort checkDstPort (port # rest) =
     (if checkDstPort = port then True else internalMatchDstPort checkDstPort rest)"

text \<open>The test of one string pattern, the same in the two loops below.\<close>

definition string_pattern :: "string \<Rightarrow> StringMatch \<Rightarrow> bool" where
  "string_pattern s m =
     (if length (GetPrefix m) > 0 then prefix (GetPrefix m) s
      else if length (GetSuffix m) > 0 then suffix (GetSuffix m) s
      else if length (GetExact m) > 0 then s = GetExact m
      else length s = 0)"

definition TrimPrefix :: "string \<Rightarrow> string \<Rightarrow> string" where
  "TrimPrefix s p = (if prefix p s then drop (length p) s else s)"

fun match_strings :: "string \<Rightarrow> StringMatch list \<Rightarrow> bool" where
  "match_strings s [] = False"
| "match_strings s (m # rest) = (if string_pattern s m then True else match_strings s rest)"

definition internalMatchPrincipal :: "string \<Rightarrow> StringMatch list \<Rightarrow> bool" where
  "internalMatchPrincipal srcId ps = match_strings (TrimPrefix srcId SPIFFE_PREFIX) ps"

definition internalMatchNamespace :: "string \<Rightarrow> StringMatch list \<Rightarrow> bool" where
  "internalMatchNamespace srcNs nss = match_strings srcNs nss"

definition matchDstIp :: "bytes \<Rightarrow> sec_Match \<Rightarrow> bool" where
  "matchDstIp ip m =
     (let pm = (if destination_ips m = [] then True else internalMatchDstIp ip (destination_ips m));
          nm = (if not_destination_ips m = [] then True else \<not> internalMatchDstIp ip (not_destination_ips m))
      in pm \<and> nm)"

definition matchSrcIp :: "bytes \<Rightarrow> sec_Match \<Rightarrow> bool" where
  "matchSrcIp ip m =
     (let pm = (if source_ips m = [] then True else internalMatchSrcIp ip (source_ips m));
          nm = (if not_source_ips m = [] then True else \<not> internalMatchSrcIp ip (not_source_ips m))
      in pm \<and> nm)"

definition matchDstPort :: "u32 \<Rightarrow> sec_Match \<Rightarrow> bool" where
  "matchDstPort port m =
     (let pm = (if destination_ports m = [] then True else internalMatchDstPort port (destination_ports m));
          nm = (if not_destination_ports m = [] then True else \<not> internalMatchDstPort port (not_destination_ports m))
      in pm \<and> nm)"

definition matchPrincipal :: "string \<Rightarrow> sec_Match \<Rightarrow> bool" where
  "matchPrincipal srcId m =
     (if \<not> prefix SPIFFE_PREFIX srcId then False
      else (let pm = (if principals m = [] then True else internalMatchPrincipal srcId (principals m));
                nm = (if not_principals m = [] then True else \<not> internalMatchPrincipal srcId (not_principals m))
            in pm \<and> nm))"

definition matchNamespace :: "string \<Rightarrow> sec_Match \<Rightarrow> bool" where
  "matchNamespace srcNs m =
     (let pm = (if namespaces m = [] then True else internalMatchNamespace srcNs (namespaces m));
          nm = (if not_namespaces m = [] then True else \<not> internalMatchNamespace srcNs (not_namespaces m))
      in pm \<and> nm)"

definition isEmptyMatch :: "sec_Match \<Rightarrow> bool" where
  "isEmptyMatch m \<longleftrightarrow> destination_ips m = [] \<and> not_destination_ips m = [] \<and> source_ips m = [] \<and> not_source_ips m = [] \<and>
     destination_ports m = [] \<and> not_destination_ports m = [] \<and> principals m = [] \<and> not_principals m = [] \<and>
     namespaces m = [] \<and> not_namespaces m = []"

subsection \<open>Matching a policy\<close>

fun any_match :: "rbacConnection \<Rightarrow> sec_Match list \<Rightarrow> bool" where
  "any_match conn [] = False"
| "any_match conn (m # rest) =
     (if isEmptyMatch m then any_match conn rest
      else if matchDstIp (dstIp conn) m \<and> matchSrcIp (srcIp conn) m \<and> matchDstPort (dstPort conn) m \<and>
              matchPrincipal (Identity_String (srcIdentity conn)) m \<and> matchNamespace (id_namespace (srcIdentity conn)) m
           then True
      else any_match conn rest)"

fun all_clauses :: "rbacConnection \<Rightarrow> sec_Clause list \<Rightarrow> bool" where
  "all_clauses conn [] = True"
| "all_clauses conn (c # rest) =
     (let clauseMatch = any_match conn (cl_matches c);
          clauseMatch1 = (if cl_matches c = [] then True else clauseMatch)
      in if \<not> clauseMatch1 then False else all_clauses conn rest)"

fun any_rule :: "rbacConnection \<Rightarrow> sec_Rule list \<Rightarrow> bool" where
  "any_rule conn [] = False"
| "any_rule conn (r # rest) = (if all_clauses conn (ru_clauses r) then True else any_rule conn rest)"

definition matches :: "rbacConnection \<Rightarrow> Authorization \<Rightarrow> bool" where
  "matches conn policy = (if au_rules policy = [] then False else any_rule conn (au_rules policy))"

subsection \<open>The decision\<close>

text \<open>The loop of \<open>aggregate\<close> over the collected policy names.\<close>

fun collect :: "policyStore \<Rightarrow> string list \<Rightarrow> Authorization list \<Rightarrow> Authorization list \<Rightarrow> Authorization list \<times> Authorization list" where
  "collect ps [] allow deny = (allow, deny)"
| "collect ps (name # rest) allow deny =
     (case map_of (ps_byKey ps) name of
        None \<Rightarrow> collect ps rest allow deny
      | Some policy \<Rightarrow>
          if au_action policy = Action_ALLOW then collect ps rest (allow @ [policy]) deny
          else if au_action policy = Action_DENY then collect ps rest allow (deny @ [policy])
          else collect ps rest allow deny)"

definition aggregate :: "policyStore \<Rightarrow> Workload \<Rightarrow> Authorization list \<times> Authorization list" where
  "aggregate ps workload =
     (let policyNames = wl_authorization_policies workload @ getByNamespace ps (wl_namespace workload) @ getByNamespace ps ''''
      in collect ps policyNames [] [])"

definition doRbac :: "policyStore \<Rightarrow> workload_cache \<Rightarrow> rbacConnection \<Rightarrow> bool" where
  "doRbac ps wc conn =
     (case GetWorkloadByAddr wc (dstNetwork conn, AddrFromSlice (dstIp conn)) of
        None \<Rightarrow> False
      | Some dstWorkload \<Rightarrow>
          (let (allowPolicies, denyPolicies) = aggregate ps dstWorkload in
           if list_ex (matches conn) denyPolicies then False
           else if allowPolicies = [] then True
           else list_ex (matches conn) allowPolicies))"

definition getIdentityByIp :: "workload_cache \<Rightarrow> bytes \<Rightarrow> Identity" where
  "getIdentityByIp wc ip =
     (case GetWorkloadByAddr wc ('''', AddrFromSlice ip) of
        None \<Rightarrow> \<lparr>id_trustDomain = '''', id_namespace = '''', id_serviceAccount = ''''\<rparr>
      | Some workload \<Rightarrow> \<lparr>id_trustDomain = wl_trust_domain workload, id_namespace = wl_namespace workload,
                           id_serviceAccount = wl_service_account workload\<rparr>)"

subsection \<open>Records of the kernel\<close>

abbreviation MSG_TYPE_IPV4 :: u32 where "MSG_TYPE_IPV4 \<equiv> 0"
abbreviation MSG_TYPE_IPV6 :: u32 where "MSG_TYPE_IPV6 \<equiv> 1"
abbreviation IPV4_TUPLE_LENGTH :: nat where "IPV4_TUPLE_LENGTH \<equiv> 12"
abbreviation TUPLE_LEN :: nat where "TUPLE_LEN \<equiv> 36"
abbreviation MSG_LEN :: nat where "MSG_LEN \<equiv> 40"

definition be_get32 :: "bytes \<Rightarrow> u32" where
  "be_get32 b = bpf_ntohl b"

definition be_put32 :: "u32 \<Rightarrow> bytes" where
  "be_put32 w = [ucast (drop_bit 24 w), ucast (drop_bit 16 w), ucast (drop_bit 8 w), ucast w]"

text \<open>\<open>binary.Read\<close> of \<open>n\<close> bytes fails when the buffer is shorter.\<close>

definition buf_read :: "nat \<Rightarrow> bytes \<Rightarrow> (bytes \<times> bytes) option" where
  "buf_read n buf = (if length buf < n then None else Some (take n buf, drop n buf))"

definition buildConnV4 :: "workload_cache \<Rightarrow> bytes \<Rightarrow> rbacConnection option" where
  "buildConnV4 wc buf = do {
     (src, b1) \<leftarrow> buf_read 4 buf;
     (dst, b2) \<leftarrow> buf_read 4 b1;
     (sport, b3) \<leftarrow> buf_read 2 b2;
     (dport, b4) \<leftarrow> buf_read 2 b3;
     let sip = be_put32 (be_get32 src);
     let dip = be_put32 (be_get32 dst);
     Some \<lparr>srcIdentity = getIdentityByIp wc sip, dstNetwork = '''', srcIp = sip, dstIp = dip,
           dstPort = ucast (le_get16 dport)\<rparr> }"

definition be_words :: "bytes \<Rightarrow> bytes" where
  "be_words b = concat (map (\<lambda>i. be_put32 (be_get32 (bytes_at (4 * i) 4 b))) [0, 1, 2, 3])"

definition buildConnV6 :: "workload_cache \<Rightarrow> bytes \<Rightarrow> rbacConnection option" where
  "buildConnV6 wc buf = do {
     (src, b1) \<leftarrow> buf_read 16 buf;
     (dst, b2) \<leftarrow> buf_read 16 b1;
     (sport, b3) \<leftarrow> buf_read 2 b2;
     (dport, b4) \<leftarrow> buf_read 2 b3;
     let sip = be_words src;
     let dip = be_words dst;
     Some \<lparr>srcIdentity = getIdentityByIp wc sip, dstNetwork = '''', srcIp = sip, dstIp = dip,
           dstPort = ucast (le_get16 dport)\<rparr> }"

text \<open>
  \<open>xdpNotifyConnRst\<close>, and the body of the loop of \<open>Run\<close> for one record: \<open>ok\<close> says whether the
  kernel accepts the update of the result map.
\<close>

type_synonym auth_result_map = "bytes \<rightharpoonup> u32"

definition xdpNotifyConnRst :: "bool \<Rightarrow> u32 \<Rightarrow> bytes \<Rightarrow> auth_result_map \<Rightarrow> auth_result_map" where
  "xdpNotifyConnRst ok msgType key m =
     (let key1 = (if msgType = MSG_TYPE_IPV4
                  then take IPV4_TUPLE_LENGTH key @ replicate (length key - IPV4_TUPLE_LENGTH) 0 else key)
      in if ok then m(key1 \<mapsto> 1) else m)"

definition run_record :: "policyStore \<Rightarrow> workload_cache \<Rightarrow> bool \<Rightarrow> bytes \<Rightarrow> auth_result_map \<Rightarrow> auth_result_map" where
  "run_record ps wc ok rawSample m =
     (if length rawSample \<noteq> MSG_LEN then m
      else (let msgType = le_get32 rawSample;
                tupleData = drop 4 rawSample;
                conn = (if msgType = MSG_TYPE_IPV4 then buildConnV4 wc tupleData
                        else if msgType = MSG_TYPE_IPV6 then buildConnV6 wc tupleData
                        else None)
            in case conn of
                 None \<Rightarrow> m
               | Some c \<Rightarrow> if \<not> doRbac ps wc c then xdpNotifyConnRst ok msgType tupleData m else m))"

subsection \<open>Prefixes, bit by bit\<close>

text \<open>Bit \<open>i\<close> of an address, counted from the most significant bit of its first byte.\<close>

definition addr_bit :: "bytes \<Rightarrow> nat \<Rightarrow> bool" where
  "addr_bit a i = bit (a ! (i div 8)) (7 - i mod 8)"

lemma bit_0xff: "bit (0xff :: u8) k \<longleftrightarrow> k < 8"
proof -
  have "(0xff :: u8) = - 1" by simp
  then show ?thesis by (simp only: bit_minus_1_iff) simp
qed

lemma length_CIDRMask [simp]: "length (CIDRMask n l) = l"
  by (induction n l rule: CIDRMask.induct) auto

lemma CIDRMask_bit: "j < l \<Longrightarrow> k < 8 \<Longrightarrow> bit (CIDRMask n l ! j) k \<longleftrightarrow> 8 * j + (7 - k) < n"
proof (induction n l arbitrary: j rule: CIDRMask.induct)
  case (2 n l)
  show ?case
  proof (cases j)
    case 0
    have "bit (NOT (drop_bit n (0xff :: u8))) k \<longleftrightarrow> 7 - k < n" if "n < 8"
      using "2.prems"(2) that by (simp add: bit_not_iff bit_drop_bit_eq bit_0xff del: bit_numeral_word_iff) arith
    then show ?thesis using 0 "2.prems"(2) by (simp add: bit_0xff del: bit_numeral_word_iff) arith
  next
    case (Suc i)
    then show ?thesis using 2 by (cases "n \<ge> 8") auto
  qed
qed simp

lemma masked_eq_iff:
  assumes "j < l"
  shows "(a AND CIDRMask n l ! j = b AND CIDRMask n l ! j) \<longleftrightarrow>
         (\<forall>k < 8. 8 * j + k < n \<longrightarrow> bit a (7 - k) = bit b (7 - k))" (is "?L \<longleftrightarrow> ?R")
proof -
  have "?L \<longleftrightarrow> (\<forall>k < 8. bit (CIDRMask n l ! j) k \<longrightarrow> bit a k = bit b k)"
    by (auto simp: bit_eq_iff bit_and_iff bit_0xff dest: bit_imp_le_length)
  also have "\<dots> \<longleftrightarrow> (\<forall>k < 8. 8 * j + (7 - k) < n \<longrightarrow> bit a k = bit b k)"
    using CIDRMask_bit [OF assms] by blast
  also have "\<dots> \<longleftrightarrow> ?R"
  proof
    assume l: "\<forall>k < 8. 8 * j + (7 - k) < n \<longrightarrow> bit a k = bit b k"
    show ?R
    proof (intro allI impI)
      fix k :: nat assume "k < 8" "8 * j + k < n"
      then show "bit a (7 - k) = bit b (7 - k)" using l [rule_format, of "7 - k"] by simp
    qed
  next
    assume r: ?R
    show "\<forall>k < 8. 8 * j + (7 - k) < n \<longrightarrow> bit a k = bit b k"
    proof (intro allI impI)
      fix k :: nat assume "k < 8" "8 * j + (7 - k) < n"
      then show "bit a k = bit b k" using r [rule_format, of "7 - k"] by simp
    qed
  qed
  finally show ?thesis .
qed

lemma all_bits_blocks:
  fixes n l :: nat
  assumes "n \<le> 8 * l"
  shows "(\<forall>j < l. \<forall>k < 8. 8 * j + k < n \<longrightarrow> P j k) \<longleftrightarrow> (\<forall>i < n. P (i div 8) (i mod 8))"
proof
  assume l: "\<forall>j < l. \<forall>k < 8. 8 * j + k < n \<longrightarrow> P j k"
  show "\<forall>i < n. P (i div 8) (i mod 8)"
  proof (intro allI impI)
    fix i assume "i < n"
    moreover from this have "i div 8 < l" using assms by (simp add: less_mult_imp_div_less)
    moreover have "8 * (i div 8) + i mod 8 = i" by simp
    ultimately show "P (i div 8) (i mod 8)" using l by (metis mod_less_divisor zero_less_numeral)
  qed
next
  assume r: "\<forall>i < n. P (i div 8) (i mod 8)"
  show "\<forall>j < l. \<forall>k < 8. 8 * j + k < n \<longrightarrow> P j k"
  proof (intro allI impI)
    fix j k :: nat assume "k < 8" "8 * j + k < n"
    then show "P j k" using r [rule_format, of "8 * j + k"] by simp
  qed
qed

text \<open>An address matches a prefix if the kinds agree and the leading bits do.\<close>

definition in_prefix :: "sec_Address \<Rightarrow> bytes \<Rightarrow> bool" where
  "in_prefix a ip \<longleftrightarrow> (let net = ip_norm (sa_address a); x = ip_norm ip in
     (length net = 4 \<or> length net = 16) \<and> unat (sa_length a) \<le> 8 * length net \<and> length x = length net \<and>
     (\<forall>i < unat (sa_length a). addr_bit net i = addr_bit x i))"

lemma in_prefix_ParseCIDR:
  "(case ParseCIDR (sa_address a) (sa_length a) of None \<Rightarrow> False | Some ipNet \<Rightarrow> IPNet_Contains ipNet ip) = in_prefix a ip"
proof -
  let ?net = "ip_norm (sa_address a)" and ?x = "ip_norm ip" and ?n = "unat (sa_length a)"
  let ?l = "length ?net"
  have "list_all (\<lambda>((n, mk), b). n AND mk = b AND mk) (zip (zip (map2 (AND) ?net (CIDRMask ?n ?l)) (CIDRMask ?n ?l)) ?x) \<longleftrightarrow>
      (\<forall>i < ?n. addr_bit ?net i = addr_bit ?x i)" if "?n \<le> 8 * ?l" "length ?x = ?l"
  proof -
    have "list_all (\<lambda>((n, mk), b). n AND mk = b AND mk) (zip (zip (map2 (AND) ?net (CIDRMask ?n ?l)) (CIDRMask ?n ?l)) ?x) \<longleftrightarrow>
        (\<forall>j < ?l. \<forall>k < 8. 8 * j + k < ?n \<longrightarrow> bit (?net ! j) (7 - k) = bit (?x ! j) (7 - k))"
      using that(2) by (simp add: list_all_length masked_eq_iff)
    also have "\<dots> \<longleftrightarrow> (\<forall>i < ?n. addr_bit ?net i = addr_bit ?x i)"
      using all_bits_blocks [OF that(1), of "\<lambda>j k. bit (?net ! j) (7 - k) = bit (?x ! j) (7 - k)"]
      by (simp add: addr_bit_def)
    finally show ?thesis .
  qed
  then show ?thesis
    by (auto simp: ParseCIDR_def in_prefix_def IPNet_Contains_def Let_def)
qed

lemma internalMatchDstIp_spec: "internalMatchDstIp ip addrs \<longleftrightarrow> (\<exists>a \<in> set addrs. in_prefix a ip)"
  by (induction addrs) (auto simp: in_prefix_ParseCIDR [symmetric] split: option.splits)

lemma internalMatchSrcIp_spec: "internalMatchSrcIp ip addrs \<longleftrightarrow> (\<exists>a \<in> set addrs. in_prefix a ip)"
  by (induction addrs) (auto simp: in_prefix_ParseCIDR [symmetric] split: option.splits)

lemma internalMatchDstPort_spec: "internalMatchDstPort port ports \<longleftrightarrow> port \<in> set ports"
  by (induction ports) auto

lemma match_strings_spec: "match_strings s ms \<longleftrightarrow> (\<exists>m \<in> set ms. string_pattern s m)"
  by (induction ms) auto

subsection \<open>What the loops decide\<close>

text \<open>One match: every field that is set must agree, and an empty match never does.\<close>

definition match_holds :: "rbacConnection \<Rightarrow> sec_Match \<Rightarrow> bool" where
  "match_holds conn m \<longleftrightarrow> \<not> isEmptyMatch m \<and> matchDstIp (dstIp conn) m \<and> matchSrcIp (srcIp conn) m \<and>
     matchDstPort (dstPort conn) m \<and> matchPrincipal (Identity_String (srcIdentity conn)) m \<and>
     matchNamespace (id_namespace (srcIdentity conn)) m"

lemma any_match_spec: "any_match conn ms \<longleftrightarrow> (\<exists>m \<in> set ms. match_holds conn m)"
  by (induction ms) (auto simp: match_holds_def)

lemma all_clauses_spec:
  "all_clauses conn cs \<longleftrightarrow> (\<forall>c \<in> set cs. cl_matches c = [] \<or> (\<exists>m \<in> set (cl_matches c). match_holds conn m))"
  by (induction cs) (auto simp: any_match_spec Let_def)

lemma matches_spec:
  "matches conn p \<longleftrightarrow> (\<exists>r \<in> set (au_rules p). \<forall>c \<in> set (ru_clauses r).
     cl_matches c = [] \<or> (\<exists>m \<in> set (cl_matches c). match_holds conn m))"
proof -
  have "any_rule conn rs \<longleftrightarrow> (\<exists>r \<in> set rs. all_clauses conn (ru_clauses r))" for rs
    by (induction rs) auto
  then show ?thesis by (auto simp: matches_def all_clauses_spec)
qed

lemma Identity_String_prefix [simp]: "prefix SPIFFE_PREFIX (Identity_String i)"
  by (simp add: Identity_String_def)

lemma matchers_spec:
  "matchDstIp ip m \<longleftrightarrow> (destination_ips m = [] \<or> (\<exists>a \<in> set (destination_ips m). in_prefix a ip)) \<and>
     (\<forall>a \<in> set (not_destination_ips m). \<not> in_prefix a ip)"
  "matchSrcIp ip m \<longleftrightarrow> (source_ips m = [] \<or> (\<exists>a \<in> set (source_ips m). in_prefix a ip)) \<and>
     (\<forall>a \<in> set (not_source_ips m). \<not> in_prefix a ip)"
  "matchDstPort port m \<longleftrightarrow> (destination_ports m = [] \<or> port \<in> set (destination_ports m)) \<and>
     port \<notin> set (not_destination_ports m)"
  by (auto simp: matchDstIp_def matchSrcIp_def matchDstPort_def internalMatchDstIp_spec internalMatchSrcIp_spec
      internalMatchDstPort_spec Let_def)

lemma collect_spec:
  "set (fst (collect ps names a d)) = set a \<union> {p. \<exists>n \<in> set names. map_of (ps_byKey ps) n = Some p \<and> au_action p = Action_ALLOW}"
  "set (snd (collect ps names a d)) = set d \<union> {p. \<exists>n \<in> set names. map_of (ps_byKey ps) n = Some p \<and> au_action p = Action_DENY}"
  by (induction names arbitrary: a d) (auto split: option.splits)

text \<open>A policy applies to a workload that names it, to its namespace, or to every workload.\<close>

definition policy_applies :: "policyStore \<Rightarrow> Workload \<Rightarrow> Authorization \<Rightarrow> bool" where
  "policy_applies ps wl p \<longleftrightarrow> (\<exists>k. map_of (ps_byKey ps) k = Some p \<and>
     (k \<in> set (wl_authorization_policies wl) \<or> index_of p = Some (wl_namespace wl) \<or> index_of p = Some ''''))"

lemma aggregate_spec:
  assumes "store_ok ps"
  shows "set (fst (aggregate ps wl)) = {p. policy_applies ps wl p \<and> au_action p = Action_ALLOW}"
    and "set (snd (aggregate ps wl)) = {p. policy_applies ps wl p \<and> au_action p = Action_DENY}"
  using store_okD(3) [OF assms] unfolding aggregate_def Let_def collect_spec policy_applies_def by fastforce+

text \<open>
  C4.  The decision on a connection.  With an exact policy store, a connection is let through if
  and only if its destination is a known workload, no deny policy that applies to it matches,
  and either no allow policy applies or one that applies matches: whatever the order in which
  the policies are collected.
\<close>

theorem doRbac_decides:
  assumes "store_ok ps"
  shows "doRbac ps wc conn \<longleftrightarrow>
    (\<exists>wl. GetWorkloadByAddr wc (dstNetwork conn, AddrFromSlice (dstIp conn)) = Some wl \<and>
       (\<forall>p. policy_applies ps wl p \<and> au_action p = Action_DENY \<longrightarrow> \<not> matches conn p) \<and>
       ((\<exists>p. policy_applies ps wl p \<and> au_action p = Action_ALLOW) \<longrightarrow>
        (\<exists>p. policy_applies ps wl p \<and> au_action p = Action_ALLOW \<and> matches conn p)))"
proof (cases "GetWorkloadByAddr wc (dstNetwork conn, AddrFromSlice (dstIp conn))")
  case (Some wl)
  obtain allow deny where ag: "aggregate ps wl = (allow, deny)" by fastforce
  have a: "set allow = {p. policy_applies ps wl p \<and> au_action p = Action_ALLOW}"
    and d: "set deny = {p. policy_applies ps wl p \<and> au_action p = Action_DENY}"
    using aggregate_spec [OF assms, of wl] ag by simp_all
  have "allow = [] \<longleftrightarrow> \<not> (\<exists>p. policy_applies ps wl p \<and> au_action p = Action_ALLOW)"
    using a by (metis (mono_tags, lifting) empty_Collect_eq set_empty)
  then show ?thesis using Some ag a d by (auto simp: doRbac_def list_ex_iff)
qed (simp add: doRbac_def)

definition any_port_match :: "u32 \<Rightarrow> sec_Match" where
  "any_port_match port = \<lparr>namespaces = [], not_namespaces = [], principals = [], not_principals = [],
     source_ips = [], not_source_ips = [], destination_ips = [], not_destination_ips = [],
     destination_ports = [port], not_destination_ports = []\<rparr>"

definition deny_8080 :: policyStore where
  "deny_8080 = snd (updatePolicy (Some (sample_policy Scope_GLOBAL Action_DENY
     [sec_Rule [sec_Clause [any_port_match 8080]]])) newPolicyStore)"

definition one_workload :: workload_cache where
  "one_workload = \<lparr>byUid = Map.empty, byAddr = [('''', Some [10, 0, 0, 1]) \<mapsto> sample_workload ''w1'' [10, 0, 0, 1]]\<rparr>"

definition conn_to :: "u32 \<Rightarrow> rbacConnection" where
  "conn_to port = \<lparr>srcIdentity = \<lparr>id_trustDomain = '''', id_namespace = '''', id_serviceAccount = ''''\<rparr>,
     dstNetwork = '''', srcIp = [10, 0, 0, 2], dstIp = [10, 0, 0, 1], dstPort = port\<rparr>"

lemma deny_8080_store:
  "ps_byKey deny_8080 = [(''ns/p'', sample_policy Scope_GLOBAL Action_DENY [sec_Rule [sec_Clause [any_port_match 8080]]])]"
  "store_ok deny_8080"
proof -
  let ?p = "sample_policy Scope_GLOBAL Action_DENY [sec_Rule [sec_Clause [any_port_match 8080]]]"
  have u: "updatePolicy (Some ?p) newPolicyStore = (None, deny_8080)"
    by (simp add: deny_8080_def updatePolicy_def sample_policy_def Let_def)
  show "store_ok deny_8080"
    by (rule updatePolicy_keeps(1) [OF new_store_ok u]) (simp add: newPolicyStore_def)
  show "ps_byKey deny_8080 = [(''ns/p'', ?p)]"
    by (simp add: deny_8080_def updatePolicy_def sample_policy_def index_policy_def newPolicyStore_def
        Authorization_ResourceName_def Let_def)
qed

theorem doRbac_decides_witness:
  "\<not> doRbac deny_8080 one_workload (conn_to 8080) \<and> doRbac deny_8080 one_workload (conn_to 80)"
proof -
  have wl: "GetWorkloadByAddr one_workload (dstNetwork (conn_to p), AddrFromSlice (dstIp (conn_to p))) =
      Some (sample_workload ''w1'' [10, 0, 0, 1])" for p
    by (simp add: one_workload_def conn_to_def AddrFromSlice_def GetWorkloadByAddr_def)
  have m: "match_holds (conn_to p) (any_port_match q) \<longleftrightarrow> p = q" for p q
    by (auto simp: match_holds_def isEmptyMatch_def matchers_spec matchPrincipal_def matchNamespace_def any_port_match_def conn_to_def)
  have ap: "policy_applies deny_8080 (sample_workload ''w1'' [10, 0, 0, 1]) p \<longleftrightarrow>
      p = sample_policy Scope_GLOBAL Action_DENY [sec_Rule [sec_Clause [any_port_match 8080]]]" for p
    by (auto simp: policy_applies_def deny_8080_store index_of_def sample_policy_def)
  show ?thesis
    using doRbac_decides [OF deny_8080_store(2), of one_workload "conn_to 8080"]
      doRbac_decides [OF deny_8080_store(2), of one_workload "conn_to 80"]
    by (simp add: wl ap matches_spec m sample_policy_def)
qed

subsection \<open>Further properties\<close>

text \<open>
  C34.  Matching an address list is matching of prefixes: some entry has an address of the same
  kind (an IPv4-mapped one counting as IPv4) and a length within it, and the leading bits of
  that length agree.  Malformed entries match nothing.
\<close>

theorem ip_match_is_prefix_match:
  "internalMatchSrcIp ip addrs \<longleftrightarrow> (\<exists>a \<in> set addrs. in_prefix a ip)"
  by (rule internalMatchSrcIp_spec)



text \<open>
  When the only known workload is in a named network, every IPv4 connection is denied, whatever
  the policies: the connection is looked up in the unnamed network.
\<close>

theorem named_network_denied:
  assumes "wl_network wl \<noteq> ''''" and "buildConnV4 (AddOrUpdateWorkload NewWorkloadCache wl) buf = Some conn"
  shows "\<not> doRbac ps (AddOrUpdateWorkload NewWorkloadCache wl) conn"
proof -
  let ?wc = "AddOrUpdateWorkload NewWorkloadCache wl"
  have net: "dstNetwork conn = ''''"
    using assms(2) by (auto simp: buildConnV4_def Let_def split: Option.bind_splits)
  have "byAddr (fold (\<lambda>ip c. c\<lparr>byAddr := (byAddr c)(wl_net_addr wl ip \<mapsto> wl)\<rparr>) ips c) ('''', a) = byAddr c ('''', a)"
    for ips a and c :: workload_cache
    using assms(1) by (induction ips arbitrary: c) (auto simp: wl_net_addr_def composeNetworkAddress_def)
  then have "byAddr ?wc ('''', a) = None" for a by (simp add: AddOrUpdateWorkload_def NewWorkloadCache_def Let_def)
  then show ?thesis by (simp add: doRbac_def GetWorkloadByAddr_def net)
qed

theorem named_network_denied_witness:
  "let wc = AddOrUpdateWorkload NewWorkloadCache ((sample_workload ''w1'' [10, 0, 0, 1])\<lparr>wl_network := ''net1''\<rparr>) in
   \<not> doRbac newPolicyStore wc (the (buildConnV4 wc ([10, 0, 0, 2, 10, 0, 0, 1, 0, 0, 80, 0] @ replicate 24 0)))"
proof -
  let ?wl = "(sample_workload ''w1'' [10, 0, 0, 1])\<lparr>wl_network := ''net1''\<rparr>"
  let ?wc = "AddOrUpdateWorkload NewWorkloadCache ?wl"
  obtain c where "buildConnV4 ?wc ([10, 0, 0, 2, 10, 0, 0, 1, 0, 0, 80, 0] @ replicate 24 0) = Some c"
    by (simp add: buildConnV4_def buf_read_def Let_def)
  with named_network_denied [of ?wl "[10, 0, 0, 2, 10, 0, 0, 1, 0, 0, 80, 0] @ replicate 24 0" c newPolicyStore] show ?thesis
    by (simp add: Let_def)
qed

end
