(* ===== verification/Sock_Ops.thy ===== *)
theory Sock_Ops
  imports Rbac
begin

text \<open>
  The socket operations program (\<open>bpf/kmesh/workload/sockops.c\<close>): it records which addresses
  are managed, sends the tuple of an accepted connection to user space for authorization, and
  cleans up when the connection closes.  The ring buffer is the list of messages submitted to
  it; reserving may fail, and when it succeeds the memory holds whatever an earlier message left
  there, the argument \<open>junk\<close>.  The telemetry calls of the program are not modelled.
\<close>

abbreviation (input) SO_IPV4 :: u32 where "SO_IPV4 \<equiv> 0"
abbreviation (input) SO_IPV6 :: u32 where "SO_IPV6 \<equiv> 1"

definition le_put32 :: "u32 \<Rightarrow> bytes" where
  "le_put32 w = [ucast w, ucast (drop_bit 8 w), ucast (drop_bit 16 w), ucast (drop_bit 24 w)]"

text \<open>The two addresses the daemon writes into the program, 16 bytes each.\<close>

definition skip_specific_probe :: "bytes \<Rightarrow> bytes \<Rightarrow> bpf_sock_ops \<Rightarrow> bool" where
  "skip_specific_probe node_ip pod_gateway skops =
     (if so_family skops = AF_INET \<and>
         (ip6_word node_ip 3 = remote_ip4 skops \<or> ip6_word pod_gateway 3 = remote_ip4 skops) then True
      else if so_family skops = AF_INET6 \<and> (node_ip = remote_ip6 skops \<or> pod_gateway = remote_ip6 skops) then True
      else False)"

definition extract_skops_to_tuple :: "bpf_sock_ops \<Rightarrow> bytes \<Rightarrow> bytes" where
  "extract_skops_to_tuple skops tuple_key =
     (let t1 = (if so_family skops = AF_INET
                then put_ipv4 (local_ip4 skops) (remote_ip4 skops) (bpf_htons (GET_SKOPS_LOCAL_PORT skops))
                       (GET_SKOPS_REMOTE_PORT skops) tuple_key
                else tuple_key)
      in if so_family skops = AF_INET6
         then put_ipv6 (local_ip6 skops) (remote_ip6 skops) (bpf_htons (GET_SKOPS_LOCAL_PORT skops))
                (GET_SKOPS_REMOTE_PORT skops) t1
         else t1)"

text \<open>The fields of the IPv4 variant, one after the other, from those of the IPv6 variant.\<close>

definition restore_ipv4 :: "bytes \<Rightarrow> bytes" where
  "restore_ipv4 t =
     (let a = put_at 0 (ip6_word (ipv6_saddr t) 3) t;
          b = put_at 4 (ip6_word (ipv6_daddr a) 3) a;
          c = put_at 8 (le_put16 (ipv6_sport b)) b
      in put_at 10 (le_put16 (ipv6_dport c)) c)"

definition extract_skops_to_tuple_reverse :: "bpf_sock_ops \<Rightarrow> bytes \<Rightarrow> bytes" where
  "extract_skops_to_tuple_reverse skops tuple_key =
     (let t1 = (if so_family skops = AF_INET
                then put_ipv4 (remote_ip4 skops) (local_ip4 skops) (bpf_ntohs (GET_SKOPS_REMOTE_PORT skops))
                       (GET_SKOPS_LOCAL_PORT skops) tuple_key
                else tuple_key);
          t2 = (if so_family skops = AF_INET6
                then put_ipv6 (remote_ip6 skops) (local_ip6 skops) (bpf_ntohs (GET_SKOPS_REMOTE_PORT skops))
                       (GET_SKOPS_LOCAL_PORT skops) t1
                else t1)
      in if is_ipv4_mapped_addr (ipv6_daddr t2) \<or> is_ipv4_mapped_addr (ipv6_saddr t2)
         then restore_ipv4 t2 else t2)"

definition clean_auth_map :: "bpf_sock_ops \<Rightarrow> auth_result_map \<Rightarrow> auth_result_map" where
  "clean_auth_map skops m = m(extract_skops_to_tuple_reverse skops zero_tuple := None)"

definition auth_ip_tuple :: "bool \<Rightarrow> bytes \<Rightarrow> bpf_sock_ops \<Rightarrow> bytes list \<Rightarrow> bytes list" where
  "auth_ip_tuple ok junk skops ring =
     (if \<not> ok then ring
      else (let tup = extract_skops_to_tuple_reverse skops junk;
                typ = (if so_family skops = AF_INET then SO_IPV4 else SO_IPV6);
                typ1 = (if is_ipv4_mapped_addr (local_ip6 skops) then SO_IPV4 else typ)
            in ring @ [le_put32 typ1 @ tup]))"

definition enable_encoding_metadata :: "bool \<Rightarrow> bpf_sock_ops \<Rightarrow> bytes set \<Rightarrow> bytes set" where
  "enable_encoding_metadata ok skops socks =
     (if ok then insert (extract_skops_to_tuple skops zero_tuple) socks else socks)"

datatype sock_op = BPF_SOCK_OPS_TCP_CONNECT_CB | BPF_SOCK_OPS_ACTIVE_ESTABLISHED_CB
  | BPF_SOCK_OPS_PASSIVE_ESTABLISHED_CB | BPF_SOCK_OPS_STATE_CB nat | BPF_SOCK_OPS_other

abbreviation (input) BPF_TCP_CLOSE :: nat where "BPF_TCP_CLOSE \<equiv> 7"

record so_state =
  so_manager :: manager_map
  so_ring :: "bytes list"
  so_socks :: "bytes set"
  so_auth :: auth_result_map

record so_env =
  so_node_ip :: bytes
  so_pod_gateway :: bytes
  so_map_ok :: bool
  so_ring_ok :: bool
  so_junk :: bytes
  so_storage :: "sock_storage_data option"

definition sockops_prog :: "so_env \<Rightarrow> sock_op \<Rightarrow> bpf_sock_ops \<Rightarrow> so_state \<Rightarrow> so_state" where
  "sockops_prog I op skops s =
     (if so_family skops \<noteq> AF_INET \<and> so_family skops \<noteq> AF_INET6 then s
      else case op of
        BPF_SOCK_OPS_TCP_CONNECT_CB \<Rightarrow>
          s\<lparr>so_manager := skops_handle_kmesh_managed_process (so_map_ok I) skops (so_manager s)\<rparr>
      | BPF_SOCK_OPS_ACTIVE_ESTABLISHED_CB \<Rightarrow>
          (if \<not> is_managed_by_kmesh skops (so_manager s) then s
           else case so_storage I of
             None \<Rightarrow> s
           | Some st \<Rightarrow>
               if st_via_waypoint st then s\<lparr>so_socks := enable_encoding_metadata (so_map_ok I) skops (so_socks s)\<rparr> else s)
      | BPF_SOCK_OPS_PASSIVE_ESTABLISHED_CB \<Rightarrow>
          (if \<not> is_managed_by_kmesh skops (so_manager s) \<or> skip_specific_probe (so_node_ip I) (so_pod_gateway I) skops then s
           else s\<lparr>so_ring := auth_ip_tuple (so_ring_ok I) (so_junk I) skops (so_ring s)\<rparr>)
      | BPF_SOCK_OPS_STATE_CB arg \<Rightarrow>
          (if arg = BPF_TCP_CLOSE then s\<lparr>so_auth := clean_auth_map skops (so_auth s)\<rparr> else s)
      | BPF_SOCK_OPS_other \<Rightarrow> s)"

subsection \<open>The tuple of an IPv4 connection\<close>

definition v4_skops :: "bpf_sock_ops \<Rightarrow> bool" where
  "v4_skops k \<longleftrightarrow> so_family k = AF_INET \<and> length (local_ip4 k) = 4 \<and> length (remote_ip4 k) = 4"

text \<open>The tuple that user space and the XDP program use for the connection: client first.\<close>

definition client_tuple :: "bpf_sock_ops \<Rightarrow> bytes" where
  "client_tuple k = put_ipv4 (remote_ip4 k) (local_ip4 k) (bpf_ntohs (GET_SKOPS_REMOTE_PORT k)) (GET_SKOPS_LOCAL_PORT k) zero_tuple"

lemma put_ipv4_form:
  assumes "length t = 36" "length s = 4" "length d = 4"
  shows "put_ipv4 s d sp dp t = s @ d @ le_put16 sp @ le_put16 dp @ drop 12 t"
  using assms by (simp add: put_ipv4_def put_at_def)

lemma le_put_get16:
  assumes "length b = 2"
  shows "le_put16 (le_get16 b) = b"
proof -
  obtain x y where b: "b = [x, y]" using assms by (auto simp: length_Suc_conv numeral_2_eq_2)
  have "ucast (ucast x OR push_bit 8 (ucast y) :: u16) = x" "ucast (drop_bit 8 (ucast x OR push_bit 8 (ucast y) :: u16)) = y"
    by (auto simp: bit_eq_iff bit_simps dest: bit_imp_le_length)
  then show ?thesis by (simp add: b le_put16_def le_get16_def)
qed

lemma restore_ipv4_form:
  assumes "length t = 36"
  shows "restore_ipv4 t = bytes_at 12 4 t @ bytes_at 28 4 t @ bytes_at 32 4 t @ drop 12 t"
proof -
  have w: "ip6_word (ipv6_saddr u) 3 = bytes_at 12 4 u" "ip6_word (ipv6_daddr u) 3 = bytes_at 28 4 u" for u
    by (simp_all add: bytes_at_def ip6_word_def drop_take)
  have l: "length (bytes_at 12 4 t) = 4" "length (bytes_at 28 4 t) = 4" "length (bytes_at 32 2 t) = 2" "length (bytes_at 34 2 t) = 2"
    using assms by (simp_all add: bytes_at_def)
  have "restore_ipv4 t = put_at 10 (bytes_at 34 2 t) (put_at 8 (bytes_at 32 2 t) (put_at 4 (bytes_at 28 4 t) (put_at 0 (bytes_at 12 4 t) t)))"
    using assms l by (simp add: restore_ipv4_def Let_def w ipv6_sport_def ipv6_dport_def put_at_other le_put_get16)
  also have "\<dots> = bytes_at 12 4 t @ bytes_at 28 4 t @ bytes_at 32 2 t @ bytes_at 34 2 t @ drop 12 t"
    using assms l by (simp add: put_at_def)
  also have "\<dots> = bytes_at 12 4 t @ bytes_at 28 4 t @ (bytes_at 32 2 t @ bytes_at 34 2 t) @ drop 12 t" by simp
  also have "bytes_at 32 2 t @ bytes_at 34 2 t = bytes_at 32 4 t"
    using take_add [of 2 2 "drop 32 t"] by (simp add: bytes_at_def)
  finally show ?thesis .
qed

lemma reverse_v4:
  assumes "v4_skops k" "length t = 36" and "\<not> is_ipv4_mapped_addr (ipv6_daddr t)" "remote_ip4 k \<noteq> [0, 0, 0, 0]"
  shows "extract_skops_to_tuple_reverse k t =
     put_ipv4 (remote_ip4 k) (local_ip4 k) (bpf_ntohs (GET_SKOPS_REMOTE_PORT k)) (GET_SKOPS_LOCAL_PORT k) t"
proof -
  let ?t = "put_ipv4 (remote_ip4 k) (local_ip4 k) (bpf_htons (GET_SKOPS_REMOTE_PORT k)) (GET_SKOPS_LOCAL_PORT k) t"
  have l: "length (remote_ip4 k) = 4" "length (local_ip4 k) = 4" using assms(1) by (simp_all add: v4_skops_def)
  note f = put_ipv4_form [OF assms(2) l]
  have d: "\<not> is_ipv4_mapped_addr (ipv6_daddr ?t)" using l assms(3) by (simp add: f bytes_at_def)
  have "ip6_word (ipv6_saddr ?t) 0 = remote_ip4 k" using l by (simp add: f bytes_at_def ip6_word_def)
  then have s: "\<not> is_ipv4_mapped_addr (ipv6_saddr ?t)" using assms(4) by (simp add: is_ipv4_mapped_addr_def)
  show ?thesis
    using assms(1) d s by (simp add: extract_skops_to_tuple_reverse_def v4_skops_def Let_def)
qed

text \<open>
  A stale message corrupts the authorization of a later IPv4 connection.  The reserved
  memory is not cleared, and the test for an IPv4-mapped address reads bytes that the IPv4
  fields do not cover: if an earlier message left a mapped address there, the client address
  that user space sees is taken from that message.
\<close>

theorem stale_ring_slot_corrupts_tuple:
  assumes "v4_skops k" and "length junk = 36" and "is_ipv4_mapped_addr (ipv6_daddr junk)"
  shows "ipv4_saddr (extract_skops_to_tuple_reverse k junk) = bytes_at 12 4 junk"
proof -
  let ?t = "put_ipv4 (remote_ip4 k) (local_ip4 k) (bpf_htons (GET_SKOPS_REMOTE_PORT k)) (GET_SKOPS_LOCAL_PORT k) junk"
  have l: "length (remote_ip4 k) = 4" "length (local_ip4 k) = 4" using assms(1) by (simp_all add: v4_skops_def)
  note f = put_ipv4_form [OF assms(2) l]
  have t: "length ?t = 36" "is_ipv4_mapped_addr (ipv6_daddr ?t)" "bytes_at 12 4 ?t = bytes_at 12 4 junk"
    using assms(2,3) l by (simp_all add: f bytes_at_def)
  have "ipv4_saddr (restore_ipv4 ?t) = bytes_at 12 4 junk"
    using t assms(2) by (simp add: restore_ipv4_form) (simp add: bytes_at_def)
  then show ?thesis
    using assms(1) t(2) by (simp add: extract_skops_to_tuple_reverse_def v4_skops_def Let_def)
qed

definition accepted :: bpf_sock_ops where
  "accepted = \<lparr>so_family = AF_INET, local_ip4 = [10, 0, 0, 1], local_ip6 = zero_ip, remote_ip4 = [10, 0, 0, 2],
     remote_ip6 = zero_ip, local_port = 8080, remote_port = 0x39300000\<rparr>"

lemma accepted_v4: "v4_skops accepted"
  by (simp add: v4_skops_def accepted_def)

theorem stale_ring_slot_corrupts_tuple_witness:
  "ipv4_saddr (extract_skops_to_tuple_reverse accepted
     (V4_MAPPED_TO_V6 [192, 168, 0, 9] @ V4_MAPPED_TO_V6 [10, 0, 0, 1] @ [0, 0, 0, 0])) = [192, 168, 0, 9]"
proof -
  let ?junk = "V4_MAPPED_TO_V6 [192, 168, 0, 9] @ V4_MAPPED_TO_V6 [10, 0, 0, 1] @ [0, 0, 0, 0]"
  have "length ?junk = 36" "is_ipv4_mapped_addr (ipv6_daddr ?junk)" "bytes_at 12 4 ?junk = [192, 168, 0, 9]"
    by (simp_all add: V4_MAPPED_TO_V6_def is_ipv4_mapped_addr_def bytes_at_def ip6_word_def)
  with stale_ring_slot_corrupts_tuple [OF accepted_v4, of ?junk] show ?thesis by simp
qed

text \<open>
  The verdict of a dual-stack connection outlives it.  User space stores the verdict of a
  connection between IPv4-mapped addresses under the IPv4 tuple, padded with zeros; when the
  connection closes, the program deletes a key that still has the IPv6 bytes in the padding.
\<close>

theorem mapped_verdict_not_cleaned:
  assumes "so_family k = AF_INET6" and "remote_ip6 k = V4_MAPPED_TO_V6 r" "local_ip6 k = V4_MAPPED_TO_V6 l"
    and "length r = 4" "length l = 4" "length t = 12" and "m (t @ replicate 24 0) = Some v"
  shows "clean_auth_map k m (t @ replicate 24 0) = Some v"
proof -
  let ?t = "put_ipv6 (remote_ip6 k) (local_ip6 k) (bpf_htons (GET_SKOPS_REMOTE_PORT k)) (GET_SKOPS_LOCAL_PORT k) zero_tuple"
  let ?e = "extract_skops_to_tuple_reverse k zero_tuple"
  have len: "length (remote_ip6 k) = 16" "length (local_ip6 k) = 16"
    using assms(2-5) by (simp_all add: V4_MAPPED_TO_V6_def)
  note f = put_ipv6_fields [OF _ len, of zero_tuple]
  have m: "is_ipv4_mapped_addr (ipv6_daddr ?t)"
    using f(2) assms(3) V4_MAPPED_roundtrip(1) [OF assms(5)] by simp
  have "?t ! 26 = ipv6_daddr ?t ! 10" using f(5) by (simp add: bytes_at_def)
  then have b: "?t ! 26 = 0xff" using f(2) assms(3) by (simp add: V4_MAPPED_TO_V6_def)
  have "?e = restore_ipv4 ?t"
    using assms(1) m by (simp add: extract_skops_to_tuple_reverse_def Let_def)
  then have "?e ! 26 = 0xff" using b f(5) by (simp add: restore_ipv4_form nth_append bytes_at_def)
  moreover have "(t @ replicate 24 0) ! 26 = 0" using assms(6) by (simp add: nth_append)
  ultimately have "?e \<noteq> t @ replicate 24 0" by auto
  then show ?thesis using assms(7) by (simp add: clean_auth_map_def)
qed

theorem mapped_verdict_not_cleaned_witness:
  "clean_auth_map (accepted\<lparr>so_family := AF_INET6, remote_ip6 := V4_MAPPED_TO_V6 [10, 0, 0, 2],
     local_ip6 := V4_MAPPED_TO_V6 [10, 0, 0, 1]\<rparr>) [replicate 12 1 @ replicate 24 0 \<mapsto> 1] (replicate 12 1 @ replicate 24 0) = Some 1"
  by (rule mapped_verdict_not_cleaned [of _ "[10, 0, 0, 2]" "[10, 0, 0, 1]"]) simp_all

end
