(* ===== verification/Xdp_Authz.thy ===== *)
theory Xdp_Authz
  imports Sock_Ops Data_Path
begin

text \<open>
  Authorization in the kernel (\<open>bpf/kmesh/workload/include/authz.h\<close>,
  \<open>bpf/kmesh/workload/xdp.c\<close>): the XDP programs parse a packet, look up the policies of the
  workload it is for, and evaluate them one tail call at a time.

  A policy lives in several maps, linked by keys that are stored where the structs have
  pointers; \<open>KMESH_GET_PTR_VAL\<close> follows one and may find nothing.  Here a pointer is the
  \<open>option\<close> of what it leads to, an array of pointers a list of options (past its end the map
  holds zeros, which lead to nothing), and the count of elements a separate field, as in the
  structs.  A number shifted by its width is undefined in C; the result is the argument \<open>ub\<close>.
\<close>

abbreviation (input) UNMATCHED :: nat where "UNMATCHED \<equiv> 0"
abbreviation (input) MATCHED :: nat where "MATCHED \<equiv> 1"
abbreviation (input) MAX_MEMBER_NUM_PER_POLICY :: nat where "MAX_MEMBER_NUM_PER_POLICY \<equiv> 4"

subsection \<open>Packets\<close>

text \<open>The offsets that \<open>parser_xdp_info\<close> computes; the header structs have 14, 20, 40 and 20 bytes.\<close>

record xdp_info =
  xi_ip :: nat
  xi_tcp :: nat

definition ip_version :: "bytes \<Rightarrow> nat \<Rightarrow> nat" where
  "ip_version pkt off = unat (drop_bit 4 (pkt ! off))"

definition parser_xdp_info :: "bytes \<Rightarrow> xdp_info option" where
  "parser_xdp_info pkt =
     (if 14 > length pkt then None
      else if 15 > length pkt then None
      else if ip_version pkt 14 = 4 then
        (if 34 > length pkt \<or> unat (pkt ! 23) \<noteq> IPPROTO_TCP then None
         else if 54 > length pkt then None else Some \<lparr>xi_ip = 14, xi_tcp = 34\<rparr>)
      else if ip_version pkt 14 = 6 then
        (if 54 > length pkt \<or> unat (pkt ! 20) \<noteq> IPPROTO_TCP then None
         else if 74 > length pkt then None else Some \<lparr>xi_ip = 14, xi_tcp = 54\<rparr>)
      else None)"

definition parser_tuple :: "bytes \<Rightarrow> xdp_info \<Rightarrow> bytes \<Rightarrow> bytes" where
  "parser_tuple pkt info tuple_info =
     (let sport = bpf_ntohs (le_get16 (bytes_at (xi_tcp info) 2 pkt));
          dport = bpf_ntohs (le_get16 (bytes_at (xi_tcp info + 2) 2 pkt))
      in if ip_version pkt (xi_ip info) = 4
         then put_ipv4 (bytes_at (xi_ip info + 12) 4 pkt) (bytes_at (xi_ip info + 16) 4 pkt) sport dport tuple_info
         else put_ipv6 (bytes_at (xi_ip info + 8) 16 pkt) (bytes_at (xi_ip info + 24) 16 pkt) sport dport tuple_info)"

definition construct_tuple_key :: "bytes \<Rightarrow> (bytes \<times> xdp_info) option" where
  "construct_tuple_key pkt =
     (case parser_xdp_info pkt of None \<Rightarrow> None | Some info \<Rightarrow> Some (parser_tuple pkt info zero_tuple, info))"

subsection \<open>Policies as the maps hold them\<close>

record c_Address =
  ca_len :: nat
  ca_data :: "bytes option"
  ca_length :: u32

record c_Match =
  n_source_ips :: nat
  c_source_ips :: "c_Address option list option"
  n_not_source_ips :: nat
  c_not_source_ips :: "c_Address option list option"
  n_destination_ips :: nat
  c_destination_ips :: "c_Address option list option"
  n_not_destination_ips :: nat
  c_not_destination_ips :: "c_Address option list option"
  n_destination_ports :: nat
  c_destination_ports :: "u32 list option"
  n_not_destination_ports :: nat
  c_not_destination_ports :: "u32 list option"
  n_namespaces :: nat
  n_not_namespaces :: nat
  n_principals :: nat
  n_not_principals :: nat

record c_Clause =
  n_matches :: nat
  c_matches :: "c_Match option list option"

record c_Rule =
  n_clauses :: nat
  c_clauses :: "c_Clause option list option"

record c_Authorization =
  c_name :: "string option"
  c_action :: nat
  n_rules :: nat
  c_rules :: "c_Rule option list option"

definition elem :: "'a option list \<Rightarrow> nat \<Rightarrow> 'a option" where
  "elem xs i = (if i < length xs then xs ! i else None)"

definition port_elem :: "u32 list \<Rightarrow> nat \<Rightarrow> u32" where
  "port_elem xs i = (if i < length xs then xs ! i else 0)"

text \<open>The same for the bytes of an address, which are read at fixed offsets.\<close>

definition data_at :: "bytes \<Rightarrow> nat \<Rightarrow> u8" where
  "data_at d i = (if i < length d then d ! i else 0)"

subsection \<open>Ports\<close>

text \<open>The unrolled loops: the first \<open>n\<close> indices, at most four.\<close>

definition members :: "nat \<Rightarrow> nat list" where
  "members n = [0..<min n MAX_MEMBER_NUM_PER_POLICY]"

definition match_dst_ports :: "c_Match \<Rightarrow> bool \<Rightarrow> bytes \<Rightarrow> nat" where
  "match_dst_ports m v4 tuple_info =
     (if n_destination_ports m = 0 \<and> n_not_destination_ports m = 0 then MATCHED
      else (let dport = (if v4 then ipv4_dport tuple_info else ipv6_dport tuple_info);
                hits = (\<lambda>ports n. list_ex (\<lambda>i. ucast (port_elem ports i) = dport) (members n));
                positive = (if n_destination_ports m = 0 then MATCHED
                            else case c_destination_ports m of
                                   None \<Rightarrow> UNMATCHED
                                 | Some ports \<Rightarrow> if hits ports (n_destination_ports m) then MATCHED else UNMATCHED)
            in if n_not_destination_ports m \<noteq> 0
               then (case c_not_destination_ports m of
                       None \<Rightarrow> UNMATCHED
                     | Some notPorts \<Rightarrow> if hits notPorts (n_not_destination_ports m) then UNMATCHED else positive)
               else positive))"

subsection \<open>Addresses\<close>

definition convert_ipv4_to_u32 :: "c_Address \<Rightarrow> bool \<Rightarrow> u32" where
  "convert_ipv4_to_u32 a is_ipv4_in_ipv6 =
     (if ca_len a \<noteq> 4 \<and> ca_len a \<noteq> 16 then 0
      else case ca_data a of
        None \<Rightarrow> 0
      | Some data \<Rightarrow> if is_ipv4_in_ipv6 then bpf_ntohl (map (data_at data) [12, 13, 14, 15]) else bpf_ntohl (map (data_at data) [0, 1, 2, 3]))"

text \<open>
  The conversion of an IPv6 address.  The four bytes of a group are all shifted by eight times
  the number of the group and or-ed together; an address is its four 32-bit groups.
\<close>

definition convert_ipv6_to_ip6addr :: "c_Address \<Rightarrow> u32 list option" where
  "convert_ipv6_to_ip6addr a =
     (if ca_len a \<noteq> 16 then None
      else case ca_data a of
        None \<Rightarrow> None
      | Some v6addr \<Rightarrow>
          Some (map (\<lambda>i. fold (\<lambda>j w. w OR push_bit (i * 8) (ucast (data_at v6addr (i * 4 + j)) :: u32)) [0..<4] 0) [0..<4]))"

definition ip6_words :: "bytes \<Rightarrow> u32 list" where
  "ip6_words b = map (\<lambda>i. le_get32 (bytes_at (4 * i) 4 b)) [0..<4]"

definition ip6_bytes :: "u32 list \<Rightarrow> bytes" where
  "ip6_bytes w = concat (map le_put32 w)"

definition bswap32 :: "u32 \<Rightarrow> u32" where
  "bswap32 w = le_get32 (be_put32 w)"

definition GET_PREFIX :: "int \<Rightarrow> u32" where
  "GET_PREFIX p = bswap32 (if p \<le> 0 then 0
     else if p < 32 then push_bit (32 - nat p) (push_bit (nat p) 1 - 1) else 0xFFFFFFFF)"

definition ipv6_addr_clear_suffix :: "u32 list \<Rightarrow> int \<Rightarrow> u32 list" where
  "ipv6_addr_clear_suffix ip6 p =
     [ip6 ! 0 AND GET_PREFIX p, ip6 ! 1 AND GET_PREFIX (p - 32), ip6 ! 2 AND GET_PREFIX (p - 64), ip6 ! 3 AND GET_PREFIX (p - 96)]"

text \<open>\<open>src\<close> says which address of the tuple is meant: \<open>TYPE_SRCIP\<close> or \<open>TYPE_DSTIP\<close>.\<close>

definition match_ipv4_rule :: "u32 \<Rightarrow> u32 \<Rightarrow> u32 \<Rightarrow> bytes \<Rightarrow> bool \<Rightarrow> nat" where
  "match_ipv4_rule ub ruleIp preFixLen tuple_info src =
     (let targetIP = (if src then ipv4_saddr tuple_info else ipv4_daddr tuple_info) in
      if preFixLen > 32 then UNMATCHED
      else (let mask = (if preFixLen = 0 then ub else push_bit (32 - unat preFixLen) 0xFFFFFFFF)
            in if ruleIp AND mask = bpf_ntohl targetIP AND mask then MATCHED else UNMATCHED))"

definition match_ipv6_rule :: "u32 list \<Rightarrow> u32 list \<Rightarrow> u32 \<Rightarrow> nat" where
  "match_ipv6_rule rule_addr target_addr prefixLen =
     (if prefixLen > 128 then UNMATCHED
      else if rule_addr = ipv6_addr_clear_suffix target_addr (int (unat prefixLen)) then MATCHED else UNMATCHED)"

definition match_ip_rule :: "u32 \<Rightarrow> c_Address \<Rightarrow> bytes \<Rightarrow> bool \<Rightarrow> nat" where
  "match_ip_rule ub a tuple_info src =
     (if ca_len a = 4 then match_ipv4_rule ub (convert_ipv4_to_u32 a False) (ca_length a) tuple_info src
      else if ca_len a = 16 then
        (case convert_ipv6_to_ip6addr a of
           None \<Rightarrow> UNMATCHED
         | Some rule_addr \<Rightarrow>
             if is_ipv4_mapped_addr (ip6_bytes rule_addr) then match_ipv4_rule ub (convert_ipv4_to_u32 a True) (ca_length a) tuple_info src
             else match_ipv6_rule rule_addr (ip6_words (if src then ipv6_saddr tuple_info else ipv6_daddr tuple_info)) (ca_length a))
      else UNMATCHED)"

text \<open>The loop over an address list: an entry that cannot be read is skipped.\<close>

definition ip_hits :: "u32 \<Rightarrow> c_Address option list \<Rightarrow> nat \<Rightarrow> bytes \<Rightarrow> bool \<Rightarrow> bool" where
  "ip_hits ub addrs n tuple_info src =
     list_ex (\<lambda>i. case elem addrs i of None \<Rightarrow> False | Some a \<Rightarrow> match_ip_rule ub a tuple_info src = MATCHED) (members n)"

definition match_ip_common :: "u32 \<Rightarrow> nat \<Rightarrow> c_Address option list option \<Rightarrow> nat \<Rightarrow> c_Address option list option \<Rightarrow> bytes \<Rightarrow> bool \<Rightarrow> nat" where
  "match_ip_common ub n_ips ip_list n_not_ips not_ip_list tuple_info src =
     (if n_ips = 0 \<and> n_not_ips = 0 then MATCHED
      else (let positive = (if n_ips \<noteq> 0
                            then (case ip_list of
                                    None \<Rightarrow> UNMATCHED
                                  | Some ips \<Rightarrow> if ip_hits ub ips n_ips tuple_info src then MATCHED else UNMATCHED)
                            else UNMATCHED)
            in if n_not_ips \<noteq> 0
               then (case not_ip_list of
                       None \<Rightarrow> UNMATCHED
                     | Some nips \<Rightarrow> if ip_hits ub nips n_not_ips tuple_info src then UNMATCHED else positive)
               else positive))"

definition match_src_ip :: "u32 \<Rightarrow> c_Match \<Rightarrow> bytes \<Rightarrow> nat" where
  "match_src_ip ub m tuple_info =
     match_ip_common ub (n_source_ips m) (c_source_ips m) (n_not_source_ips m) (c_not_source_ips m) tuple_info True"

definition match_dst_ip :: "u32 \<Rightarrow> c_Match \<Rightarrow> bytes \<Rightarrow> nat" where
  "match_dst_ip ub m tuple_info =
     match_ip_common ub (n_destination_ips m) (c_destination_ips m) (n_not_destination_ips m) (c_not_destination_ips m) tuple_info False"

definition match_IPs :: "u32 \<Rightarrow> c_Match \<Rightarrow> bytes \<Rightarrow> bool" where
  "match_IPs ub m tuple_info \<longleftrightarrow> match_src_ip ub m tuple_info \<noteq> 0 \<and> match_dst_ip ub m tuple_info \<noteq> 0"

definition match_check :: "u32 \<Rightarrow> c_Match \<Rightarrow> bool \<Rightarrow> bytes \<Rightarrow> nat" where
  "match_check ub m v4 tuple_info =
     (if match_dst_ports m v4 tuple_info \<noteq> 0 \<and> match_IPs ub m tuple_info then MATCHED else UNMATCHED)"

definition need_tail_call_to_user :: "c_Match \<Rightarrow> bool" where
  "need_tail_call_to_user m \<longleftrightarrow> n_namespaces m \<noteq> 0 \<or> n_not_namespaces m \<noteq> 0 \<or> n_principals m \<noteq> 0 \<or> n_not_principals m \<noteq> 0"

subsection \<open>Clauses and rules\<close>

text \<open>
  The check of a clause may set the flag \<open>need_tailcall_to_userspace\<close> of the context, which is
  threaded through the loops.
\<close>

fun clause_loop :: "u32 \<Rightarrow> c_Match option list \<Rightarrow> bool \<Rightarrow> bytes \<Rightarrow> nat list \<Rightarrow> bool \<Rightarrow> nat \<times> bool" where
  "clause_loop ub ms v4 tuple_info [] need = (UNMATCHED, need)"
| "clause_loop ub ms v4 tuple_info (i # is) need =
     (case elem ms i of
        None \<Rightarrow> clause_loop ub ms v4 tuple_info is need
      | Some m \<Rightarrow>
          if match_check ub m v4 tuple_info = MATCHED then (MATCHED, need)
          else clause_loop ub ms v4 tuple_info is (if need_tail_call_to_user m then True else need))"

definition clause_match_check :: "u32 \<Rightarrow> c_Clause \<Rightarrow> bool \<Rightarrow> bytes \<Rightarrow> bool \<Rightarrow> nat \<times> bool" where
  "clause_match_check ub cl v4 tuple_info need =
     (if n_matches cl = 0 then (UNMATCHED, need)
      else case c_matches cl of
        None \<Rightarrow> (MATCHED, need)
      | Some ms \<Rightarrow> clause_loop ub ms v4 tuple_info (members (n_matches cl)) need)"

fun rule_loop :: "u32 \<Rightarrow> c_Clause option list \<Rightarrow> bool \<Rightarrow> bytes \<Rightarrow> nat list \<Rightarrow> bool \<Rightarrow> nat \<times> bool" where
  "rule_loop ub cls v4 tuple_info [] need = (MATCHED, need)"
| "rule_loop ub cls v4 tuple_info (i # is) need =
     (case elem cls i of
        None \<Rightarrow> rule_loop ub cls v4 tuple_info is need
      | Some cl \<Rightarrow>
          (case clause_match_check ub cl v4 tuple_info need of (r, need1) \<Rightarrow>
             if r = UNMATCHED then (UNMATCHED, need1) else rule_loop ub cls v4 tuple_info is need1))"

definition rule_match_check :: "u32 \<Rightarrow> c_Rule \<Rightarrow> bool \<Rightarrow> bytes \<Rightarrow> bool \<Rightarrow> nat \<times> bool" where
  "rule_match_check ub rule v4 tuple_info need =
     (if n_clauses rule = 0 then (MATCHED, need)
      else case c_clauses rule of
        None \<Rightarrow> (UNMATCHED, need)
      | Some cls \<Rightarrow> rule_loop ub cls v4 tuple_info (members (n_clauses rule)) need)"

fun policy_loop :: "u32 \<Rightarrow> c_Rule option list \<Rightarrow> bool \<Rightarrow> bytes \<Rightarrow> nat list \<Rightarrow> bool \<Rightarrow> bool \<times> bool" where
  "policy_loop ub rules v4 tuple_info [] need = (False, need)"
| "policy_loop ub rules v4 tuple_info (i # is) need =
     (case elem rules i of
        None \<Rightarrow> policy_loop ub rules v4 tuple_info is need
      | Some rule \<Rightarrow>
          (case rule_match_check ub rule v4 tuple_info need of (r, need1) \<Rightarrow>
             if r = MATCHED then (True, need1) else policy_loop ub rules v4 tuple_info is need1))"

subsection \<open>The programs\<close>

datatype xdp_action = XDP_DROP | XDP_PASS

datatype xdp_prog = TAIL_CALL_POLICIES_CHECK | TAIL_CALL_POLICY_CHECK | TAIL_CALL_AUTH_IN_USER_SPACE

text \<open>Every \<open>bpf_tail_call\<close> is followed by \<open>return XDP_PASS\<close>, for when the call fails.\<close>

datatype xdp_result = Return xdp_action | Tail_call xdp_prog

record match_context =
  mc_action :: nat
  mc_policy_name :: "string option"
  mc_policy_index :: u8
  need_tailcall_to_userspace :: bool
  mc_n_rules :: u8
  mc_auth_result :: xdp_action
  mc_policies :: "u32 list option"
  mc_rulesPtr :: "c_Rule option list option"

text \<open>
  What the programs read: the maps of the workload mode, the policies, the memory behind the
  four policy numbers of a workload (which a read may fail to reach), the loaded tail-call
  slots, and whether the kernel accepts the updates of the two maps the programs write.
\<close>

record xdp_env =
  xe_view :: kview
  xe_authz :: "u32 \<rightharpoonup> c_Authorization"
  xe_past_end :: "nat \<Rightarrow> u32 option"
  xe_ub :: u32
  xe_loaded :: "xdp_prog \<Rightarrow> bool"
  xe_tc_ok :: "bytes \<Rightarrow> match_context \<Rightarrow> bool"
  xe_result_ok :: bool
  authz_offload :: u32

record xdp_state =
  xs_pkt :: bytes
  xs_auth :: auth_result_map
  xs_tc_args :: "bytes \<rightharpoonup> match_context"

abbreviation (input) ACTION_ALLOW :: nat where "ACTION_ALLOW \<equiv> 0"
abbreviation (input) ACTION_DENY :: nat where "ACTION_DENY \<equiv> 1"

definition read_policy_id :: "xdp_env \<Rightarrow> u32 list \<Rightarrow> nat \<Rightarrow> u32 option" where
  "read_policy_id e policyIds i = (if i < length policyIds then Some (policyIds ! i) else xe_past_end e i)"

definition map_lookup_authz :: "xdp_env \<Rightarrow> u32 \<Rightarrow> c_Authorization option" where
  "map_lookup_authz e policyKey = xe_authz e policyKey"

definition get_workload_policies_by_uid :: "xdp_env \<Rightarrow> u32 \<Rightarrow> u32 list option" where
  "get_workload_policies_by_uid e workload_uid = v_wlpolicy (xe_view e) workload_uid"

text \<open>The context is written in place, so the writes stay even where the program returns early.\<close>

definition policies_check :: "xdp_env \<Rightarrow> xdp_state \<Rightarrow> xdp_result \<times> xdp_state" where
  "policies_check e s =
     (case construct_tuple_key (xs_pkt s) of
        None \<Rightarrow> (Return XDP_PASS, s)
      | Some (tuple_key, info) \<Rightarrow>
        (case xs_tc_args s tuple_key of
           None \<Rightarrow> (Return XDP_PASS, s)
         | Some match_ctx \<Rightarrow>
           (case mc_policies match_ctx of
              None \<Rightarrow> (Return XDP_PASS, s)
            | Some policies \<Rightarrow>
              (case read_policy_id e policies (unat (mc_policy_index match_ctx)) of
                 None \<Rightarrow> (Return XDP_PASS, s)
               | Some policyId \<Rightarrow>
                 (case map_lookup_authz e policyId of
                    None \<Rightarrow>
                      if need_tailcall_to_userspace match_ctx then (Tail_call TAIL_CALL_AUTH_IN_USER_SPACE, s)
                      else (Return (mc_auth_result match_ctx), s)
                  | Some policy \<Rightarrow>
                    (case c_rules policy of
                       None \<Rightarrow> (Return XDP_PASS, s)
                     | Some rulesPtr \<Rightarrow>
                         let ctx1 = match_ctx\<lparr>mc_rulesPtr := Some rulesPtr, mc_n_rules := of_nat (n_rules policy),
                               mc_action := c_action policy\<rparr>
                         in case c_name policy of
                              None \<Rightarrow> (Return XDP_PASS, s\<lparr>xs_tc_args := (xs_tc_args s)(tuple_key \<mapsto> ctx1)\<rparr>)
                            | Some policy_name \<Rightarrow>
                                let ctx2 = ctx1\<lparr>mc_policy_name := Some policy_name\<rparr>;
                                    s1 = s\<lparr>xs_tc_args := (xs_tc_args s)(tuple_key \<mapsto> ctx2)\<rparr>
                                in if \<not> xe_tc_ok e tuple_key ctx2 then (Return XDP_PASS, s1)
                                   else (Tail_call TAIL_CALL_POLICY_CHECK, s1)))))))"

definition policy_check :: "xdp_env \<Rightarrow> xdp_state \<Rightarrow> xdp_result \<times> xdp_state" where
  "policy_check e s =
     (case construct_tuple_key (xs_pkt s) of
        None \<Rightarrow> (Return XDP_PASS, s)
      | Some (tuple_key, info) \<Rightarrow>
        (case xs_tc_args s tuple_key of
           None \<Rightarrow> (Return XDP_PASS, s)
         | Some match_ctx \<Rightarrow>
           if mc_n_rules match_ctx \<noteq> 0 \<and> mc_rulesPtr match_ctx = None then (Return XDP_PASS, s)
           else (let v4 = (ip_version (xs_pkt s) (xi_ip info) = 4);
                     rules = (case mc_rulesPtr match_ctx of None \<Rightarrow> [] | Some r \<Rightarrow> r);
                     (matched, need) = policy_loop (xe_ub e) rules v4 tuple_key (members (unat (mc_n_rules match_ctx)))
                                         (need_tailcall_to_userspace match_ctx);
                     deny = (mc_action match_ctx = ACTION_DENY)
                 in if matched
                    then (Return (if deny then XDP_DROP else XDP_PASS),
                          s\<lparr>xs_tc_args := (xs_tc_args s)(tuple_key := None),
                            xs_auth := (if xe_result_ok e then (xs_auth s)(tuple_key \<mapsto> (if deny then 1 else 0)) else xs_auth s)\<rparr>)
                    else (let ctx1 = match_ctx\<lparr>need_tailcall_to_userspace := need,
                                mc_auth_result := (if mc_auth_result match_ctx = XDP_PASS
                                                   then (if deny then XDP_PASS else XDP_DROP) else mc_auth_result match_ctx),
                                mc_policy_index := mc_policy_index match_ctx + 1\<rparr>;
                              s1 = s\<lparr>xs_tc_args := (xs_tc_args s)(tuple_key \<mapsto> ctx1)\<rparr>
                          in if \<not> xe_tc_ok e tuple_key ctx1 then (Return XDP_PASS, s1)
                             else (Tail_call TAIL_CALL_POLICIES_CHECK, s1)))))"


text \<open>The flag byte of the TCP header: FIN, SYN, RST, PSH and ACK are its bits 0 to 4.\<close>

definition shutdown_tuple :: "xdp_info \<Rightarrow> bytes \<Rightarrow> bytes" where
  "shutdown_tuple info pkt =
     (let flags = pkt ! (xi_tcp info + 13)
      in pkt[xi_tcp info + 13 := set_bit 2 (unset_bit 4 (unset_bit 3 (unset_bit 1 (unset_bit 0 flags))))])"

definition should_shutdown :: "bytes \<Rightarrow> xdp_state \<Rightarrow> bool \<times> xdp_state" where
  "should_shutdown tuple_info s =
     (if xs_auth s tuple_info = Some 1 then (True, s\<lparr>xs_auth := (xs_auth s)(tuple_info := None)\<rparr>) else (False, s))"

definition xdp_shutdown_in_userspace :: "xdp_state \<Rightarrow> xdp_result \<times> xdp_state" where
  "xdp_shutdown_in_userspace s =
     (case parser_xdp_info (xs_pkt s) of
        None \<Rightarrow> (Return XDP_PASS, s)
      | Some info \<Rightarrow>
          if ip_version (xs_pkt s) (xi_ip info) \<noteq> 4 \<and> ip_version (xs_pkt s) (xi_ip info) \<noteq> 6 then (Return XDP_PASS, s)
          else (case should_shutdown (parser_tuple (xs_pkt s) info zero_tuple) s of (forbid, s1) \<Rightarrow>
                  (Return XDP_PASS, if forbid then s1\<lparr>xs_pkt := shutdown_tuple info (xs_pkt s1)\<rparr> else s1)))"

definition get_workload_policies :: "xdp_env \<Rightarrow> bool \<Rightarrow> bytes \<Rightarrow> u32 list option" where
  "get_workload_policies e v4 tuple_info =
     (let frontend_k = (if v4 then set_ip4 (ipv4_daddr tuple_info) zero_ip
                        else if is_ipv4_mapped_addr (ipv6_daddr tuple_info)
                        then set_ip4 (ip6_word (ipv6_daddr tuple_info) 3) zero_ip
                        else ipv6_daddr tuple_info)
      in case map_lookup_frontend (xe_view e) frontend_k of
           None \<Rightarrow> None
         | Some workload_uid \<Rightarrow> get_workload_policies_by_uid e workload_uid)"

definition first_context :: "u32 list \<Rightarrow> match_context" where
  "first_context policies = \<lparr>mc_action = 0, mc_policy_name = None, mc_policy_index = 0, need_tailcall_to_userspace = False,
     mc_n_rules = 0, mc_auth_result = XDP_PASS, mc_policies = Some policies, mc_rulesPtr = None\<rparr>"

definition xdp_authz :: "xdp_env \<Rightarrow> xdp_state \<Rightarrow> xdp_result \<times> xdp_state" where
  "xdp_authz e s =
     (if authz_offload e \<noteq> 1 then (Tail_call TAIL_CALL_AUTH_IN_USER_SPACE, s)
      else case parser_xdp_info (xs_pkt s) of
        None \<Rightarrow> (Return XDP_PASS, s)
      | Some info \<Rightarrow>
          if ip_version (xs_pkt s) (xi_ip info) \<noteq> 4 \<and> ip_version (xs_pkt s) (xi_ip info) \<noteq> 6 then (Return XDP_PASS, s)
          else (let tuple_key = parser_tuple (xs_pkt s) info zero_tuple in
            case xs_auth s tuple_key of
              Some value \<Rightarrow> (Return (if value \<noteq> 0 then XDP_DROP else XDP_PASS), s)
            | None \<Rightarrow>
               (case get_workload_policies e (ip_version (xs_pkt s) (xi_ip info) = 4) tuple_key of
                  None \<Rightarrow> (Return XDP_PASS, s)
                | Some policies \<Rightarrow>
                    if \<not> xe_tc_ok e tuple_key (first_context policies) then (Return XDP_PASS, s)
                    else (Tail_call TAIL_CALL_POLICIES_CHECK,
                          s\<lparr>xs_tc_args := (xs_tc_args s)(tuple_key \<mapsto> first_context policies)\<rparr>))))"

text \<open>
  The kernel runs the program of the slot in place of the caller, unless the slot is empty or 33
  calls have been made for this packet (\<open>MAX_TAIL_CALL_CNT\<close>).
\<close>

abbreviation (input) MAX_TAIL_CALL_CNT :: nat where "MAX_TAIL_CALL_CNT \<equiv> 33"

definition run_prog :: "xdp_env \<Rightarrow> xdp_prog \<Rightarrow> xdp_state \<Rightarrow> xdp_result \<times> xdp_state" where
  "run_prog e p s = (case p of
     TAIL_CALL_POLICIES_CHECK \<Rightarrow> policies_check e s
   | TAIL_CALL_POLICY_CHECK \<Rightarrow> policy_check e s
   | TAIL_CALL_AUTH_IN_USER_SPACE \<Rightarrow> xdp_shutdown_in_userspace s)"

fun tail_calls :: "xdp_env \<Rightarrow> nat \<Rightarrow> xdp_result \<times> xdp_state \<Rightarrow> xdp_action \<times> xdp_state" where
  "tail_calls e n (Return a, s) = (a, s)"
| "tail_calls e 0 (Tail_call p, s) = (XDP_PASS, s)"
| "tail_calls e (Suc n) (Tail_call p, s) =
     (if xe_loaded e p then tail_calls e n (run_prog e p s) else (XDP_PASS, s))"

definition xdp_packet :: "xdp_env \<Rightarrow> xdp_state \<Rightarrow> xdp_action \<times> xdp_state" where
  "xdp_packet e s = tail_calls e MAX_TAIL_CALL_CNT (xdp_authz e s)"


subsection \<open>The chain of tail calls\<close>

text \<open>The flag only grows, and does not influence what matches.\<close>

lemma clause_loop_flag:
  "clause_loop ub ms v4 t is need = (fst (clause_loop ub ms v4 t is False), need \<or> snd (clause_loop ub ms v4 t is False))"
proof (induction "is" arbitrary: need)
  case (Cons i "is")
  show ?case using Cons.IH [of True] Cons.IH [of need] by (auto split: option.split)
qed simp

lemma clause_flag:
  "clause_match_check ub cl v4 t need =
     (fst (clause_match_check ub cl v4 t False), need \<or> snd (clause_match_check ub cl v4 t False))"
  using clause_loop_flag [of ub _ v4 t _ need] by (simp add: clause_match_check_def split: option.split)

lemma rule_loop_flag:
  "rule_loop ub cls v4 t is need = (fst (rule_loop ub cls v4 t is False), need \<or> snd (rule_loop ub cls v4 t is False))"
proof (induction "is" arbitrary: need)
  case (Cons i "is")
  show ?case
  proof (cases "elem cls i")
    case (Some cl)
    obtain r f where c: "clause_match_check ub cl v4 t False = (r, f)" by fastforce
    then have "clause_match_check ub cl v4 t need = (r, need \<or> f)" using clause_flag [of ub cl v4 t need] by simp
    then show ?thesis using Some c Cons.IH [of "need \<or> f"] Cons.IH [of f] by simp
  qed (use Cons.IH [of need] in simp)
qed simp

lemma rule_flag:
  "rule_match_check ub r v4 t need =
     (fst (rule_match_check ub r v4 t False), need \<or> snd (rule_match_check ub r v4 t False))"
  using rule_loop_flag [of ub _ v4 t _ need] by (simp add: rule_match_check_def split: option.split)

lemma policy_loop_flag:
  "policy_loop ub rs v4 t is need = (fst (policy_loop ub rs v4 t is False), need \<or> snd (policy_loop ub rs v4 t is False))"
proof (induction "is" arbitrary: need)
  case (Cons i "is")
  show ?case
  proof (cases "elem rs i")
    case (Some rl)
    obtain r f where c: "rule_match_check ub rl v4 t False = (r, f)" by fastforce
    then have "rule_match_check ub rl v4 t need = (r, need \<or> f)" using rule_flag [of ub rl v4 t need] by simp
    then show ?thesis using Some c Cons.IH [of "need \<or> f"] Cons.IH [of f] by simp
  qed (use Cons.IH [of need] in simp)
qed simp

text \<open>What the kernel makes of one policy: whether it matches, and whether it asks user space.\<close>

definition policy_result :: "xdp_env \<Rightarrow> bool \<Rightarrow> bytes \<Rightarrow> c_Authorization \<Rightarrow> bool \<times> bool" where
  "policy_result e v4 t p =
     policy_loop (xe_ub e) (case c_rules p of None \<Rightarrow> [] | Some r \<Rightarrow> r) v4 t (members (unat (of_nat (n_rules p) :: u8))) False"

abbreviation policy_hits :: "xdp_env \<Rightarrow> bool \<Rightarrow> bytes \<Rightarrow> c_Authorization \<Rightarrow> bool" where
  "policy_hits e v4 t p \<equiv> fst (policy_result e v4 t p)"

abbreviation policy_asks :: "xdp_env \<Rightarrow> bool \<Rightarrow> bytes \<Rightarrow> c_Authorization \<Rightarrow> bool" where
  "policy_asks e v4 t p \<equiv> snd (policy_result e v4 t p)"

text \<open>The policies that the numbers of a workload lead to, from the \<open>i\<close>-th on, up to a number without a policy.\<close>

fun linked :: "xdp_env \<Rightarrow> u32 list \<Rightarrow> nat \<Rightarrow> c_Authorization list \<Rightarrow> bool" where
  "linked e ids i [] = (case read_policy_id e ids i of None \<Rightarrow> False | Some k \<Rightarrow> map_lookup_authz e k = None)"
| "linked e ids i (p # ps) =
     ((case read_policy_id e ids i of None \<Rightarrow> False | Some k \<Rightarrow> map_lookup_authz e k = Some p) \<and>
      c_rules p \<noteq> None \<and> c_name p \<noteq> None \<and> linked e ids (Suc i) ps)"

definition kernel_ready :: "xdp_env \<Rightarrow> bool" where
  "kernel_ready e \<longleftrightarrow> (\<forall>p. xe_loaded e p) \<and> (\<forall>t c. xe_tc_ok e t c) \<and> xe_result_ok e"

fun judge :: "xdp_env \<Rightarrow> bool \<Rightarrow> bytes \<Rightarrow> c_Authorization list \<Rightarrow> bool \<Rightarrow> xdp_action \<Rightarrow> xdp_action" where
  "judge e v4 t [] need acc = (if need then XDP_PASS else acc)"
| "judge e v4 t (p # ps) need acc =
     (if policy_hits e v4 t p then (if c_action p = ACTION_DENY then XDP_DROP else XDP_PASS)
      else judge e v4 t ps (need \<or> policy_asks e v4 t p)
             (if acc = XDP_PASS then (if c_action p = ACTION_DENY then XDP_PASS else XDP_DROP) else acc))"

definition recorded :: "xdp_env \<Rightarrow> bool \<Rightarrow> bytes \<Rightarrow> c_Authorization list \<Rightarrow> u32 option" where
  "recorded e v4 t ps = map_option (\<lambda>p. if c_action p = ACTION_DENY then 1 else 0) (find (policy_hits e v4 t) ps)"

lemma judge_closed:
  "judge e v4 t ps need acc =
     (case find (policy_hits e v4 t) ps of
        Some p \<Rightarrow> if c_action p = ACTION_DENY then XDP_DROP else XDP_PASS
      | None \<Rightarrow> if need \<or> (\<exists>p \<in> set ps. policy_asks e v4 t p) then XDP_PASS
                else if acc = XDP_DROP \<or> (\<exists>p \<in> set ps. c_action p \<noteq> ACTION_DENY) then XDP_DROP else XDP_PASS)"
proof (induction ps arbitrary: need acc)
  case Nil
  show ?case by (cases acc) simp_all
next
  case (Cons p ps)
  show ?case by (cases acc) (auto simp: Cons.IH split: option.split)
qed


text \<open>One round of the chain: \<open>policies_check\<close> and \<open>policy_check\<close> for the policy at the index of the context.\<close>

lemma policies_check_step:
  assumes "construct_tuple_key (xs_pkt s) = Some (t, info)" and "xs_tc_args s t = Some c" and "mc_policies c = Some ids"
    and "read_policy_id e ids (unat (mc_policy_index c)) = Some k" and "map_lookup_authz e k = Some p"
    and "c_rules p = Some rules" and "c_name p = Some nm" and "kernel_ready e"
  shows "policies_check e s = (Tail_call TAIL_CALL_POLICY_CHECK, s\<lparr>xs_tc_args := (xs_tc_args s)(t \<mapsto>
    c\<lparr>mc_rulesPtr := Some rules, mc_n_rules := of_nat (n_rules p), mc_action := c_action p, mc_policy_name := Some nm\<rparr>)\<rparr>)"
  using assms by (simp add: policies_check_def kernel_ready_def Let_def)

lemma policies_check_end:
  assumes "construct_tuple_key (xs_pkt s) = Some (t, info)" and "xs_tc_args s t = Some c" and "mc_policies c = Some ids"
    and "read_policy_id e ids (unat (mc_policy_index c)) = Some k" and "map_lookup_authz e k = None"
  shows "policies_check e s =
    (if need_tailcall_to_userspace c then Tail_call TAIL_CALL_AUTH_IN_USER_SPACE else Return (mc_auth_result c), s)"
  using assms by (simp add: policies_check_def)

lemma policy_check_step:
  assumes "construct_tuple_key (xs_pkt s) = Some (t, info)" and "v4 = (ip_version (xs_pkt s) (xi_ip info) = 4)"
    and "xs_tc_args s t = Some c" and "mc_rulesPtr c = c_rules p" "c_rules p \<noteq> None" and "mc_n_rules c = of_nat (n_rules p)"
    and "mc_action c = c_action p" and "kernel_ready e"
  shows "policy_hits e v4 t p \<Longrightarrow> policy_check e s =
      (Return (if c_action p = ACTION_DENY then XDP_DROP else XDP_PASS),
       s\<lparr>xs_tc_args := (xs_tc_args s)(t := None), xs_auth := (xs_auth s)(t \<mapsto> (if c_action p = ACTION_DENY then 1 else 0))\<rparr>)"
    and "\<not> policy_hits e v4 t p \<Longrightarrow> policy_check e s = (Tail_call TAIL_CALL_POLICIES_CHECK,
       s\<lparr>xs_tc_args := (xs_tc_args s)(t \<mapsto> c\<lparr>need_tailcall_to_userspace := need_tailcall_to_userspace c \<or> policy_asks e v4 t p,
         mc_auth_result := (if mc_auth_result c = XDP_PASS then (if c_action p = ACTION_DENY then XDP_PASS else XDP_DROP)
                            else mc_auth_result c),
         mc_policy_index := mc_policy_index c + 1\<rparr>)\<rparr>)"
proof -
  obtain rules where r: "c_rules p = Some rules" using assms(5) by blast
  have l: "policy_loop (xe_ub e) rules v4 t (members (unat (mc_n_rules c))) (need_tailcall_to_userspace c) =
      (policy_hits e v4 t p, need_tailcall_to_userspace c \<or> policy_asks e v4 t p)"
    using policy_loop_flag [of "xe_ub e" rules v4 t "members (unat (mc_n_rules c))" "need_tailcall_to_userspace c"]
    by (simp add: policy_result_def r assms(6))
  show "policy_hits e v4 t p \<Longrightarrow> policy_check e s =
      (Return (if c_action p = ACTION_DENY then XDP_DROP else XDP_PASS),
       s\<lparr>xs_tc_args := (xs_tc_args s)(t := None), xs_auth := (xs_auth s)(t \<mapsto> (if c_action p = ACTION_DENY then 1 else 0))\<rparr>)"
    using assms(1-4,7,8) l r by (simp add: policy_check_def kernel_ready_def Let_def)
  show "\<not> policy_hits e v4 t p \<Longrightarrow> policy_check e s = (Tail_call TAIL_CALL_POLICIES_CHECK,
       s\<lparr>xs_tc_args := (xs_tc_args s)(t \<mapsto> c\<lparr>need_tailcall_to_userspace := need_tailcall_to_userspace c \<or> policy_asks e v4 t p,
         mc_auth_result := (if mc_auth_result c = XDP_PASS then (if c_action p = ACTION_DENY then XDP_PASS else XDP_DROP)
                            else mc_auth_result c),
         mc_policy_index := mc_policy_index c + 1\<rparr>)\<rparr>)"
    using assms(1-4,7,8) l r by (simp add: policy_check_def kernel_ready_def Let_def)
qed

lemma construct_tuple_keyD:
  assumes "construct_tuple_key pkt = Some (t, info)"
  shows "parser_xdp_info pkt = Some info" and "t = parser_tuple pkt info zero_tuple"
    and "ip_version pkt (xi_ip info) = 4 \<or> ip_version pkt (xi_ip info) = 6"
  using assms by (auto simp: construct_tuple_key_def parser_xdp_info_def split: option.splits if_splits)

lemma user_space_keeps:
  assumes "construct_tuple_key (xs_pkt s) = Some (t, info)" and "xs_auth s t \<noteq> Some 1"
  shows "xdp_shutdown_in_userspace s = (Return XDP_PASS, s)"
  using construct_tuple_keyD [OF assms(1)] assms(2) by (simp add: xdp_shutdown_in_userspace_def should_shutdown_def)

definition next_context :: "xdp_env \<Rightarrow> bool \<Rightarrow> bytes \<Rightarrow> c_Authorization \<Rightarrow> match_context \<Rightarrow> match_context" where
  "next_context e v4 t p c =
     c\<lparr>mc_rulesPtr := c_rules p, mc_n_rules := of_nat (n_rules p), mc_action := c_action p, mc_policy_name := c_name p,
       need_tailcall_to_userspace := need_tailcall_to_userspace c \<or> policy_asks e v4 t p,
       mc_auth_result := (if mc_auth_result c = XDP_PASS then (if c_action p = ACTION_DENY then XDP_PASS else XDP_DROP)
                          else mc_auth_result c),
       mc_policy_index := mc_policy_index c + 1\<rparr>"

lemma chain_round:
  assumes "construct_tuple_key (xs_pkt s) = Some (t, info)" and "v4 = (ip_version (xs_pkt s) (xi_ip info) = 4)"
    and "kernel_ready e" and "xs_tc_args s t = Some c" and "mc_policies c = Some ids"
    and "linked e ids (unat (mc_policy_index c)) (p # ps)"
  shows "tail_calls e (Suc (Suc m)) (policies_check e s) =
    (if policy_hits e v4 t p
     then (if c_action p = ACTION_DENY then XDP_DROP else XDP_PASS,
           s\<lparr>xs_tc_args := (xs_tc_args s)(t := None), xs_auth := (xs_auth s)(t \<mapsto> (if c_action p = ACTION_DENY then 1 else 0))\<rparr>)
     else tail_calls e m (policies_check e (s\<lparr>xs_tc_args := (xs_tc_args s)(t \<mapsto> next_context e v4 t p c)\<rparr>)))"
proof -
  obtain k where k: "read_policy_id e ids (unat (mc_policy_index c)) = Some k" "map_lookup_authz e k = Some p"
    using assms(6) by (auto split: option.splits)
  obtain rules nm where rn: "c_rules p = Some rules" "c_name p = Some nm" using assms(6) by auto
  define c1 where "c1 = c\<lparr>mc_rulesPtr := Some rules, mc_n_rules := of_nat (n_rules p), mc_action := c_action p,
    mc_policy_name := Some nm\<rparr>"
  define s1 where "s1 = s\<lparr>xs_tc_args := (xs_tc_args s)(t \<mapsto> c1)\<rparr>"
  have st1: "policies_check e s = (Tail_call TAIL_CALL_POLICY_CHECK, s1)"
    using policies_check_step [OF assms(1,4,5) k rn assms(3)] by (simp add: s1_def c1_def)
  have s1: "construct_tuple_key (xs_pkt s1) = Some (t, info)" "v4 = (ip_version (xs_pkt s1) (xi_ip info) = 4)"
    "xs_tc_args s1 t = Some c1" "mc_rulesPtr c1 = c_rules p" "c_rules p \<noteq> None" "mc_n_rules c1 = of_nat (n_rules p)"
    "mc_action c1 = c_action p"
    using assms(1,2) rn by (simp_all add: s1_def c1_def)
  have loaded: "xe_loaded e q" for q using assms(3) by (simp add: kernel_ready_def)
  show ?thesis
  proof (cases "policy_hits e v4 t p")
    case True
    then show ?thesis
      using policy_check_step(1) [OF s1 assms(3)] loaded by (simp add: st1 run_prog_def) (simp add: s1_def)
  next
    case False
    then show ?thesis
      using policy_check_step(2) [OF s1 assms(3)] loaded
      by (simp add: st1 run_prog_def) (simp add: s1_def c1_def next_context_def rn)
  qed
qed

lemma chain_judges:
  assumes "construct_tuple_key (xs_pkt s) = Some (t, info)" and "v4 = (ip_version (xs_pkt s) (xi_ip info) = 4)"
    and "kernel_ready e" and "xs_auth s t = None" and "xs_tc_args s t = Some c" and "mc_policies c = Some ids"
    and "linked e ids (unat (mc_policy_index c)) ps" and "unat (mc_policy_index c) + length ps < 256"
    and "n \<ge> 2 * length ps + 1" and "tail_calls e n (policies_check e s) = (a, s')"
  shows "a = judge e v4 t ps (need_tailcall_to_userspace c) (mc_auth_result c) \<and>
       xs_auth s' = (xs_auth s)(t := recorded e v4 t ps) \<and>
       (xs_tc_args s' t = None \<longleftrightarrow> recorded e v4 t ps \<noteq> None)"
  using assms
proof (induction ps arbitrary: s c n)
  case Nil
  obtain k where k: "read_policy_id e ids (unat (mc_policy_index c)) = Some k" "map_lookup_authz e k = None"
    using Nil.prems(7) by (auto split: option.splits)
  obtain m where n: "n = Suc m" using Nil.prems(9) by (cases n) auto
  have u: "(xs_auth s)(t := None) = xs_auth s" using Nil.prems(4) by auto
  show ?case
    using policies_check_end [OF Nil.prems(1,5,6) k] user_space_keeps [OF Nil.prems(1)] Nil.prems(3-5,10) u n
    by (auto simp: run_prog_def kernel_ready_def recorded_def split: if_splits)
next
  case (Cons p ps)
  obtain m where n: "n = Suc (Suc m)" and m: "m \<ge> 2 * length ps + 1" using Cons.prems(9) by (cases n; cases "n - 1") auto
  note round = chain_round [OF Cons.prems(1,2,3,5,6,7), of m, folded n]
  show ?case
  proof (cases "policy_hits e v4 t p")
    case True
    then show ?thesis using round Cons.prems(10) by (auto simp: recorded_def fun_eq_iff)
  next
    case False
    let ?c = "next_context e v4 t p c" and ?s = "s\<lparr>xs_tc_args := (xs_tc_args s)(t \<mapsto> next_context e v4 t p c)\<rparr>"
    have i: "unat (mc_policy_index ?c) = Suc (unat (mc_policy_index c))"
      using Cons.prems(8) by (simp add: next_context_def unat_word_ariths)
    have "a = judge e v4 t ps (need_tailcall_to_userspace ?c) (mc_auth_result ?c) \<and>
       xs_auth s' = (xs_auth ?s)(t := recorded e v4 t ps) \<and> (xs_tc_args s' t = None \<longleftrightarrow> recorded e v4 t ps \<noteq> None)"
    proof (rule Cons.IH)
      show "mc_policies ?c = Some ids" using Cons.prems(6) by (simp add: next_context_def)
      show "linked e ids (unat (mc_policy_index ?c)) ps" using Cons.prems(7) by (simp add: i)
      show "unat (mc_policy_index ?c) + length ps < 256" using Cons.prems(8) by (simp add: i)
    qed (use Cons.prems m round False in simp_all)
    then show ?thesis using False by (simp add: recorded_def next_context_def)
  qed
qed


lemma xdp_authz_starts:
  assumes "authz_offload e = 1" and "construct_tuple_key (xs_pkt s) = Some (t, info)"
    and "v4 = (ip_version (xs_pkt s) (xi_ip info) = 4)" and "xs_auth s t = None"
    and "get_workload_policies e v4 t = Some ids" and "xe_tc_ok e t (first_context ids)"
  shows "xdp_authz e s = (Tail_call TAIL_CALL_POLICIES_CHECK, s\<lparr>xs_tc_args := (xs_tc_args s)(t \<mapsto> first_context ids)\<rparr>)"
  using assms construct_tuple_keyD [OF assms(2)] by (simp add: xdp_authz_def Let_def)

lemma packet_judged:
  assumes "authz_offload e = 1" and "construct_tuple_key (xs_pkt s) = Some (t, info)"
    and "v4 = (ip_version (xs_pkt s) (xi_ip info) = 4)" and "xs_auth s t = None"
    and "get_workload_policies e v4 t = Some ids" and "kernel_ready e" and "linked e ids 0 ps"
    and "2 * length ps + 2 \<le> n" and "length ps < 256" and "tail_calls e n (xdp_authz e s) = (a, s')"
  shows "a = judge e v4 t ps False XDP_PASS \<and> xs_auth s' = (xs_auth s)(t := recorded e v4 t ps) \<and>
    (xs_tc_args s' t = None \<longleftrightarrow> recorded e v4 t ps \<noteq> None)"
proof -
  let ?s = "s\<lparr>xs_tc_args := (xs_tc_args s)(t \<mapsto> first_context ids)\<rparr>"
  obtain m where n: "n = Suc m" and m: "2 * length ps + 1 \<le> m" using assms(8) by (cases n) auto
  have "xdp_authz e s = (Tail_call TAIL_CALL_POLICIES_CHECK, ?s)"
    by (rule xdp_authz_starts [OF assms(1-5)]) (use assms(6) in \<open>simp add: kernel_ready_def\<close>)
  then have "tail_calls e m (policies_check e ?s) = (a, s')"
    using assms(6,10) by (simp add: n run_prog_def kernel_ready_def)
  from chain_judges [where s = ?s and c = "first_context ids" and n = m and ps = ps, OF _ _ assms(6) _ _ _ _ _ m this]
  show ?thesis using assms(2-4,7,9) by (simp add: first_context_def)
qed

subsection \<open>A packet and a policy\<close>

definition tcp_packet :: "u8 \<Rightarrow> bytes" where
  "tcp_packet host = replicate 14 0 @
     [0x45, 0, 0, 40, 0, 0, 0, 0, 64, 6, 0, 0, 10, 0, 0, host, 10, 0, 0, 1] @
     [0x30, 0x39, 0x1F, 0x90, 0, 0, 0, 0, 0, 0, 0, 0, 0x50, 0x02, 0, 0, 0, 0, 0, 0]"

definition packet_tuple :: "u8 \<Rightarrow> bytes" where
  "packet_tuple host = [10, 0, 0, host, 10, 0, 0, 1, 0x39, 0x30, 0x90, 0x1F] @ replicate 24 0"

lemma tcp_packet_key: "construct_tuple_key (tcp_packet host) = Some (packet_tuple host, \<lparr>xi_ip = 14, xi_tcp = 34\<rparr>)"
  by (simp add: construct_tuple_key_def parser_xdp_info_def ip_version_def tcp_packet_def packet_tuple_def parser_tuple_def
      Let_def bytes_at_def put_ipv4_def put_at_def le_get16_def le_put16_def bpf_htons_def nth_append)


definition port_match :: "u32 \<Rightarrow> c_Match" where
  "port_match port = \<lparr>n_source_ips = 0, c_source_ips = None, n_not_source_ips = 0, c_not_source_ips = None,
     n_destination_ips = 0, c_destination_ips = None, n_not_destination_ips = 0, c_not_destination_ips = None,
     n_destination_ports = 1, c_destination_ports = Some [port], n_not_destination_ports = 0, c_not_destination_ports = None,
     n_namespaces = 0, n_not_namespaces = 0, n_principals = 0, n_not_principals = 0\<rparr>"

definition one_match_policy :: "nat \<Rightarrow> c_Match \<Rightarrow> c_Authorization" where
  "one_match_policy act m = \<lparr>c_name = Some ''p'', c_action = act, n_rules = 1,
     c_rules = Some [Some \<lparr>n_clauses = 1, c_clauses = Some [Some \<lparr>n_matches = 1, c_matches = Some [Some m]\<rparr>]\<rparr>]\<rparr>"

definition policy_env :: "(u32 \<rightharpoonup> c_Authorization) \<Rightarrow> u32 list \<Rightarrow> xdp_env" where
  "policy_env ps ids = \<lparr>xe_view = \<lparr>v_frontend = [set_ip4 [10, 0, 0, 1] zero_ip \<mapsto> 5], v_service = Map.empty,
       v_endpoint = Map.empty, v_backend = Map.empty, v_wlpolicy = [5 \<mapsto> ids]\<rparr>,
     xe_authz = ps, xe_past_end = (\<lambda>_. None), xe_ub = 0, xe_loaded = (\<lambda>_. True), xe_tc_ok = (\<lambda>_ _. True),
     xe_result_ok = True, authz_offload = 1\<rparr>"

definition fresh_state :: "bytes \<Rightarrow> xdp_state" where
  "fresh_state pkt = \<lparr>xs_pkt = pkt, xs_auth = Map.empty, xs_tc_args = Map.empty\<rparr>"

lemma policy_env_ready: "kernel_ready (policy_env ps ids)" "authz_offload (policy_env ps ids) = 1"
  by (simp_all add: kernel_ready_def policy_env_def)

lemma policy_env_policies: "get_workload_policies (policy_env ps ids) True (packet_tuple host) = Some ids"
  by (simp add: get_workload_policies_def policy_env_def packet_tuple_def map_lookup_frontend_def
      get_workload_policies_by_uid_def bytes_at_def Let_def)

lemma tcp_packet_v4: "ip_version (tcp_packet host) 14 = 4"
  by (simp add: ip_version_def tcp_packet_def nth_append)

lemma port_policy_result:
  "policy_result (policy_env ps ids) True (packet_tuple host) (one_match_policy act (port_match port)) =
     (ucast port = (8080 :: u16), False)"
  by (simp add: policy_result_def one_match_policy_def port_match_def members_def elem_def rule_match_check_def
      clause_match_check_def match_check_def match_dst_ports_def port_elem_def match_IPs_def match_src_ip_def
      match_dst_ip_def match_ip_common_def need_tail_call_to_user_def packet_tuple_def ipv4_dport_def bytes_at_def
      le_get16_def Let_def)

text \<open>
  C3.  The verdict of the kernel on a packet of a connection it has not judged yet.  The first
  policy of the workload that matches decides and its verdict is recorded; if none matches, the
  packet passes when a policy asked for user space, and otherwise is dropped exactly when one of
  the policies is an allow policy.  Up to fifteen policies, the limit on tail calls is never reached.
\<close>

theorem xdp_decides:
  assumes "authz_offload e = 1" and "construct_tuple_key (xs_pkt s) = Some (t, info)"
    and "v4 = (ip_version (xs_pkt s) (xi_ip info) = 4)" and "xs_auth s t = None"
    and "get_workload_policies e v4 t = Some ids" and "kernel_ready e" and "linked e ids 0 ps" and "length ps \<le> 15"
  shows "fst (xdp_packet e s) =
      (case find (policy_hits e v4 t) ps of
         Some p \<Rightarrow> if c_action p = ACTION_DENY then XDP_DROP else XDP_PASS
       | None \<Rightarrow> if \<exists>p \<in> set ps. policy_asks e v4 t p then XDP_PASS
                 else if \<exists>p \<in> set ps. c_action p \<noteq> ACTION_DENY then XDP_DROP else XDP_PASS) \<and>
    xs_auth (snd (xdp_packet e s)) = (xs_auth s)(t := recorded e v4 t ps)"
proof -
  obtain a s' where r: "tail_calls e 33 (xdp_authz e s) = (a, s')" by fastforce
  have "a = judge e v4 t ps False XDP_PASS \<and> xs_auth s' = (xs_auth s)(t := recorded e v4 t ps)"
    using packet_judged [OF assms(1-7) _ _ r] assms(8) by simp
  then show ?thesis using r by (simp only: xdp_packet_def judge_closed fst_conv snd_conv simp_thms xdp_action.distinct if_False)
qed

theorem xdp_decides_witness:
  "fst (xdp_packet (policy_env [7 \<mapsto> one_match_policy 1 (port_match 8080)] [7, 0, 0, 0]) (fresh_state (tcp_packet 2))) = XDP_DROP"
proof -
  let ?p = "one_match_policy 1 (port_match 8080)"
  let ?e = "policy_env [7 \<mapsto> ?p] [7, 0, 0, 0]"
  have l: "linked ?e [7, 0, 0, 0] 0 [?p]"
    by (simp add: read_policy_id_def map_lookup_authz_def policy_env_def one_match_policy_def)
  show ?thesis
    using xdp_decides [of ?e "fresh_state (tcp_packet 2)" "packet_tuple 2" "\<lparr>xi_ip = 14, xi_tcp = 34\<rparr>" True "[7, 0, 0, 0]" "[?p]"]
      policy_env_ready policy_env_policies l tcp_packet_key [of 2] tcp_packet_v4 [of 2]
    by (simp add: fresh_state_def port_policy_result) (simp add: one_match_policy_def)
qed



end
