(* ===== verification/Authz_Agreement.thy ===== *)
theory Authz_Agreement
  imports Xdp_Authz
begin

text \<open>
  The two evaluators of a policy, that of user space (\<open>Rbac\<close>) and that of the XDP programs
  (\<open>Xdp_Authz\<close>), on the same policy: where they agree, and where they do not.  The functions
  \<open>c_address_of\<close> to \<open>c_policy_of\<close> say how the policy maps represent a policy: every message with
  its counts and pointers, every pointer leading somewhere.
\<close>

subsection \<open>Representation\<close>

definition c_address_of :: "sec_Address \<Rightarrow> c_Address" where
  "c_address_of a = \<lparr>ca_len = length (sa_address a), ca_data = Some (sa_address a), ca_length = sa_length a\<rparr>"

abbreviation c_list_of :: "('a \<Rightarrow> 'b) \<Rightarrow> 'a list \<Rightarrow> 'b option list option" where
  "c_list_of f xs \<equiv> Some (map (\<lambda>x. Some (f x)) xs)"

definition c_match_of :: "sec_Match \<Rightarrow> c_Match" where
  "c_match_of m = \<lparr>n_source_ips = length (source_ips m), c_source_ips = c_list_of c_address_of (source_ips m),
     n_not_source_ips = length (not_source_ips m), c_not_source_ips = c_list_of c_address_of (not_source_ips m),
     n_destination_ips = length (destination_ips m), c_destination_ips = c_list_of c_address_of (destination_ips m),
     n_not_destination_ips = length (not_destination_ips m),
     c_not_destination_ips = c_list_of c_address_of (not_destination_ips m),
     n_destination_ports = length (destination_ports m), c_destination_ports = Some (destination_ports m),
     n_not_destination_ports = length (not_destination_ports m), c_not_destination_ports = Some (not_destination_ports m),
     n_namespaces = length (namespaces m), n_not_namespaces = length (not_namespaces m),
     n_principals = length (principals m), n_not_principals = length (not_principals m)\<rparr>"

definition c_clause_of :: "sec_Clause \<Rightarrow> c_Clause" where
  "c_clause_of cl = \<lparr>n_matches = length (cl_matches cl), c_matches = c_list_of c_match_of (cl_matches cl)\<rparr>"

definition c_rule_of :: "sec_Rule \<Rightarrow> c_Rule" where
  "c_rule_of r = \<lparr>n_clauses = length (ru_clauses r), c_clauses = c_list_of c_clause_of (ru_clauses r)\<rparr>"

definition c_action_of :: "Action \<Rightarrow> nat" where
  "c_action_of a = (case a of Action_ALLOW \<Rightarrow> ACTION_ALLOW | Action_DENY \<Rightarrow> ACTION_DENY | Action_other n \<Rightarrow> n + 2)"

definition c_policy_of :: "Authorization \<Rightarrow> c_Authorization" where
  "c_policy_of p = \<lparr>c_name = Some (au_name p), c_action = c_action_of (au_action p), n_rules = length (au_rules p),
     c_rules = c_list_of c_rule_of (au_rules p)\<rparr>"

lemma elem_represented: "i < length xs \<Longrightarrow> elem (map (\<lambda>x. Some (f x)) xs) i = Some (f (xs ! i))"
  by (simp add: elem_def)

lemma members_all: "length xs \<le> 4 \<Longrightarrow> members (length xs) = [0..<length xs]"
  by (simp add: members_def min_def)

lemma list_ex_nth: "list_ex (\<lambda>i. P (xs ! i)) [0..<length xs] \<longleftrightarrow> (\<exists>x \<in> set xs. P x)"
  by (auto simp: list_ex_iff Bex_def in_set_conv_nth)

subsection \<open>IPv4 prefixes\<close>

lemma high_bit_u8: "8 \<le> k \<Longrightarrow> \<not> bit (x :: u8) k"
  using bit_imp_le_length [of x k] by auto

lemma addr_bit_at: "r < 8 \<Longrightarrow> addr_bit b (r + 8 * q) = bit (b ! q) (7 - r)"
  by (simp add: addr_bit_def)

lemma ntohl_bit:
  assumes "k < 32"
  shows "bit (bpf_ntohl b) k = addr_bit b (31 - k)"
proof -
  consider "k < 8" | "8 \<le> k" "k < 16" | "16 \<le> k" "k < 24" | "24 \<le> k" "k < 32" using assms by linarith
  then show ?thesis
  proof cases
    case 1
    then have "addr_bit b (31 - k) = bit (b ! 3) (k)" using addr_bit_at [of "7 - k" b 3] by simp
    then show ?thesis using 1 by (auto simp: bpf_ntohl_def bit_simps high_bit_u8)
  next
    case 2
    then have "addr_bit b (31 - k) = bit (b ! 2) (k - 8)" using addr_bit_at [of "15 - k" b 2] by simp
    then show ?thesis using 2 by (auto simp: bpf_ntohl_def bit_simps high_bit_u8)
  next
    case 3
    then have "addr_bit b (31 - k) = bit (b ! 1) (k - 16)" using addr_bit_at [of "23 - k" b 1] by simp
    then show ?thesis using 3 by (auto simp: bpf_ntohl_def bit_simps high_bit_u8)
  next
    case 4
    then have "addr_bit b (31 - k) = bit (b ! 0) (k - 24)" using addr_bit_at [of "31 - k" b 0] by simp
    then show ?thesis using 4 by (auto simp: bpf_ntohl_def bit_simps high_bit_u8)
  qed
qed

lemma mask_bit:
  assumes "n \<le> 32" "k < 32"
  shows "bit (push_bit (32 - n) (0xFFFFFFFF :: u32)) k \<longleftrightarrow> 32 - n \<le> k"
proof -
  have "(0xFFFFFFFF :: u32) = - 1" by simp
  then show ?thesis using assms by (simp only: bit_push_bit_iff bit_minus_1_iff) auto
qed

lemma masked_words_eq:
  assumes "n \<le> 32"
  shows "bpf_ntohl a AND push_bit (32 - n) 0xFFFFFFFF = bpf_ntohl b AND push_bit (32 - n) 0xFFFFFFFF \<longleftrightarrow>
    (\<forall>i < n. addr_bit a i = addr_bit b i)"
proof -
  have "bpf_ntohl a AND push_bit (32 - n) 0xFFFFFFFF = bpf_ntohl b AND push_bit (32 - n) 0xFFFFFFFF \<longleftrightarrow>
      (\<forall>k < 32. 32 - n \<le> k \<longrightarrow> addr_bit a (31 - k) = addr_bit b (31 - k))"
    using mask_bit [OF assms] ntohl_bit by (auto simp: bit_word_eqI bit_and_iff bit_eq_iff)
  also have "\<dots> \<longleftrightarrow> (\<forall>i < n. addr_bit a i = addr_bit b i)"
  proof (rule iffI; intro allI impI)
    fix i assume l: "\<forall>k < 32. 32 - n \<le> k \<longrightarrow> addr_bit a (31 - k) = addr_bit b (31 - k)" and "i < n"
    then show "addr_bit a i = addr_bit b i" using assms l [rule_format, of "31 - i"] by auto
  next
    fix k assume "\<forall>i < n. addr_bit a i = addr_bit b i" and "k < 32" "32 - n \<le> k"
    then show "addr_bit a (31 - k) = addr_bit b (31 - k)" using assms by auto
  qed
  finally show ?thesis .
qed

definition v4_prefix :: "sec_Address \<Rightarrow> bool" where
  "v4_prefix a \<longleftrightarrow> length (sa_address a) = 4 \<and> 0 < sa_length a \<and> sa_length a \<le> 32"

lemma match_ip_rule_v4:
  assumes "v4_prefix a" and "length (if src then ipv4_saddr t else ipv4_daddr t) = 4"
  shows "match_ip_rule ub (c_address_of a) t src = MATCHED \<longleftrightarrow> in_prefix a (if src then ipv4_saddr t else ipv4_daddr t)"
proof -
  let ?ip = "if src then ipv4_saddr t else ipv4_daddr t" and ?n = "unat (sa_length a)"
  obtain b0 b1 b2 b3 where ad: "sa_address a = [b0, b1, b2, b3]"
    using assms(1) by (auto simp: v4_prefix_def length_Suc_conv numeral_eq_Suc)
  have n: "?n \<le> 32" "0 < ?n" "\<not> 32 < sa_length a" "sa_length a \<noteq> 0"
    using assms(1) by (auto simp: v4_prefix_def word_le_nat_alt word_less_nat_alt)
  have "map (data_at (sa_address a)) [0, 1, 2, 3] = sa_address a" by (simp add: ad data_at_def)
  then have "convert_ipv4_to_u32 (c_address_of a) False = bpf_ntohl (sa_address a)"
    by (simp add: convert_ipv4_to_u32_def c_address_of_def ad)
  then have "match_ip_rule ub (c_address_of a) t src = MATCHED \<longleftrightarrow>
      bpf_ntohl (sa_address a) AND push_bit (32 - ?n) 0xFFFFFFFF = bpf_ntohl ?ip AND push_bit (32 - ?n) 0xFFFFFFFF"
    using n(3,4) by (simp add: match_ip_rule_def match_ipv4_rule_def c_address_of_def ad Let_def)
  also have "\<dots> \<longleftrightarrow> (\<forall>i < ?n. addr_bit (sa_address a) i = addr_bit ?ip i)" by (rule masked_words_eq [OF n(1)])
  also have "\<dots> \<longleftrightarrow> in_prefix a ?ip"
    using assms(2) n(1) by (simp add: in_prefix_def ip_norm_def To4_def ad Let_def)
  finally show ?thesis .
qed


subsection \<open>Agreement on addresses and ports\<close>

lemma ip_hits_v4:
  assumes "length addrs \<le> 4" and "list_all v4_prefix addrs" and "length (if src then ipv4_saddr t else ipv4_daddr t) = 4"
  shows "ip_hits ub (map (\<lambda>a. Some (c_address_of a)) addrs) (length addrs) t src \<longleftrightarrow>
    (\<exists>a \<in> set addrs. in_prefix a (if src then ipv4_saddr t else ipv4_daddr t))"
proof -
  let ?ip = "if src then ipv4_saddr t else ipv4_daddr t"
  have "ip_hits ub (map (\<lambda>a. Some (c_address_of a)) addrs) (length addrs) t src \<longleftrightarrow>
      list_ex (\<lambda>i. match_ip_rule ub (c_address_of (addrs ! i)) t src = MATCHED) [0..<length addrs]"
    by (auto simp: ip_hits_def members_all [OF assms(1)] list_ex_iff elem_represented)
  also have "\<dots> \<longleftrightarrow> (\<exists>a \<in> set addrs. match_ip_rule ub (c_address_of a) t src = MATCHED)" by (rule list_ex_nth)
  also have "\<dots> \<longleftrightarrow> (\<exists>a \<in> set addrs. in_prefix a ?ip)"
    using assms(2,3) match_ip_rule_v4 by (auto simp: list_all_iff)
  finally show ?thesis .
qed

lemma port_hits:
  assumes "length ports \<le> 4" and "list_all (\<lambda>p. p < 0x10000) ports"
  shows "list_ex (\<lambda>i. ucast (port_elem ports i) = (dport :: u16)) (members (length ports)) \<longleftrightarrow> ucast dport \<in> set ports"
proof -
  have u: "ucast p = dport \<longleftrightarrow> p = ucast dport" if "p < 0x10000" for p :: u32
  proof -
    have "(ucast (ucast p :: u16) :: u32) = p"
      using that by (simp add: word_uint_eq_iff unsigned_ucast_eq word_less_def unsigned_take_bit_eq take_bit_int_eq_self)
    moreover have "(ucast (ucast dport :: u32) :: u16) = dport" by (rule bit_word_eqI) (simp add: bit_simps)
    ultimately show ?thesis by metis
  qed
  have "list_ex (\<lambda>i. ucast (port_elem ports i) = dport) (members (length ports)) \<longleftrightarrow>
      list_ex (\<lambda>i. ucast (ports ! i) = dport) [0..<length ports]"
    by (auto simp: members_all [OF assms(1)] list_ex_iff port_elem_def)
  also have "\<dots> \<longleftrightarrow> (\<exists>p \<in> set ports. ucast p = dport)" by (rule list_ex_nth)
  also have "\<dots> \<longleftrightarrow> ucast dport \<in> set ports" using assms(2) u by (auto simp: list_all_iff)
  finally show ?thesis .
qed


definition v4_comparable :: "sec_Match \<Rightarrow> bool" where
  "v4_comparable m \<longleftrightarrow>
     length (source_ips m) \<le> 4 \<and> length (not_source_ips m) \<le> 4 \<and> length (destination_ips m) \<le> 4 \<and>
     length (not_destination_ips m) \<le> 4 \<and> length (destination_ports m) \<le> 4 \<and> length (not_destination_ports m) \<le> 4 \<and>
     list_all v4_prefix (source_ips m @ not_source_ips m @ destination_ips m @ not_destination_ips m) \<and>
     list_all (\<lambda>p. p < 0x10000) (destination_ports m @ not_destination_ports m) \<and>
     (source_ips m = [] \<longrightarrow> not_source_ips m = []) \<and> (destination_ips m = [] \<longrightarrow> not_destination_ips m = [])"

lemma match_ports_agree:
  assumes "v4_comparable m"
  shows "match_dst_ports (c_match_of m) True t \<noteq> 0 \<longleftrightarrow> matchDstPort (ucast (ipv4_dport t)) m"
  using assms port_hits [of "destination_ports m" "ipv4_dport t"] port_hits [of "not_destination_ports m" "ipv4_dport t"]
  by (auto simp: match_dst_ports_def c_match_of_def v4_comparable_def matchers_spec Let_def)

lemma match_ips_agree:
  assumes "v4_comparable m" and "length t = 36"
  shows "match_src_ip ub (c_match_of m) t \<noteq> 0 \<longleftrightarrow> matchSrcIp (ipv4_saddr t) m"
    and "match_dst_ip ub (c_match_of m) t \<noteq> 0 \<longleftrightarrow> matchDstIp (ipv4_daddr t) m"
proof -
  have l: "length (ipv4_saddr t) = 4" "length (ipv4_daddr t) = 4" using assms(2) by (simp_all add: bytes_at_def)
  note hits = ip_hits_v4 [where ub = ub and t = t]
  show "match_src_ip ub (c_match_of m) t \<noteq> 0 \<longleftrightarrow> matchSrcIp (ipv4_saddr t) m"
    using assms(1) l hits [of "source_ips m" True] hits [of "not_source_ips m" True]
    by (auto simp: match_src_ip_def match_ip_common_def c_match_of_def v4_comparable_def matchers_spec Let_def)
  show "match_dst_ip ub (c_match_of m) t \<noteq> 0 \<longleftrightarrow> matchDstIp (ipv4_daddr t) m"
    using assms(1) l hits [of "destination_ips m" False] hits [of "not_destination_ips m" False]
    by (auto simp: match_dst_ip_def match_ip_common_def c_match_of_def v4_comparable_def matchers_spec Let_def)
qed

text \<open>
  C11.  On IPv4 packets the kernel and user space agree about the addresses and ports of a match
  with at most four entries per field, prefixes of one to 32 bits, ports of 16 bits, and no
  excluded addresses without included ones.
\<close>

theorem kernel_match_agrees:
  assumes "v4_comparable m" and "length t = 36"
  shows "match_check ub (c_match_of m) True t = MATCHED \<longleftrightarrow>
    matchDstIp (ipv4_daddr t) m \<and> matchSrcIp (ipv4_saddr t) m \<and> matchDstPort (ucast (ipv4_dport t)) m"
  using match_ports_agree [OF assms(1), of t] match_ips_agree [OF assms, of ub]
  by (auto simp: match_check_def match_IPs_def)

theorem kernel_match_agrees_witness:
  "let m = (any_port_match 8080)\<lparr>source_ips := [sec_Address [10, 0, 0, 0] 24], not_source_ips := [sec_Address [10, 0, 0, 9] 32]\<rparr> in
   (match_check 0 (c_match_of m) True (packet_tuple 2) = MATCHED \<longleftrightarrow>
    matchDstIp (ipv4_daddr (packet_tuple 2)) m \<and> matchSrcIp (ipv4_saddr (packet_tuple 2)) m \<and>
    matchDstPort (ucast (ipv4_dport (packet_tuple 2))) m)"
  unfolding Let_def
  by (rule kernel_match_agrees) (simp_all add: v4_comparable_def v4_prefix_def any_port_match_def packet_tuple_def)


subsection \<open>Disagreement\<close>

lemma first_hit_decides:
  assumes "authz_offload e = 1" and "construct_tuple_key (xs_pkt s) = Some (t, info)"
    and "v4 = (ip_version (xs_pkt s) (xi_ip info) = 4)" and "xs_auth s t = None"
    and "get_workload_policies e v4 t = Some ids" and "kernel_ready e" and "linked e ids 0 (p # ps)"
    and "length ps < 15" and "policy_hits e v4 t p"
  shows "fst (xdp_packet e s) = (if c_action p = ACTION_DENY then XDP_DROP else XDP_PASS)"
    and "xs_auth (snd (xdp_packet e s)) t = Some (if c_action p = ACTION_DENY then 1 else 0)"
proof -
  obtain a s' where r: "tail_calls e 33 (xdp_authz e s) = (a, s')" by fastforce
  have "a = judge e v4 t (p # ps) False XDP_PASS \<and> xs_auth s' = (xs_auth s)(t := recorded e v4 t (p # ps))"
    using packet_judged [OF assms(1-7) _ _ r] assms(8) by simp
  then show "fst (xdp_packet e s) = (if c_action p = ACTION_DENY then XDP_DROP else XDP_PASS)"
    and "xs_auth (snd (xdp_packet e s)) t = Some (if c_action p = ACTION_DENY then 1 else 0)"
    using r assms(9) by (simp_all add: xdp_packet_def recorded_def)
qed

lemma single_match_result:
  assumes "au_rules p = [sec_Rule [sec_Clause [m]]]"
  shows "policy_hits e v4 t (c_policy_of p) \<longleftrightarrow> match_check (xe_ub e) (c_match_of m) v4 t = MATCHED"
  using assms
  by (simp add: policy_result_def c_policy_of_def c_rule_of_def c_clause_of_def members_def elem_def rule_match_check_def
      clause_match_check_def)

definition no_address_or_port :: "sec_Match \<Rightarrow> bool" where
  "no_address_or_port m \<longleftrightarrow> source_ips m = [] \<and> not_source_ips m = [] \<and> destination_ips m = [] \<and>
     not_destination_ips m = [] \<and> destination_ports m = [] \<and> not_destination_ports m = []"

lemma unconstrained_matches: "no_address_or_port m \<Longrightarrow> match_check ub (c_match_of m) v4 t = MATCHED"
  by (simp add: no_address_or_port_def match_check_def match_dst_ports_def match_IPs_def match_src_ip_def match_dst_ip_def
      match_ip_common_def c_match_of_def)


definition friends_only :: Authorization where
  "friends_only = sample_policy Scope_WORKLOAD_SELECTOR Action_ALLOW
     [sec_Rule [sec_Clause [(any_port_match 0)\<lparr>destination_ports := [], principals := [SM_Exact ''td/ns/a/sa/b'']\<rparr>]]]"



lemma doRbac_denies:
  assumes "store_ok st" and "GetWorkloadByAddr wc (dstNetwork conn, AddrFromSlice (dstIp conn)) = Some wl"
    and "policy_applies st wl d" and "au_action d = Action_DENY" and "matches conn d"
  shows "\<not> doRbac st wc conn"
proof -
  obtain allow deny where ag: "aggregate st wl = (allow, deny)" by fastforce
  have "d \<in> set deny" using aggregate_spec(2) [OF assms(1), of wl] ag assms(3,4) by simp
  then show ?thesis using assms(2,5) ag by (auto simp: doRbac_def list_ex_iff)
qed

lemma conn_to_8080:
  fixes d defines "d \<equiv> sample_policy Scope_GLOBAL Action_DENY [sec_Rule [sec_Clause [any_port_match 8080]]]"
  shows "GetWorkloadByAddr one_workload (dstNetwork (conn_to 8080), AddrFromSlice (dstIp (conn_to 8080))) =
      Some (sample_workload ''w1'' [10, 0, 0, 1])"
    and "policy_applies deny_8080 (sample_workload ''w1'' [10, 0, 0, 1]) d" and "au_action d = Action_DENY"
    and "matches (conn_to 8080) d"
  by (auto simp: one_workload_def conn_to_def AddrFromSlice_def GetWorkloadByAddr_def policy_applies_def deny_8080_store
      index_of_def d_def sample_policy_def matches_spec match_holds_def isEmptyMatch_def matchers_spec
      matchPrincipal_def matchNamespace_def any_port_match_def)

text \<open>
  C20.  A deny policy behind an allow policy is not enforced by the kernel.  If the first policy of
  a workload allows the packet, it passes, although a deny policy that applies to the workload
  matches the connection, for which user space denies it.
\<close>

theorem allow_shadows_deny:
  assumes "authz_offload e = 1" and "construct_tuple_key (xs_pkt s) = Some (t, info)"
    and "v4 = (ip_version (xs_pkt s) (xi_ip info) = 4)" and "xs_auth s t = None"
    and "get_workload_policies e v4 t = Some ids" and "kernel_ready e" and "linked e ids 0 (p # ps)"
    and "length ps < 15" and "policy_hits e v4 t p" and "c_action p = ACTION_ALLOW"
    and "store_ok st" and "GetWorkloadByAddr wc (dstNetwork conn, AddrFromSlice (dstIp conn)) = Some wl"
    and "policy_applies st wl d" and "au_action d = Action_DENY" and "matches conn d"
  shows "\<not> doRbac st wc conn \<and> fst (xdp_packet e s) = XDP_PASS"
proof -
  have "\<not> doRbac st wc conn" by (rule doRbac_denies [OF assms(11-15)])
  then show ?thesis using first_hit_decides [OF assms(1-9)] assms(10) by simp
qed

theorem allow_shadows_deny_witness:
  "let d = sample_policy Scope_GLOBAL Action_DENY [sec_Rule [sec_Clause [any_port_match 8080]]];
       e = policy_env [7 \<mapsto> one_match_policy 0 (port_match 8080), 9 \<mapsto> c_policy_of d] [7, 9, 0, 0]
   in \<not> doRbac deny_8080 one_workload (conn_to 8080) \<and> fst (xdp_packet e (fresh_state (tcp_packet 2))) = XDP_PASS"
proof -
  let ?d = "sample_policy Scope_GLOBAL Action_DENY [sec_Rule [sec_Clause [any_port_match 8080]]]"
  let ?p = "one_match_policy 0 (port_match 8080)"
  let ?e = "policy_env [7 \<mapsto> ?p, 9 \<mapsto> c_policy_of ?d] [7, 9, 0, 0]"
  have l: "linked ?e [7, 9, 0, 0] 0 [?p, c_policy_of ?d]"
    by (simp add: read_policy_id_def map_lookup_authz_def policy_env_def one_match_policy_def c_policy_of_def)
  have a: "c_action ?p = ACTION_ALLOW" by (simp add: one_match_policy_def)
  show ?thesis
    using allow_shadows_deny [OF _ _ _ _ _ _ l _ _ a deny_8080_store(2) conn_to_8080, of "fresh_state (tcp_packet 2)" "packet_tuple 2"
        "\<lparr>xi_ip = 14, xi_tcp = 34\<rparr>" True]
      policy_env_ready policy_env_policies tcp_packet_key [of 2] tcp_packet_v4 [of 2]
    by (simp add: fresh_state_def port_policy_result Let_def)
qed

subsection \<open>From the accepted connection to the reset packet\<close>

lemma buildConnV4_tail:
  assumes "length a = 12"
  shows "buildConnV4 wc (a @ b) = buildConnV4 wc (a @ c)"
  using assms by (simp add: buildConnV4_def buf_read_def Let_def)

lemma le_get_put32 [simp]: "le_get32 (le_put32 w @ r) = w"
proof (rule bit_word_eqI)
  fix n assume "n < LENGTH(32)"
  then show "bit (le_get32 (le_put32 w @ r)) n = bit w n"
    by (cases "24 \<le> n"; cases "16 \<le> n"; cases "8 \<le> n") (auto simp: le_get32_def le_put32_def bit_simps)
qed

lemma accepted_record:
  assumes "v4_skops k" "length junk = 36" "\<not> is_ipv4_mapped_addr (ipv6_daddr junk)" "remote_ip4 k \<noteq> [0, 0, 0, 0]"
    and "\<not> is_ipv4_mapped_addr (local_ip6 k)" and "buildConnV4 wc (client_tuple k) = Some conn" "\<not> doRbac ps wc conn"
  shows "fold (run_record ps wc True) (auth_ip_tuple True junk k []) m = m(client_tuple k \<mapsto> 1)"
proof -
  have l: "length (remote_ip4 k) = 4" "length (local_ip4 k) = 4" using assms(1) by (simp_all add: v4_skops_def)
  define h where "h = remote_ip4 k @ local_ip4 k @ le_put16 (bpf_htons (GET_SKOPS_REMOTE_PORT k)) @ le_put16 (GET_SKOPS_LOCAL_PORT k)"
  have h: "length h = 12" using l by (simp add: h_def le_put16_def)
  have c: "client_tuple k = h @ replicate 24 0" using put_ipv4_form [OF _ l] by (simp add: client_tuple_def h_def)
  have t: "extract_skops_to_tuple_reverse k junk = h @ drop 12 junk"
    using reverse_v4 [OF assms(1-4)] put_ipv4_form [OF assms(2) l] by (simp add: h_def)
  have b: "buildConnV4 wc (h @ drop 12 junk) = Some conn"
    using assms(6) buildConnV4_tail [OF h, of wc "replicate 24 0" "drop 12 junk"] by (simp add: c)
  have "auth_ip_tuple True junk k [] = [le_put32 0 @ h @ drop 12 junk]"
    using assms(1,5) t by (simp add: auth_ip_tuple_def v4_skops_def Let_def)
  moreover have "length (le_put32 0) = 4" by (simp add: le_put32_def)
  ultimately show ?thesis
    using b h assms(2,7) by (simp add: run_record_def xdpNotifyConnRst_def c Let_def)
qed




end
