(* ===== verification/Authz_Response.thy ===== *)
theory Authz_Response
  imports Policy_Store Bpf_Maps Hash_Name
begin

text \<open>
  Authorization responses of the control plane (\<open>handleAuthorizationTypeResponse\<close> and
  \<open>handleRemovedAuthzPolicyDuringRestart\<close> of \<open>workload_processor.go\<close>, with the wrappers of
  \<open>pkg/auth/rbac.go\<close>): every policy goes into the store of user space and, under the number of its
  name, into the policy map of the kernel.  The map is written by the C library for
  deserialization and is the argument \<open>M\<close>; \<open>io\<close> is the outcome of writing the file of the name table.
\<close>

record 'm authz_proc =
  ap_hash :: hash_name
  ap_store :: policyStore
  ap_map :: 'm
  ap_once :: bool

definition UpdatePolicy :: "Authorization option \<Rightarrow> 'm authz_proc \<Rightarrow> go_err option \<times> 'm authz_proc" where
  "UpdatePolicy auth s = (let (e, st) = updatePolicy auth (ap_store s) in (e, s\<lparr>ap_store := st\<rparr>))"

definition RemovePolicy :: "string \<Rightarrow> 'm authz_proc \<Rightarrow> 'm authz_proc" where
  "RemovePolicy policyKey s = s\<lparr>ap_store := removePolicy policyKey (ap_store s)\<rparr>"

definition a_Hash :: "(hash_name \<Rightarrow> bool) \<Rightarrow> string \<Rightarrow> 'm authz_proc \<Rightarrow> u32 \<times> 'm authz_proc" where
  "a_Hash io str s = (let (num, h) = Hash (io (ap_hash s)) (ap_hash s) str in (num, s\<lparr>ap_hash := h\<rparr>))"

text \<open>The loop over the resources; \<open>None\<close> is one that does not unmarshal.\<close>

fun update_policies :: "('m, u32, Authorization) map_ops \<Rightarrow> (hash_name \<Rightarrow> bool) \<Rightarrow> Authorization option list \<Rightarrow> 'm authz_proc \<Rightarrow>
    go_err option \<times> 'm authz_proc" where
  "update_policies M io [] s = (None, s)"
| "update_policies M io (None # rest) s = update_policies M io rest s"
| "update_policies M io (Some authPolicy # rest) s =
     (case UpdatePolicy (Some authPolicy) s of
        (Some err, s1) \<Rightarrow> (Some err, s1)
      | (None, s1) \<Rightarrow>
         (case a_Hash io (Authorization_ResourceName authPolicy) s1 of (num, s2) \<Rightarrow>
           (case m_update M (ap_map s2) num authPolicy of
              (Some err, m) \<Rightarrow> (Some (GoWrap ''AuthorizationUpdate failed'' err), s2\<lparr>ap_map := m\<rparr>)
            | (None, m) \<Rightarrow> update_policies M io rest (s2\<lparr>ap_map := m\<rparr>))))"

fun remove_policies :: "('m, u32, Authorization) map_ops \<Rightarrow> (hash_name \<Rightarrow> bool) \<Rightarrow> string list \<Rightarrow> 'm authz_proc \<Rightarrow> 'm authz_proc" where
  "remove_policies M io [] s = s"
| "remove_policies M io (resourceName # rest) s =
     (case a_Hash io resourceName (RemovePolicy resourceName s) of (num, s1) \<Rightarrow>
        remove_policies M io rest (s1\<lparr>ap_map := snd (m_delete M (ap_map s1) num)\<rparr>))"

fun remove_stale :: "('m, u32, Authorization) map_ops \<Rightarrow> (string \<times> u32) list \<Rightarrow> 'm authz_proc \<Rightarrow> 'm authz_proc" where
  "remove_stale M [] s = s"
| "remove_stale M ((str, num) # rest) s =
     (if map_of (getAllPolicies (ap_store s)) str = None
      then (case m_lookup M (ap_map s) num of
              Inr _ \<Rightarrow> remove_stale M rest (s\<lparr>ap_map := snd (m_delete M (ap_map s) num)\<rparr>)
            | Inl _ \<Rightarrow> remove_stale M rest s)
      else remove_stale M rest s)"

definition handleRemovedAuthzPolicyDuringRestart :: "('m, u32, Authorization) map_ops \<Rightarrow> 'm authz_proc \<Rightarrow> 'm authz_proc" where
  "handleRemovedAuthzPolicyDuringRestart M s = remove_stale M (GetStrToNum (ap_hash s)) s"

definition handleAuthorizationTypeResponse :: "('m, u32, Authorization) map_ops \<Rightarrow> (hash_name \<Rightarrow> bool) \<Rightarrow> bool \<Rightarrow> Authorization option list \<Rightarrow>
    string list \<Rightarrow> 'm authz_proc \<Rightarrow> go_err option \<times> 'm authz_proc" where
  "handleAuthorizationTypeResponse M io rbac_nil resources removed s =
     (if rbac_nil then (Some (GoErr ''rbac module uninitialized''), s)
      else case update_policies M io resources s of
        (Some err, s1) \<Rightarrow> (Some err, s1)
      | (None, s1) \<Rightarrow>
          let s2 = remove_policies M io removed s1
          in (None, if ap_once s2 then s2 else (handleRemovedAuthzPolicyDuringRestart M s2)\<lparr>ap_once := True\<rparr>))"

subsection \<open>Store and kernel agree\<close>

text \<open>What the map promises: a write that succeeds is seen, one that fails changes nothing.\<close>

definition policy_map_law :: "('m, u32, Authorization) map_ops \<Rightarrow> bool" where
  "policy_map_law M \<longleftrightarrow>
     (\<forall>m k v. contents M (snd (m_update M m k v)) = put_result (contents M m) k v (fst (m_update M m k v))) \<and>
     (\<forall>m k. contents M (snd (m_delete M m k)) = del_result (contents M m) k (fst (m_delete M m k)))"

text \<open>Every stored policy is in the kernel under its number, and the kernel's entries have names.\<close>

definition covered :: "('m, u32, Authorization) map_ops \<Rightarrow> 'm authz_proc \<Rightarrow> bool" where
  "covered M s \<longleftrightarrow> hn_inv (ap_hash s) \<and>
     (\<forall>n p. map_of (ps_byKey (ap_store s)) n = Some p \<longrightarrow>
        (\<exists>k. lookup_num (ap_hash s) n = Some k \<and> contents M (ap_map s) k = Some p)) \<and>
     (\<forall>k. contents M (ap_map s) k \<noteq> None \<longrightarrow> numToStr (ap_hash s) k \<noteq> None)"

text \<open>Nothing else is in the kernel.\<close>

definition exact :: "('m, u32, Authorization) map_ops \<Rightarrow> 'm authz_proc \<Rightarrow> bool" where
  "exact M s \<longleftrightarrow> (\<forall>k n. contents M (ap_map s) k \<noteq> None \<and> numToStr (ap_hash s) k = Some n \<longrightarrow>
     map_of (ps_byKey (ap_store s)) n \<noteq> None)"

text \<open>The names get numbers: the probe never runs into the end of the ring.\<close>

fun numbered :: "(hash_name \<Rightarrow> bool) \<Rightarrow> hash_name \<Rightarrow> string list \<Rightarrow> bool" where
  "numbered io h [] = True"
| "numbered io h (n # ns) = (fst (Hash (io h) h n) \<noteq> max_u32 \<and> numbered io (snd (Hash (io h) h n)) ns)"

lemma updatePolicy_byKey:
  "updatePolicy (Some p) ps = (None, ps') \<Longrightarrow>
     map_of (ps_byKey ps') = (map_of (ps_byKey ps))(Authorization_ResourceName p \<mapsto> p)"
  by (auto simp: updatePolicy_def getByNamespace_index_policy(2) update_conv' Let_def split: Scope.splits)

lemma removePolicy_byKey: "map_of (ps_byKey (removePolicy k ps)) = (map_of (ps_byKey ps))(k := None)"
proof (cases "map_of (ps_byKey ps) k")
  case (Some p)
  then show ?thesis
    by (auto simp: removePolicy_def getByNamespace_unindex_policy(2) delete_conv' Let_def split: Scope.splits)
qed (auto simp: removePolicy_def)

lemma Hash_number:
  assumes "hn_inv h" "Hash io h n = (num, h')" "num \<noteq> max_u32"
  shows "hn_inv h'" "lookup_num h' n = Some num" "numToStr h' num = Some n"
    and "\<And>t k. lookup_num h t = Some k \<Longrightarrow> lookup_num h' t = Some k"
    and "\<And>t k. numToStr h k = Some t \<Longrightarrow> numToStr h' k = Some t"
    and "\<And>t k. numToStr h' k = Some t \<Longrightarrow> k \<noteq> num \<Longrightarrow> numToStr h k = Some t"
proof -
  show i: "hn_inv h'" using hn.inv_hash [OF assms(1), of io n] assms(2) by simp
  show r: "lookup_num h' n = Some num" using hn.hash_records [OF assms(1), of io n] assms(2,3) by simp
  then show "numToStr h' num = Some n" using hn_inv_num [OF i] by simp
  show keep: "lookup_num h t = Some k \<Longrightarrow> lookup_num h' t = Some k" for t k
    using hn.hash_keeps [OF assms(1), of t k io n] assms(2) by simp
  then show "numToStr h k = Some t \<Longrightarrow> numToStr h' k = Some t" for t k
    using hn_inv_num [OF i] hn_inv_num [OF assms(1)] by simp
  show "numToStr h' k = Some t \<Longrightarrow> k \<noteq> num \<Longrightarrow> numToStr h k = Some t" for t k
    using Hash_new(2) [OF assms(1), of n io] Hash_known [of h n _ io] assms(2,3)
    by (cases "lookup_num h n") auto
qed


text \<open>One name of a response: its policy is replaced in the store and in the kernel, or removed from both.\<close>

lemma policy_written:
  assumes "covered M s" and "Hash io (ap_hash s) n = (num, h)" "num \<noteq> max_u32"
    and "map_of (ps_byKey st) = (map_of (ps_byKey (ap_store s)))(n := q)" "contents M m = (contents M (ap_map s))(num := q)"
  shows "covered M (s\<lparr>ap_store := st, ap_hash := h, ap_map := m\<rparr>)"
    and "exact M s \<Longrightarrow> exact M (s\<lparr>ap_store := st, ap_hash := h, ap_map := m\<rparr>)"
proof -
  have i: "hn_inv (ap_hash s)" using assms(1) by (simp add: covered_def)
  note H = Hash_number [OF i assms(2,3)]
  have other: "k \<noteq> num" if "lookup_num h t = Some k" "t \<noteq> n" for t k
    using that hn_inv_num [OF H(1), of t k] H(3) by auto
  have old: "\<exists>k. lookup_num (ap_hash s) t = Some k \<and> contents M (ap_map s) k = Some p"
    if "map_of (ps_byKey (ap_store s)) t = Some p" for t p
    using assms(1) that by (simp add: covered_def)
  have "\<exists>k. lookup_num h t = Some k \<and> contents M m k = Some p" if t: "map_of (ps_byKey st) t = Some p" for t p
  proof (cases "t = n")
    case True
    then show ?thesis using t H(2) assms(4,5) by simp
  next
    case False
    then obtain k where k: "lookup_num (ap_hash s) t = Some k" "contents M (ap_map s) k = Some p" using t old assms(4) by auto
    then show ?thesis using H(4) other False assms(5) by auto
  qed
  moreover have "numToStr h k \<noteq> None" if "contents M m k \<noteq> None" for k
  proof (cases "k = num")
    case False
    then have "numToStr (ap_hash s) k \<noteq> None" using that assms(1,5) by (simp add: covered_def)
    then show ?thesis using H(5) by auto
  qed (simp add: H(3))
  ultimately show "covered M (s\<lparr>ap_store := st, ap_hash := h, ap_map := m\<rparr>)" using H(1) by (simp add: covered_def)
  show "exact M (s\<lparr>ap_store := st, ap_hash := h, ap_map := m\<rparr>)" if e: "exact M s"
  proof -
    have "map_of (ps_byKey st) t \<noteq> None" if c: "contents M m k \<noteq> None" "numToStr h k = Some t" for k t
    proof (cases "k = num")
      case True
      then show ?thesis using c H(3) assms(4,5) by simp
    next
      case False
      then have "map_of (ps_byKey (ap_store s)) t \<noteq> None"
        using e c assms(5) H(6) [OF c(2) False] by (simp add: exact_def)
      moreover have "t \<noteq> n" using False c(2) H(2) hn_inv_num [OF H(1), of n k] by auto
      ultimately show ?thesis using assms(4) by simp
    qed
    then show ?thesis by (auto simp: exact_def)
  qed
qed

lemma updates_written:
  assumes "policy_map_law M" "covered M s" "update_policies M io resources s = (None, s')"
    and "numbered io (ap_hash s) (map Authorization_ResourceName (List.map_filter (\<lambda>r. r) resources))"
  shows "covered M s' \<and> (exact M s \<longrightarrow> exact M s') \<and> ap_once s' = ap_once s"
  using assms(2-)
proof (induction resources arbitrary: s)
  case (Cons r rest)
  show ?case
  proof (cases r)
    case None
    then show ?thesis using Cons by (simp add: map_filter_simps)
  next
    case (Some p)
    let ?n = "Authorization_ResourceName p"
    obtain st where st: "updatePolicy (Some p) (ap_store s) = (None, st)"
      using Cons.prems(2) Some by (auto simp: UpdatePolicy_def split: prod.splits option.splits)
    obtain num h where h: "Hash (io (ap_hash s)) (ap_hash s) ?n = (num, h)" by fastforce
    obtain m where m: "m_update M (ap_map s) num p = (None, m)"
      using Cons.prems(2) st h Some by (auto simp: UpdatePolicy_def a_Hash_def split: prod.splits option.splits)
    let ?s = "s\<lparr>ap_store := st, ap_hash := h, ap_map := m\<rparr>"
    have nb: "num \<noteq> max_u32" "numbered io h (map Authorization_ResourceName (List.map_filter (\<lambda>r. r) rest))"
      using Cons.prems(3) Some h by (simp_all add: map_filter_simps)
    have c: "contents M m = (contents M (ap_map s))(num \<mapsto> p)"
      using assms(1) m unfolding policy_map_law_def by (metis fst_conv put_result_def snd_conv)
    note w = policy_written [OF Cons.prems(1) h nb(1) updatePolicy_byKey [OF st] c]
    have "update_policies M io rest ?s = (None, s')"
      using Cons.prems(2) Some st h m by (simp add: UpdatePolicy_def a_Hash_def)
    from Cons.IH [OF w(1) this] show ?thesis using w(2) nb(2) by auto
  qed
qed simp

lemma removals_written:
  assumes "policy_map_law M" "map_reliable M" "covered M s" "numbered io (ap_hash s) removed"
  shows "covered M (remove_policies M io removed s) \<and> (exact M s \<longrightarrow> exact M (remove_policies M io removed s)) \<and>
    ap_once (remove_policies M io removed s) = ap_once s"
  using assms(3-)
proof (induction removed arbitrary: s)
  case (Cons n rest)
  obtain num h where h: "Hash (io (ap_hash s)) (ap_hash s) n = (num, h)" by fastforce
  let ?m = "snd (m_delete M (ap_map s) num)"
  let ?s = "s\<lparr>ap_store := removePolicy n (ap_store s), ap_hash := h, ap_map := ?m\<rparr>"
  have nb: "num \<noteq> max_u32" "numbered io h rest" using Cons.prems(2) h by simp_all
  have c: "contents M ?m = (contents M (ap_map s))(num := None)"
    using assms(1,2) by (auto simp: policy_map_law_def map_reliable_def del_result_def split: option.splits)
  note w = policy_written [OF Cons.prems(1) h nb(1) removePolicy_byKey c]
  have "remove_policies M io (n # rest) s = remove_policies M io rest ?s"
    using h by (simp add: RemovePolicy_def a_Hash_def)
  then show ?case using Cons.IH [OF w(1)] w(2) nb(2) by auto
qed simp


lemma getAllPolicies_None: "map_of (getAllPolicies ps) n = None \<longleftrightarrow> map_of (ps_byKey ps) n = None"
  by (simp add: getAllPolicies_def map_of_eq_None_iff image_image case_prod_beta)

text \<open>The clean-up after a restart keeps what is stored and leaves none of the listed names that is not.\<close>

lemma stale_removed:
  assumes "policy_map_law M" "map_reliable M" "covered M s" and "\<forall>(n, k) \<in> set l. lookup_num (ap_hash s) n = Some k"
    and "remove_stale M l s = s'"
  shows "covered M s' \<and> ap_store s' = ap_store s \<and> ap_hash s' = ap_hash s \<and>
    (\<forall>k. contents M (ap_map s) k = None \<longrightarrow> contents M (ap_map s') k = None) \<and>
    (\<forall>(n, k) \<in> set l. contents M (ap_map s') k \<noteq> None \<longrightarrow> map_of (ps_byKey (ap_store s)) n \<noteq> None)"
  using assms(3-)
proof (induction l arbitrary: s)
  case (Cons x l)
  obtain n k where x: "x = (n, k)" by fastforce
  show ?case
  proof (cases "map_of (ps_byKey (ap_store s)) n = None \<and> contents M (ap_map s) k \<noteq> None")
    case True
    let ?s = "s\<lparr>ap_map := snd (m_delete M (ap_map s) k)\<rparr>"
    have c: "contents M (ap_map ?s) = (contents M (ap_map s))(k := None)"
      using assms(1,2) by (auto simp: policy_map_law_def map_reliable_def del_result_def split: option.splits)
    have num: "lookup_num (ap_hash s) n = Some k" using Cons.prems(2) x by simp
    have i: "hn_inv (ap_hash s)" using Cons.prems(1) by (simp add: covered_def)
    have "j \<noteq> k" if "map_of (ps_byKey (ap_store s)) t = Some p" "lookup_num (ap_hash s) t = Some j" for t p j
      using that True num hn_inv_num [OF i] by (metis option.distinct(1) option.inject)
    then have cov: "covered M ?s" using Cons.prems(1) c by (auto simp: covered_def split: if_splits) metis
    have "remove_stale M l ?s = s'"
      using Cons.prems(3) True x by (auto simp: getAllPolicies_None contents_def split: sum.splits)
    from Cons.IH [OF cov _ this] show ?thesis using Cons.prems(2) c x by auto
  next
    case False
    then have "remove_stale M l s = s'"
      using Cons.prems(3) x by (auto simp: getAllPolicies_None contents_def split: sum.splits if_splits)
    from Cons.IH [OF Cons.prems(1) _ this] show ?thesis using Cons.prems(2) False x by auto
  qed
qed auto

lemma restart_exact:
  assumes "policy_map_law M" "map_reliable M" "covered M s"
  shows "covered M (handleRemovedAuthzPolicyDuringRestart M s) \<and> exact M (handleRemovedAuthzPolicyDuringRestart M s)"
proof -
  let ?s = "handleRemovedAuthzPolicyDuringRestart M s"
  have i: "hn_inv (ap_hash s)" using assms(3) by (simp add: covered_def)
  have "\<forall>(n, k) \<in> set (GetStrToNum (ap_hash s)). lookup_num (ap_hash s) n = Some k"
    using hn_inv_distinct [OF i] by (auto simp: GetStrToNum_def lookup_num_def)
  note r = stale_removed [OF assms this, of ?s]
  have all: "(n, k) \<in> set (GetStrToNum (ap_hash s))" if "numToStr (ap_hash s) k = Some n" for n k
    using that hn_inv_num [OF i, of n k] by (auto simp: GetStrToNum_def lookup_num_def dest: map_of_SomeD)
  have "map_of (ps_byKey (ap_store ?s)) n \<noteq> None" if "contents M (ap_map ?s) k \<noteq> None" "numToStr (ap_hash ?s) k = Some n" for n k
    using r that all by (fastforce simp: handleRemovedAuthzPolicyDuringRestart_def)
  then show ?thesis using r by (auto simp: exact_def handleRemovedAuthzPolicyDuringRestart_def)
qed



definition policy_list_ops :: "((u32 \<times> Authorization) list, u32, Authorization) map_ops" where
  "policy_list_ops = \<lparr>
     m_lookup = (\<lambda>m k. case map_of m k of None \<Rightarrow> Inl KeyNotExist | Some v \<Rightarrow> Inr v),
     m_update = (\<lambda>m k v. (None, AList.update k v m)),
     m_delete = (\<lambda>m k. (case map_of m k of None \<Rightarrow> Some KeyNotExist | Some _ \<Rightarrow> None, AList.delete k m)),
     m_iterate = AList.clearjunk\<rparr>"

lemma policy_list_ops_ok:
  "contents policy_list_ops = map_of" "policy_map_law policy_list_ops" "map_reliable policy_list_ops"
proof -
  show c: "contents policy_list_ops = map_of" by (auto simp: fun_eq_iff contents_def policy_list_ops_def split: option.splits)
  show "policy_map_law policy_list_ops"
    unfolding policy_map_law_def c
    by (auto simp: policy_list_ops_def put_result_def del_result_def update_conv' delete_conv' split: option.splits)
  show "map_reliable policy_list_ops" by (auto simp: map_reliable_def policy_list_ops_def split: option.splits)
qed

text \<open>A daemon that restarted: the kernel still has a policy of the last run, under number 5.\<close>

definition after_restart :: "(u32 \<times> Authorization) list authz_proc" where
  "after_restart = \<lparr>ap_hash = \<lparr>numToStr = [5 \<mapsto> ''ns/old''], strToNum = [(''ns/old'', 5)], persist = None\<rparr>,
     ap_store = newPolicyStore, ap_map = [(5, sample_policy Scope_GLOBAL Action_DENY [])], ap_once = False\<rparr>"

lemma after_restart_covered: "covered policy_list_ops after_restart"
  by (auto simp: covered_def policy_list_ops_ok(1) after_restart_def hn_inv_def lookup_num_def newPolicyStore_def
      split: if_splits)

lemma fnv32a_ns_p: "fnv32a ''ns/p'' < max_u32 \<and> fnv32a ''ns/p'' \<noteq> 5"
  by code_simp


end
