(* ===== verification/Maglev.thy ===== *)
theory Maglev
  imports Kmesh_Prelude
begin

text \<open>
  Consistent hashing for the listener mode: the 128-bit Murmur3 hash (\<open>pkg/utils/hash/murmur3.go\<close>)
  and the Maglev lookup table (\<open>pkg/consistenthash/maglev/maglev.go\<close>).  Integers keep their width
  and wrap around.  The seed and the table size are variables of the package, here arguments
  \<open>seed\<close> and \<open>m\<close>; the text form of an endpoint's address is produced by the protobuf library and is
  the argument \<open>addr_string\<close>.
\<close>

subsection \<open>Murmur3\<close>

definition rotl64 :: "u64 \<Rightarrow> nat \<Rightarrow> u64" where
  "rotl64 x r = push_bit r x OR drop_bit (64 - r) x"

definition fmix64 :: "u64 \<Rightarrow> u64" where
  "fmix64 k =
     (let k1 = k XOR drop_bit 33 k;
          k2 = k1 * 0xff51afd7ed558ccd;
          k3 = k2 XOR drop_bit 33 k2;
          k4 = k3 * 0xc4ceb9fe1a85ec53
      in k4 XOR drop_bit 33 k4)"

abbreviation (input) mur_c1 :: u64 where "mur_c1 \<equiv> 0x87c37b91114253d5"
abbreviation (input) mur_c2 :: u64 where "mur_c2 \<equiv> 0x4cf5ad432745937f"

definition le_get64 :: "bytes \<Rightarrow> u64" where
  "le_get64 b = foldr (\<lambda>x w. push_bit 8 w OR ucast x) (take 8 b) 0"

text \<open>The loop over the blocks of 16 bytes, and what is left of the data.\<close>

fun hash_blocks :: "nat \<Rightarrow> bytes \<Rightarrow> u64 \<Rightarrow> u64 \<Rightarrow> u64 \<times> u64 \<times> bytes" where
  "hash_blocks 0 data h1 h2 = (h1, h2, data)"
| "hash_blocks (Suc n) data h1 h2 =
     (let k1 = rotl64 (le_get64 data * mur_c1) 31 * mur_c2;
          k2 = rotl64 (le_get64 (drop 8 data) * mur_c2) 33 * mur_c1;
          g1 = (rotl64 (h1 XOR k1) 27 + h2) * 5 + 0x52dce729;
          g2 = (rotl64 (h2 XOR k2) 31 + g1) * 5 + 0x38495ab5
      in hash_blocks n (drop 16 data) g1 g2)"

text \<open>The cases of the switch, each falling through to the next.\<close>

definition hash_tail :: "bytes \<Rightarrow> u64 \<Rightarrow> u64 \<Rightarrow> u64 \<times> u64" where
  "hash_tail tail h1 h2 =
     (let r = length tail mod 16;
          k2 = fold (\<lambda>i k. k XOR push_bit (8 * (i - 8)) (ucast (tail ! i))) (rev [8..<r]) 0;
          h2' = (if r \<ge> 9 then h2 XOR (rotl64 (k2 * mur_c2) 33 * mur_c1) else h2);
          k1 = fold (\<lambda>i k. k XOR push_bit (8 * i) (ucast (tail ! i))) (rev [0..<min r 8]) 0;
          h1' = (if r \<ge> 1 then h1 XOR (rotl64 (k1 * mur_c1) 31 * mur_c2) else h1)
      in (h1', h2'))"

definition Hash128 :: "bytes \<Rightarrow> u32 \<Rightarrow> u64 \<times> u64" where
  "Hash128 data seed =
     (let (a1, a2, tail) = hash_blocks (length data div 16) data (ucast seed) (ucast seed);
          (b1, b2) = hash_tail tail a1 a2;
          c1 = b1 XOR of_nat (length data);
          c2 = b2 XOR of_nat (length data);
          d1 = c1 + c2;
          d2 = c2 + d1;
          e1 = fmix64 d1;
          e2 = fmix64 d2;
          f1 = e1 + e2
      in (f1, e2 + f1))"

subsection \<open>The lookup table\<close>

abbreviation DefaultTableSize :: u64 where "DefaultTableSize \<equiv> 16381"
abbreviation ClusterNameMaxLen :: nat where "ClusterNameMaxLen \<equiv> 192"

record 'e Backend =
  b_ep :: 'e
  b_index :: nat
  b_offset :: u64
  b_skip :: u64
  b_next :: u64

record 'e Cluster =
  cluster_name :: string
  cluster_localities :: "'e list list"

definition getOffsetAndSkip :: "u32 \<Rightarrow> string \<Rightarrow> u64 \<Rightarrow> u64 \<times> u64" where
  "getOffsetAndSkip seed address m =
     (let (h1, h2) = Hash128 (str_bytes address) seed in (h1 mod m, h2 mod (m - 1) + 1))"

definition getPermutation :: "u64 \<Rightarrow> 'e Backend \<Rightarrow> u64" where
  "getPermutation m b = (b_offset b + b_skip b * b_next b) mod m"

text \<open>
  The inner loops: step through the permutation of the backend until a free entry is found.  A
  loop that never finds one, and an index outside the table, are \<^const>\<open>None\<close>.
\<close>

partial_function (option) find_slot :: "u64 \<Rightarrow> int list \<Rightarrow> 'e Backend \<Rightarrow> (nat \<times> 'e Backend) option" where
  "find_slot m tbl b =
     (let c = unat (getPermutation m b)
      in if c \<ge> length tbl then None
         else if tbl ! c \<ge> 0 then find_slot m tbl (b\<lparr>b_next := b_next b + 1\<rparr>)
         else Some (c, b\<lparr>b_next := b_next b + 1\<rparr>))"

text \<open>The variable \<open>b\<close> is a copy of the backend, so its next position is forgotten after every round.\<close>

fun fill_table :: "u64 \<Rightarrow> 'e Backend list \<Rightarrow> nat list \<Rightarrow> int list \<Rightarrow> int list option" where
  "fill_table m backends [] tbl = Some tbl"
| "fill_table m backends (n # ns) tbl =
     (let b = backends ! (n mod length backends)
      in case find_slot m tbl b of
           None \<Rightarrow> None
         | Some (c, b') \<Rightarrow> fill_table m backends ns (tbl[c := int (b_index b)]))"

definition new_backends :: "('e \<Rightarrow> string) \<Rightarrow> u32 \<Rightarrow> u64 \<Rightarrow> 'e list \<Rightarrow> 'e Backend list" where
  "new_backends addr_string seed m eps =
     map (\<lambda>(i, ep). let (epOffset, epSkip) = getOffsetAndSkip seed (addr_string ep) m
                    in \<lparr>b_ep = ep, b_index = i, b_offset = epOffset, b_skip = epSkip, b_next = 0\<rparr>)
         (enumerate 0 eps)"

definition getLookupTable :: "('e \<Rightarrow> string) \<Rightarrow> u32 \<Rightarrow> u64 \<Rightarrow> 'e Cluster \<Rightarrow> u64 \<Rightarrow> (go_err + int list) option" where
  "getLookupTable addr_string seed m cluster tableSize =
     (let localityLbEps = cluster_localities cluster in
      if localityLbEps = [] then Some (Inl (GoErr ''has no any lb endpoints''))
      else (let flatEps = concat localityLbEps;
                backends = new_backends addr_string seed m flatEps
            in if backends = [] then Some (Inl (GoErr ''has no any lb backends''))
               else if m = 0 \<or> m = 1 then None
               else map_option Inr (fill_table m backends [0..<unat tableSize] (replicate (unat tableSize) (- 1)))))"

subsection \<open>Storing the table\<close>

definition maglevKey :: "string \<Rightarrow> bytes" where
  "maglevKey clusterName = take ClusterNameMaxLen (str_bytes clusterName @ replicate ClusterNameMaxLen 0)"

text \<open>
  The outer map leads from a cluster name to the inner map, whose one value is the table.  What
  the kernel answers to the creation of the inner map and to the two updates are arguments.
\<close>

type_synonym maglev_map = "bytes \<rightharpoonup> u32 list"

definition updateMaglevTable :: "go_err option \<Rightarrow> go_err option \<Rightarrow> go_err option \<Rightarrow> u32 list \<Rightarrow> string \<Rightarrow>
    maglev_map option \<Rightarrow> go_err option \<times> maglev_map option" where
  "updateMaglevTable e_new e_inner e_outer backendIDs clusterName outer =
     (case outer of
        None \<Rightarrow> (Some (GoErr ''outer maglev maps not yet initialized''), None)
      | Some om \<Rightarrow>
          if e_new \<noteq> None then (e_new, outer)
          else (case e_inner of
                  Some e \<Rightarrow> (Some (GoWrap ''updating backends of cluster'' e), outer)
                | None \<Rightarrow>
                   (case e_outer of
                      Some e \<Rightarrow> (Some (GoWrap ''updating cluster'' e), outer)
                    | None \<Rightarrow> (None, Some (om(maglevKey clusterName \<mapsto> backendIDs))))))"

definition CreateLB :: "('e \<Rightarrow> string) \<Rightarrow> u32 \<Rightarrow> u64 \<Rightarrow> go_err option \<Rightarrow> go_err option \<Rightarrow> go_err option \<Rightarrow> 'e Cluster option \<Rightarrow>
    maglev_map option \<Rightarrow> (go_err option \<times> maglev_map option) option" where
  "CreateLB addr_string seed m e_new e_inner e_outer cluster outer =
     (case cluster of
        None \<Rightarrow> Some (Some (GoErr ''cluster is nil''), outer)
      | Some cl \<Rightarrow>
          (case getLookupTable addr_string seed m cl m of
             None \<Rightarrow> None
           | Some (Inl err) \<Rightarrow> Some (Some err, outer)
           | Some (Inr tbl) \<Rightarrow>
               (case updateMaglevTable e_new e_inner e_outer (map of_int tbl) (cluster_name cl) outer of
                  (Some e, outer') \<Rightarrow> Some (Some (GoWrap ''updateMaglevTable fail'' e), outer')
                | (None, outer') \<Rightarrow> Some (None, outer'))))"

subsection \<open>Permutations\<close>

text \<open>16381 is prime: a common divisor with a smaller number would give a divisor of at most 127.\<close>

lemma no_small_divisor:
  assumes "2 \<le> d" "d < 128"
  shows "\<not> d dvd (16381 :: nat)"
proof -
  have "list_all (\<lambda>d. 16381 mod d \<noteq> (0 :: int)) [2..127]" by code_simp
  then have "\<forall>d \<in> {2..127}. 16381 mod d \<noteq> (0 :: int)" by (simp only: list_all_iff set_upto)
  moreover have "int d \<in> {2..127}" using assms by simp
  ultimately have "(16381 :: int) mod int d \<noteq> 0" by (rule bspec)
  then have "\<not> int d dvd int 16381" by (simp add: dvd_eq_mod_eq_0)
  then show ?thesis by (simp only: of_nat_dvd_iff not_False_eq_True)
qed

lemma coprime_size:
  assumes "0 < s" "s < 16381"
  shows "coprime s (16381 :: nat)"
proof (rule ccontr)
  assume "\<not> coprime s 16381"
  then obtain g where g: "g dvd s" "g dvd 16381" "\<not> is_unit g" by (rule not_coprimeE)
  then obtain q where q: "16381 = g * q" by (elim dvdE)
  have "g \<le> s" using g(1) assms(1) by (simp add: dvd_imp_le)
  then have "g < 16381" using assms(2) by simp
  then have "q \<noteq> 1" using q by auto
  moreover have "0 < g * q" by (simp only: q [symmetric])
  then have "g \<noteq> 0" "q \<noteq> 0" by simp_all
  ultimately have ge: "2 \<le> g" "2 \<le> q" using g(3) by (auto simp: nat_dvd_1_iff_1 numeral_2_eq_2 Suc_le_eq)
  have "g < 128 \<or> q < 128"
  proof (rule ccontr)
    assume "\<not> (g < 128 \<or> q < 128)"
    then have "128 * 128 \<le> g * q" by (intro mult_le_mono) simp_all
    then show False using q by simp
  qed
  then show False using no_small_divisor ge g(2) q by (metis dvd_triv_right)
qed

definition slot :: "nat \<Rightarrow> 'e Backend \<Rightarrow> nat \<Rightarrow> nat" where
  "slot M b i = (unat (b_offset b) + unat (b_skip b) * i) mod M"

lemma slot_bij:
  assumes "coprime (unat (b_skip b)) M" "0 < M"
  shows "slot M b ` {..<M} = {..<M}"
proof -
  let ?o = "unat (b_offset b)" and ?s = "unat (b_skip b)"
  have le: "i = j" if ij: "slot M b i = slot M b j" "i \<le> j" "j < M" for i j
  proof -
    have "M dvd (?o + ?s * j) - (?o + ?s * i)"
      using ij(1) mod_eq_dvd_iff_nat [of "?o + ?s * i" "?o + ?s * j" M] ij(2) by (simp add: slot_def)
    then have "M dvd ?s * (j - i)" by (simp add: diff_mult_distrib2)
    then have "M dvd j - i" using assms(1) by (simp add: coprime_dvd_mult_right_iff coprime_commute)
    then show "i = j" using ij(2,3) by (auto dest: dvd_imp_le)
  qed
  have "i = j" if "slot M b i = slot M b j" "i < M" "j < M" for i j
    using that le [of i j] le [of j i] by (cases "i \<le> j") auto
  then have "inj_on (slot M b) {..<M}" by (auto simp: inj_on_def)
  then have "card (slot M b ` {..<M}) = M" by (simp add: card_image)
  then show ?thesis using assms(2) by (intro card_subset_eq) (auto simp: slot_def)
qed

definition good_backend :: "'e Backend \<Rightarrow> bool" where
  "good_backend b \<longleftrightarrow> unat (b_offset b) < 16381 \<and> 0 < unat (b_skip b) \<and> unat (b_skip b) < 16381"

lemma getPermutation_slot:
  assumes "good_backend b" "unat (b_next b) \<le> 16381"
  shows "unat (getPermutation 16381 b) = slot 16381 b (unat (b_next b))"
proof -
  have "unat (b_skip b) * unat (b_next b) \<le> 16381 * 16381"
    using assms by (intro mult_le_mono) (simp_all add: good_backend_def)
  then have "unat (b_offset b) + unat (b_skip b) * unat (b_next b) < 2 ^ 64"
    using assms(1) by (simp add: good_backend_def)
  then have "unat (b_offset b + b_skip b * b_next b) = unat (b_offset b) + unat (b_skip b) * unat (b_next b)"
    by (simp add: unat_word_ariths)
  then show ?thesis by (simp add: getPermutation_def slot_def unat_mod)
qed


subsection \<open>The loops\<close>

text \<open>From any position before it, the search stops at the first free entry of the permutation.\<close>

lemma find_slot_finds:
  assumes "good_backend b" and "length tbl = 16381" and "unat (b_next b) \<le> i" "i < 16381"
    and "tbl ! slot 16381 b i < 0" and "\<forall>j. unat (b_next b) \<le> j \<and> j < i \<longrightarrow> 0 \<le> tbl ! slot 16381 b j"
  shows "find_slot 16381 tbl b = Some (slot 16381 b i, b\<lparr>b_next := of_nat (Suc i)\<rparr>)"
  using assms
proof (induction "i - unat (b_next b)" arbitrary: b)
  case 0
  then have i: "unat (b_next b) = i" by simp
  then have n: "b_next b = of_nat i" by (simp add: i [symmetric])
  have "unat (getPermutation 16381 b) = slot 16381 b i" using getPermutation_slot [OF 0(2)] 0(5) i by simp
  then show ?case using 0(3,6) n by (subst find_slot.simps) (simp add: slot_def Let_def add.commute)
next
  case (Suc k)
  let ?b = "b\<lparr>b_next := b_next b + 1\<rparr>"
  have lt: "unat (b_next b) < i" using Suc(2) by simp
  then have u: "unat (b_next b + 1) = Suc (unat (b_next b))" using Suc(6) by (simp add: unat_word_ariths)
  have sl: "slot 16381 ?b j = slot 16381 b j" for j by (simp add: slot_def)
  have "find_slot 16381 tbl ?b = Some (slot 16381 ?b i, ?b\<lparr>b_next := of_nat (Suc i)\<rparr>)"
    by (rule Suc(1)) (use Suc u sl lt in \<open>simp_all add: good_backend_def\<close>)
  moreover have "unat (getPermutation 16381 b) = slot 16381 b (unat (b_next b))"
    using getPermutation_slot [OF Suc(3)] Suc(6) lt by simp
  moreover have "0 \<le> tbl ! slot 16381 b (unat (b_next b))" using Suc(8) lt by simp
  ultimately show ?case using Suc(4) sl by (subst find_slot.simps) (simp add: slot_def Let_def)
qed

text \<open>While an entry is free, the search from the start of the permutation succeeds.\<close>

lemma find_slot_total:
  assumes "good_backend b" "b_next b = 0" and "length tbl = 16381" and "c < 16381" "tbl ! c < 0"
  obtains i where "i < 16381" "tbl ! slot 16381 b i < 0" "\<forall>j < i. 0 \<le> tbl ! slot 16381 b j"
    "find_slot 16381 tbl b = Some (slot 16381 b i, b\<lparr>b_next := of_nat (Suc i)\<rparr>)"
proof -
  have "coprime (unat (b_skip b)) 16381" using assms(1) by (intro coprime_size) (simp_all add: good_backend_def)
  then have "c \<in> slot 16381 b ` {..<16381}" using slot_bij [of b 16381] assms(4) by simp
  then obtain k where k: "k < 16381" "tbl ! slot 16381 b k < 0" using assms(5) by auto
  define i where "i = (LEAST i. tbl ! slot 16381 b i < 0)"
  have i: "tbl ! slot 16381 b i < 0" "i \<le> k" using k(2) by (auto simp: i_def intro: LeastI Least_le)
  have less: "\<forall>j < i. 0 \<le> tbl ! slot 16381 b j" using not_less_Least [of _ "\<lambda>i. tbl ! slot 16381 b i < 0"] by (auto simp: i_def not_less)
  have f: "find_slot 16381 tbl b = Some (slot 16381 b i, b\<lparr>b_next := of_nat (Suc i)\<rparr>)"
    by (rule find_slot_finds) (use assms k(1) i less in auto)
  show thesis by (rule that [OF _ i(1) less f]) (use i(2) k(1) in simp)
qed

lemma mset_fill:
  assumes "c < length tbl" "tbl ! c = - 1"
  shows "mset (tbl[c := v]) + {#- 1#} = mset tbl + {#v#}"
proof -
  have "- 1 \<in># mset tbl" using assms by (metis nth_mem set_mset_mset)
  then show ?thesis using assms by (simp add: mset_update)
qed

text \<open>After \<open>n\<close> rounds the entries are those of the first \<open>n\<close> turns, and the rest is free.\<close>

definition turns :: "nat \<Rightarrow> nat \<Rightarrow> int list" where
  "turns L n = map (\<lambda>k. int (k mod L)) [0..<n]"

definition after_rounds :: "nat \<Rightarrow> nat \<Rightarrow> int list \<Rightarrow> bool" where
  "after_rounds L n tbl \<longleftrightarrow> length tbl = 16381 \<and> mset tbl = mset (turns L n) + mset (replicate (16381 - n) (- 1))"

definition fresh_backends :: "'e Backend list \<Rightarrow> bool" where
  "fresh_backends bs \<longleftrightarrow> bs \<noteq> [] \<and>
     (\<forall>j < length bs. good_backend (bs ! j) \<and> b_next (bs ! j) = 0 \<and> b_index (bs ! j) = j)"

lemma after_rounds_entries:
  assumes "after_rounds L n tbl" "c < 16381" "tbl ! c < 0"
  shows "tbl ! c = - 1"
proof -
  have "tbl ! c \<in> set tbl" using assms(1,2) by (simp add: after_rounds_def)
  then have "tbl ! c \<in># mset tbl" by simp
  then have "tbl ! c \<in># mset (turns L n) + mset (replicate (16381 - n) (- 1))"
    using assms(1) by (simp only: after_rounds_def)
  then show ?thesis using assms(3) by (auto simp: turns_def split: if_splits)
qed

lemma after_rounds_free:
  assumes "after_rounds L n tbl" "n < 16381"
  obtains c where "c < 16381" "tbl ! c < 0"
proof -
  have "- 1 \<in># mset tbl" using assms by (simp add: after_rounds_def)
  then show thesis using that assms(1) by (auto simp: after_rounds_def in_set_conv_nth)
qed

lemma after_rounds_Suc:
  assumes "after_rounds L n tbl" "n < 16381" "c < 16381" "tbl ! c < 0"
  shows "after_rounds L (Suc n) (tbl[c := int (n mod L)])"
proof -
  have "replicate (16381 - n) (- 1 :: int) = - 1 # replicate (16381 - Suc n) (- 1)"
    using assms(2) by (metis Suc_diff_Suc replicate_Suc)
  moreover have "mset (tbl[c := int (n mod L)]) + {#- 1#} = mset tbl + {#int (n mod L)#}"
    using assms(1,3) after_rounds_entries [OF assms(1,3,4)] by (intro mset_fill) (simp_all add: after_rounds_def)
  ultimately show ?thesis using assms(1) by (simp add: after_rounds_def turns_def)
qed


lemma fill_table_total:
  assumes "fresh_backends bs" and "after_rounds (length bs) n tbl" "n \<le> 16381"
  shows "\<exists>tbl'. fill_table 16381 bs [n..<16381] tbl = Some tbl' \<and> after_rounds (length bs) 16381 tbl'"
  using assms(2,3)
proof (induction "16381 - n" arbitrary: n tbl)
  case 0
  then show ?case by simp
next
  case (Suc k)
  then have n: "n < 16381" by simp
  let ?j = "n mod length bs"
  have "?j < length bs" using assms(1) by (simp add: fresh_backends_def)
  then have b: "good_backend (bs ! ?j)" "b_next (bs ! ?j) = 0" "b_index (bs ! ?j) = ?j"
    using assms(1) by (simp_all add: fresh_backends_def)
  obtain c where c: "c < 16381" "tbl ! c < 0" using after_rounds_free [OF Suc.prems(1) n] .
  have "length tbl = 16381" using Suc.prems(1) by (simp add: after_rounds_def)
  then obtain i where i: "tbl ! slot 16381 (bs ! ?j) i < 0"
    "find_slot 16381 tbl (bs ! ?j) = Some (slot 16381 (bs ! ?j) i, (bs ! ?j)\<lparr>b_next := of_nat (Suc i)\<rparr>)"
    using find_slot_total [OF b(1,2) _ c] by metis
  let ?t = "tbl[slot 16381 (bs ! ?j) i := int ?j]"
  have s: "slot 16381 (bs ! ?j) i < 16381" by (simp add: slot_def)
  have "\<exists>tbl'. fill_table 16381 bs [Suc n..<16381] ?t = Some tbl' \<and> after_rounds (length bs) 16381 tbl'"
    by (rule Suc.hyps(1)) (use Suc.hyps(2) n after_rounds_Suc [OF Suc.prems(1) n s i(1)] in simp_all)
  then show ?case using i(2) b(3) by (simp add: upt_conv_Cons [OF n] Let_def)
qed

lemma offset_and_skip_range:
  assumes "getOffsetAndSkip seed a DefaultTableSize = (off, skip)"
  shows "unat off < 16381" "0 < unat skip" "unat skip < 16381"
proof -
  obtain h1 h2 where h: "off = h1 mod 16381" "skip = h2 mod 16380 + 1"
    using assms by (auto simp: getOffsetAndSkip_def split: prod.splits)
  have "h2 mod 16380 < 16380" "h1 mod 16381 < 16381" by (simp_all add: word_mod_less_divisor)
  then have lt: "unat (h2 mod 16380) < 16380" "unat (h1 mod 16381) < 16381" by (simp_all only: word_less_nat_alt) simp_all
  then have "unat (h2 mod 16380 + 1) = Suc (unat (h2 mod 16380))" by (simp add: unat_word_ariths)
  then show "unat off < 16381" "0 < unat skip" "unat skip < 16381" using lt h by simp_all
qed

lemma new_backends_nth:
  "j < length eps \<Longrightarrow> new_backends addr_string seed m eps ! j =
     (let (o', s) = getOffsetAndSkip seed (addr_string (eps ! j)) m
      in \<lparr>b_ep = eps ! j, b_index = j, b_offset = o', b_skip = s, b_next = 0\<rparr>)"
  by (simp add: new_backends_def nth_enumerate_eq)

lemma length_new_backends [simp]: "length (new_backends addr_string seed m eps) = length eps"
  by (simp add: new_backends_def)

lemma new_backends_fresh:
  assumes "eps \<noteq> []"
  shows "fresh_backends (new_backends addr_string seed 16381 eps)"
proof -
  have "good_backend (new_backends addr_string seed 16381 eps ! j) \<and> b_next (new_backends addr_string seed 16381 eps ! j) = 0 \<and>
      b_index (new_backends addr_string seed 16381 eps ! j) = j" if "j < length eps" for j
  proof -
    obtain off skip where os: "getOffsetAndSkip seed (addr_string (eps ! j)) 16381 = (off, skip)" by fastforce
    show ?thesis using new_backends_nth [OF that, of addr_string seed 16381] offset_and_skip_range [OF os]
      by (simp add: os good_backend_def)
  qed
  moreover have "new_backends addr_string seed 16381 eps \<noteq> []" using assms by (metis length_new_backends length_0_conv)
  ultimately show ?thesis by (simp add: fresh_backends_def)
qed

lemma after_rounds_0:
  assumes "M = 16381"
  shows "after_rounds L 0 (replicate M (- 1))"
  unfolding after_rounds_def turns_def assms [symmetric] by simp

lemma getLookupTable_runs:
  assumes "new_backends addr_string seed m (concat (cluster_localities cl)) \<noteq> []" and "m \<noteq> 0" "m \<noteq> 1"
  shows "getLookupTable addr_string seed m cl ts = map_option Inr
    (fill_table m (new_backends addr_string seed m (concat (cluster_localities cl))) [0..<unat ts] (replicate (unat ts) (- 1)))"
  using assms by (auto simp: getLookupTable_def Let_def new_backends_def)

lemma lookup_table_filled:
  assumes "concat (cluster_localities cl) \<noteq> []"
  shows "\<exists>tbl. getLookupTable addr_string seed DefaultTableSize cl DefaultTableSize = Some (Inr tbl) \<and>
     mset tbl = mset (map (\<lambda>k. int (k mod length (concat (cluster_localities cl)))) [0..<16381])"
proof -
  let ?eps = "concat (cluster_localities cl)" and ?bs = "new_backends addr_string seed 16381 (concat (cluster_localities cl))"
  have l: "length ?bs = length ?eps" by simp
  have ne: "?bs \<noteq> []" using assms l by (metis length_0_conv)
  have u: "unat DefaultTableSize = 16381" by simp
  obtain tbl where t: "fill_table 16381 ?bs [0..<16381] (replicate 16381 (- 1)) = Some tbl" "after_rounds (length ?bs) 16381 tbl"
    using fill_table_total [OF new_backends_fresh [OF assms] after_rounds_0 [OF refl]] by blast
  have "mset tbl = mset (turns (length ?bs) 16381)" using t(2) unfolding after_rounds_def by simp
  then have "mset tbl = mset (map (\<lambda>k. int (k mod length ?eps)) [0..<16381])" by (simp only: l turns_def)
  moreover have "getLookupTable addr_string seed DefaultTableSize cl DefaultTableSize = Some (Inr tbl)"
    using getLookupTable_runs [OF ne, of DefaultTableSize] t(1) unfolding u by (simp only: option.map) simp
  ultimately show ?thesis by blast
qed

text \<open>
  C10.  The lookup table.  For every cluster with an endpoint and the default size, building the
  table ends and fills it: as a multiset, its entries are those of taking turns, so that every
  entry is the index of an endpoint and the shares of any two endpoints differ by at most one.
\<close>

theorem maglev_table_full_and_balanced:
  assumes "concat (cluster_localities cl) \<noteq> []"
  shows "\<exists>tbl. getLookupTable addr_string seed DefaultTableSize cl DefaultTableSize = Some (Inr tbl) \<and>
     mset tbl = mset (map (\<lambda>k. int (k mod length (concat (cluster_localities cl)))) [0..<16381])"
  using assms by (rule lookup_table_filled)

theorem maglev_table_full_and_balanced_witness:
  "\<exists>tbl. getLookupTable id 7 DefaultTableSize \<lparr>cluster_name = ''c'', cluster_localities = [[''10.0.0.1'', ''10.0.0.2''], [''10.0.0.3'']]\<rparr>
       DefaultTableSize = Some (Inr tbl) \<and> mset tbl = mset (map (\<lambda>k. int (k mod 3)) [0..<16381])"
proof -
  let ?cl = "\<lparr>cluster_name = ''c'', cluster_localities = [[''10.0.0.1'', ''10.0.0.2''], [''10.0.0.3'']]\<rparr> :: string Cluster"
  have ne: "concat (cluster_localities ?cl) \<noteq> []" and l: "length (concat (cluster_localities ?cl)) = 3" by simp_all
  show ?thesis using maglev_table_full_and_balanced [OF ne, of id 7] unfolding l .
qed

subsection \<open>The reference algorithm\<close>

text \<open>Maglev as published: every backend goes on from where its last turn ended.\<close>

fun maglev_reference :: "u64 \<Rightarrow> 'e Backend list \<Rightarrow> nat list \<Rightarrow> int list \<Rightarrow> int list option" where
  "maglev_reference m backends [] tbl = Some tbl"
| "maglev_reference m backends (n # ns) tbl =
     (let j = n mod length backends
      in case find_slot m tbl (backends ! j) of
           None \<Rightarrow> None
         | Some (c, b') \<Rightarrow> maglev_reference m (backends[j := b']) ns (tbl[c := int (b_index b')]))"

text \<open>A backend that has gone on, but only past entries that are taken.\<close>

definition advanced :: "int list \<Rightarrow> 'e Backend \<Rightarrow> 'e Backend \<Rightarrow> bool" where
  "advanced tbl b b' \<longleftrightarrow> b' = b\<lparr>b_next := b_next b'\<rparr> \<and> (\<forall>j < unat (b_next b'). 0 \<le> tbl ! slot 16381 b j)"

lemma advanced_mono:
  assumes "advanced tbl b b'" "length tbl = 16381" "c < 16381" "0 \<le> v"
  shows "advanced (tbl[c := v]) b b'"
  using assms by (auto simp: advanced_def nth_list_update)

lemma find_slot_advanced:
  assumes "good_backend b" "b_next b = 0" "length tbl = 16381" "c < 16381" "tbl ! c < 0" and "advanced tbl b b'"
  obtains i where "i < 16381" "tbl ! slot 16381 b i < 0" "\<forall>j < i. 0 \<le> tbl ! slot 16381 b j"
    "find_slot 16381 tbl b = Some (slot 16381 b i, b\<lparr>b_next := of_nat (Suc i)\<rparr>)"
    "find_slot 16381 tbl b' = Some (slot 16381 b i, b\<lparr>b_next := of_nat (Suc i)\<rparr>)"
proof -
  obtain i where i: "i < 16381" "tbl ! slot 16381 b i < 0" "\<forall>j < i. 0 \<le> tbl ! slot 16381 b j"
    "find_slot 16381 tbl b = Some (slot 16381 b i, b\<lparr>b_next := of_nat (Suc i)\<rparr>)"
    using find_slot_total [OF assms(1-5)] .
  have b': "b' = b\<lparr>b_next := b_next b'\<rparr>" using assms(6) by (simp add: advanced_def)
  then have sl: "slot 16381 b' = slot 16381 b" by (metis (no_types, lifting) Backend.select_convs(3,4) Backend.surjective
        Backend.update_convs(5) slot_def ext)
  have g: "good_backend b'" using assms(1) b' by (metis (no_types, lifting) Backend.select_convs(3,4) Backend.surjective
        Backend.update_convs(5) good_backend_def)
  have le: "unat (b_next b') \<le> i"
    using assms(6) i(2) unfolding advanced_def by (metis not_le)
  have "find_slot 16381 tbl b' = Some (slot 16381 b' i, b'\<lparr>b_next := of_nat (Suc i)\<rparr>)"
    by (rule find_slot_finds [OF g assms(3) le i(1)]) (use i sl in simp_all)
  moreover have "b'\<lparr>b_next := of_nat (Suc i)\<rparr> = b\<lparr>b_next := of_nat (Suc i)\<rparr>" by (subst b') simp
  ultimately show thesis by (intro that [OF i]) (simp add: sl)
qed


lemma reference_agrees:
  assumes "fresh_backends bs" and "after_rounds (length bs) n tbl" "n \<le> 16381" and "length bs' = length bs"
    and "\<forall>j < length bs. advanced tbl (bs ! j) (bs' ! j)"
  shows "maglev_reference 16381 bs' [n..<16381] tbl = fill_table 16381 bs [n..<16381] tbl"
  using assms(2-)
proof (induction "16381 - n" arbitrary: n tbl bs')
  case 0
  then show ?case by simp
next
  case (Suc k)
  then have n: "n < 16381" by simp
  let ?j = "n mod length bs"
  have j: "?j < length bs" using assms(1) by (simp add: fresh_backends_def)
  then have b: "good_backend (bs ! ?j)" "b_next (bs ! ?j) = 0" "b_index (bs ! ?j) = ?j"
    using assms(1) by (simp_all add: fresh_backends_def)
  obtain c where c: "c < 16381" "tbl ! c < 0" using after_rounds_free [OF Suc.prems(1) n] .
  have l: "length tbl = 16381" using Suc.prems(1) by (simp add: after_rounds_def)
  obtain i where i: "i < 16381" "tbl ! slot 16381 (bs ! ?j) i < 0" "\<forall>k < i. 0 \<le> tbl ! slot 16381 (bs ! ?j) k"
    "find_slot 16381 tbl (bs ! ?j) = Some (slot 16381 (bs ! ?j) i, (bs ! ?j)\<lparr>b_next := of_nat (Suc i)\<rparr>)"
    "find_slot 16381 tbl (bs' ! ?j) = Some (slot 16381 (bs ! ?j) i, (bs ! ?j)\<lparr>b_next := of_nat (Suc i)\<rparr>)"
    by (rule find_slot_advanced [OF b(1,2) l c Suc.prems(4) [rule_format, OF j]])
  define b' t where "b' = (bs ! ?j)\<lparr>b_next := of_nat (Suc i)\<rparr>" and "t = tbl[slot 16381 (bs ! ?j) i := int ?j]"
  have s: "slot 16381 (bs ! ?j) i < 16381" by (simp add: slot_def)
  have u: "unat (of_nat (Suc i) :: u64) = Suc i" using i(1) by (simp add: unat_of_nat del: of_nat_Suc)
  have "0 \<le> t ! slot 16381 (bs ! ?j) k" if "k < Suc i" for k
    using that i(3) s l by (cases "k = i") (simp_all add: t_def nth_list_update)
  then have own: "advanced t (bs ! ?j) b'" by (simp add: advanced_def b'_def u del: of_nat_Suc)
  have "maglev_reference 16381 (bs'[?j := b']) [Suc n..<16381] t = fill_table 16381 bs [Suc n..<16381] t"
  proof (rule Suc.hyps(1))
    show "after_rounds (length bs) (Suc n) t" using after_rounds_Suc [OF Suc.prems(1) n s i(2)] by (simp add: t_def)
    show "\<forall>k < length bs. advanced t (bs ! k) (bs'[?j := b'] ! k)"
    proof (intro allI impI)
      fix k assume k: "k < length bs"
      have "advanced t (bs ! k) (bs' ! k)"
        using advanced_mono [OF Suc.prems(4) [rule_format, OF k] l s, of "int ?j"] by (simp add: t_def)
      then show "advanced t (bs ! k) (bs'[?j := b'] ! k)" using own Suc.prems(3) j by (cases "k = ?j") auto
    qed
  qed (use Suc n in simp_all)
  then show ?case
    using i(4,5) b(3) Suc.prems(3) by (simp add: upt_conv_Cons [OF n] Let_def b'_def t_def del: of_nat_Suc)
qed

text \<open>
  C33.  Restarting every turn from the beginning of the permutation makes no difference to the
  result: the table is the one of the published algorithm, in which every backend goes on from
  the position it has reached.
\<close>

theorem maglev_is_reference:
  assumes "concat (cluster_localities cl) \<noteq> []"
  shows "getLookupTable addr_string seed DefaultTableSize cl DefaultTableSize =
    map_option Inr (maglev_reference DefaultTableSize
      (new_backends addr_string seed DefaultTableSize (concat (cluster_localities cl))) [0..<16381] (replicate 16381 (- 1)))"
proof -
  let ?bs = "new_backends addr_string seed 16381 (concat (cluster_localities cl))"
  have ne: "?bs \<noteq> []" using assms by (metis length_new_backends length_0_conv)
  have f: "fresh_backends ?bs" by (rule new_backends_fresh [OF assms])
  then have "\<forall>j < length ?bs. advanced t (?bs ! j) (?bs ! j)" for t by (simp add: advanced_def fresh_backends_def)
  then have "maglev_reference 16381 ?bs [0..<16381] (replicate 16381 (- 1)) = fill_table 16381 ?bs [0..<16381] (replicate 16381 (- 1))"
    by (intro reference_agrees [OF f after_rounds_0 [OF refl]]) simp_all
  moreover have u: "unat DefaultTableSize = 16381" by simp
  ultimately show ?thesis using getLookupTable_runs [OF ne, of DefaultTableSize] unfolding u by (simp only:) simp
qed

theorem maglev_is_reference_witness:
  "getLookupTable id 7 DefaultTableSize \<lparr>cluster_name = ''c'', cluster_localities = [[''10.0.0.1'', ''10.0.0.2'']]\<rparr> DefaultTableSize =
    map_option Inr (maglev_reference DefaultTableSize (new_backends id 7 DefaultTableSize [''10.0.0.1'', ''10.0.0.2''])
      [0..<16381] (replicate 16381 (- 1)))"
proof -
  let ?cl = "\<lparr>cluster_name = ''c'', cluster_localities = [[''10.0.0.1'', ''10.0.0.2'']]\<rparr> :: string Cluster"
  have l: "concat (cluster_localities ?cl) = [''10.0.0.1'', ''10.0.0.2'']" by simp
  then have ne: "concat (cluster_localities ?cl) \<noteq> []" by simp
  show ?thesis using maglev_is_reference [OF ne, of id 7] unfolding l .
qed

end
