(* ===== verification/Cert_Manager.thy ===== *)
theory Cert_Manager
  imports Kmesh_Prelude
begin

text \<open>
  The manager of certificates (\<open>pkg/controller/security/manager.go\<close>): requests arrive on a channel
  and are handled one at a time; certificates are fetched by goroutines, one per request, that
  store the result or ask for a retry; a delaying queue sends a certificate back for rotation.

  The state holds the cache and everything that is under way: the requests in the channel, the
  fetches that have not returned, the timers that will send a retry, and the identities in the
  rotation queue.  A step of the relation \<open>cm_step\<close> is one handled request, one answer of the
  certificate authority, one timer or one element of the queue, in any order.  The queue and the
  authority are libraries and services: the queue may release an element at any time after it was
  added and keeps one entry per element, and the authority answers with any certificate or fails.
  A certificate is its time of expiry.
\<close>

record certItem =
  ci_cert :: "int option"
  ci_refCnt :: "32 word"

datatype cert_op = ADD | DELETE | RETRY | Rotate

datatype certRequest = certRequest (cr_Identity: string) (cr_Operation: cert_op)

record SecretManager =
  sm_certs :: "string \<rightharpoonup> certItem"
  sm_requests :: "certRequest list"
  sm_fetching :: "string list"
  sm_timers :: "string list"
  sm_rotateQueue :: "string set"

definition NewSecretManager :: SecretManager where
  "NewSecretManager = \<lparr>sm_certs = Map.empty, sm_requests = [], sm_fetching = [], sm_timers = [], sm_rotateQueue = {}\<rparr>"

subsection \<open>Operations\<close>

text \<open>The flag says whether there was an item already.\<close>

definition cc_addOrUpdate :: "string \<Rightarrow> (string \<rightharpoonup> certItem) \<Rightarrow> bool \<times> (string \<rightharpoonup> certItem)" where
  "cc_addOrUpdate identity c =
     (case c identity of
        Some item \<Rightarrow> (True, c(identity \<mapsto> item\<lparr>ci_refCnt := ci_refCnt item + 1\<rparr>))
      | None \<Rightarrow> (False, c(identity \<mapsto> \<lparr>ci_cert = None, ci_refCnt = 1\<rparr>)))"

definition StoreCert :: "string \<Rightarrow> int \<Rightarrow> SecretManager \<Rightarrow> SecretManager" where
  "StoreCert identity newCert s =
     (case sm_certs s identity of
        None \<Rightarrow> s
      | Some existing \<Rightarrow>
          if (case ci_cert existing of None \<Rightarrow> False | Some expire \<Rightarrow> newCert < expire) then s
          else s\<lparr>sm_certs := (sm_certs s)(identity \<mapsto> existing\<lparr>ci_cert := Some newCert\<rparr>),
                 sm_rotateQueue := insert identity (sm_rotateQueue s)\<rparr>)"

definition deleteCert :: "string \<Rightarrow> SecretManager \<Rightarrow> SecretManager" where
  "deleteCert identity s =
     (case sm_certs s identity of
        None \<Rightarrow> s
      | Some certificate \<Rightarrow>
          let certificate1 = certificate\<lparr>ci_refCnt := ci_refCnt certificate - 1\<rparr>
          in if ci_refCnt certificate1 = 0 then s\<lparr>sm_certs := (sm_certs s)(identity := None)\<rparr>
             else s\<lparr>sm_certs := (sm_certs s)(identity \<mapsto> certificate1)\<rparr>)"

definition go_fetchCert :: "string \<Rightarrow> SecretManager \<Rightarrow> SecretManager" where
  "go_fetchCert identity s = s\<lparr>sm_fetching := identity # sm_fetching s\<rparr>"

text \<open>The expiry is read even if there is no certificate yet; the comparison only decides what is logged.\<close>

definition rotateCert :: "string \<Rightarrow> SecretManager \<Rightarrow> SecretManager option" where
  "rotateCert identity s =
     (case sm_certs s identity of
        None \<Rightarrow> Some s
      | Some certificate \<Rightarrow>
          (case ci_cert certificate of
             None \<Rightarrow> None
           | Some expire \<Rightarrow> Some (go_fetchCert identity s)))"

definition retryFetchCert :: "string \<Rightarrow> SecretManager \<Rightarrow> SecretManager" where
  "retryFetchCert identity s =
     (case sm_certs s identity of None \<Rightarrow> s | Some certificate \<Rightarrow> go_fetchCert identity s)"

definition handle_request :: "certRequest \<Rightarrow> SecretManager \<Rightarrow> SecretManager option" where
  "handle_request data s =
     (case cr_Operation data of
        ADD \<Rightarrow>
          (case cc_addOrUpdate (cr_Identity data) (sm_certs s) of (found, c) \<Rightarrow>
             if found then Some (s\<lparr>sm_certs := c\<rparr>) else Some (go_fetchCert (cr_Identity data) (s\<lparr>sm_certs := c\<rparr>)))
      | RETRY \<Rightarrow> Some (retryFetchCert (cr_Identity data) s)
      | DELETE \<Rightarrow> Some (deleteCert (cr_Identity data) s)
      | Rotate \<Rightarrow> rotateCert (cr_Identity data) s)"

definition SendCertRequest :: "string \<Rightarrow> cert_op \<Rightarrow> SecretManager \<Rightarrow> SecretManager" where
  "SendCertRequest identity op s = s\<lparr>sm_requests := sm_requests s @ [certRequest identity op]\<rparr>"

text \<open>\<open>fetchCert\<close> once the authority has answered: \<open>None\<close> is an error.\<close>

definition fetchCert_answered :: "string \<Rightarrow> int option \<Rightarrow> SecretManager \<Rightarrow> SecretManager" where
  "fetchCert_answered identity answer s =
     (let s1 = s\<lparr>sm_fetching := remove1 identity (sm_fetching s)\<rparr>
      in case answer of
           None \<Rightarrow> s1\<lparr>sm_timers := identity # sm_timers s1\<rparr>
         | Some newCert \<Rightarrow> StoreCert identity newCert s1)"

subsection \<open>Steps\<close>

text \<open>A send waits while the channel, of capacity \<open>cap\<close>, is full.\<close>

inductive cm_step :: "nat \<Rightarrow> SecretManager \<Rightarrow> SecretManager \<Rightarrow> bool" for cap where
  client: "length (sm_requests s) < cap \<Longrightarrow> op = ADD \<or> op = DELETE \<Longrightarrow> cm_step cap s (SendCertRequest i op s)"
| handle: "sm_requests s = r # rest \<Longrightarrow> handle_request r (s\<lparr>sm_requests := rest\<rparr>) = Some s' \<Longrightarrow> cm_step cap s s'"
| answer: "i \<in> set (sm_fetching s) \<Longrightarrow> cm_step cap s (fetchCert_answered i a s)"
| timer: "i \<in> set (sm_timers s) \<Longrightarrow> length (sm_requests s) < cap \<Longrightarrow>
    cm_step cap s (SendCertRequest i RETRY (s\<lparr>sm_timers := remove1 i (sm_timers s)\<rparr>))"
| rotateCerts: "i \<in> sm_rotateQueue s \<Longrightarrow> length (sm_requests s) < cap \<Longrightarrow>
    cm_step cap s (SendCertRequest i Rotate (s\<lparr>sm_rotateQueue := sm_rotateQueue s - {i}\<rparr>))"

text \<open>The counter wraps around only with \<open>2 ^ 32 - 1\<close> references to one identity.\<close>

definition refs_bounded :: "SecretManager \<Rightarrow> bool" where
  "refs_bounded s \<longleftrightarrow> (\<forall>i item. sm_certs s i = Some item \<longrightarrow> ci_refCnt item \<noteq> - 1)"

inductive cm_reachable :: "nat \<Rightarrow> SecretManager \<Rightarrow> bool" for cap where
  start: "cm_reachable cap NewSecretManager"
| step: "cm_reachable cap s \<Longrightarrow> refs_bounded s \<Longrightarrow> cm_step cap s s' \<Longrightarrow> cm_reachable cap s'"

inductive_cases cm_stepE: "cm_step cap s s'"

subsection \<open>Properties\<close>

text \<open>A certificate that is missing is being fetched, or a retry is on its way.\<close>

definition fetch_pending :: "SecretManager \<Rightarrow> string \<Rightarrow> bool" where
  "fetch_pending s i \<longleftrightarrow> i \<in> set (sm_fetching s) \<or> i \<in> set (sm_timers s) \<or> certRequest i RETRY \<in> set (sm_requests s)"

definition cm_inv :: "SecretManager \<Rightarrow> bool" where
  "cm_inv s \<longleftrightarrow> (\<forall>i item. sm_certs s i = Some item \<longrightarrow>
     ci_refCnt item \<noteq> 0 \<and> (ci_cert item = None \<longrightarrow> fetch_pending s i))"

lemma cm_invD:
  "cm_inv s \<Longrightarrow> sm_certs s i = Some item \<Longrightarrow> ci_refCnt item \<noteq> 0"
  "cm_inv s \<Longrightarrow> sm_certs s i = Some item \<Longrightarrow> ci_cert item = None \<Longrightarrow> fetch_pending s i"
  by (simp_all add: cm_inv_def)

lemma in_remove1: "j \<noteq> i \<Longrightarrow> j \<in> set (remove1 i xs) \<longleftrightarrow> j \<in> set xs"
  by (induction xs) auto

lemma cm_inv_handle:
  assumes "cm_inv s" "refs_bounded s" "sm_requests s = r # rest" "handle_request r (s\<lparr>sm_requests := rest\<rparr>) = Some s'"
  shows "cm_inv s'"
proof -
  obtain i op where r: "r = certRequest i op" by (cases r)
  note inv = cm_invD(1) [OF assms(1)] cm_invD(2) [OF assms(1), unfolded fetch_pending_def assms(3) r]
  note run = assms(4) [unfolded r handle_request_def certRequest.sel]
  show ?thesis
  proof (cases op)
    case ADD
    have "ci_refCnt item + 1 \<noteq> 0" if "sm_certs s i = Some item" for item
      using assms(2) that by (auto simp: refs_bounded_def eq_neg_iff_add_eq_0)
    then show ?thesis using run ADD
      by (auto simp: cc_addOrUpdate_def cm_inv_def go_fetchCert_def fetch_pending_def split: option.splits if_splits) (use inv in \<open>fastforce+\<close>)
  next
    case RETRY
    then show ?thesis using run
      by (auto simp: retryFetchCert_def cm_inv_def go_fetchCert_def fetch_pending_def split: option.splits if_splits) (use inv in \<open>fastforce+\<close>)
  next
    case DELETE
    then show ?thesis using run
      by (auto simp: deleteCert_def cm_inv_def fetch_pending_def Let_def split: option.splits if_splits) (use inv in \<open>fastforce+\<close>)
  next
    case Rotate
    then show ?thesis using run
      by (auto simp: rotateCert_def cm_inv_def go_fetchCert_def fetch_pending_def split: option.splits if_splits) (use inv in \<open>fastforce+\<close>)
  qed
qed

lemma cm_inv_answer:
  assumes "cm_inv s"
  shows "cm_inv (fetchCert_answered i a s)"
proof -
  have inv: "ci_refCnt item \<noteq> 0"
    "ci_cert item = None \<Longrightarrow> j = i \<or> j \<in> set (remove1 i (sm_fetching s)) \<or> j \<in> set (sm_timers s) \<or> certRequest j RETRY \<in> set (sm_requests s)"
    if "sm_certs s j = Some item" for j item
    using cm_invD [OF assms that] by (auto simp: fetch_pending_def in_remove1)
  show ?thesis
  proof (cases a)
    case None
    then show ?thesis using inv by (auto simp: fetchCert_answered_def cm_inv_def fetch_pending_def Let_def)
  next
    case (Some c)
    then show ?thesis
      by (auto simp: fetchCert_answered_def StoreCert_def cm_inv_def fetch_pending_def Let_def split: option.splits if_splits)
        (use inv in \<open>fastforce+\<close>)
  qed
qed

lemma cm_inv_send:
  assumes "cm_inv s"
  shows "cm_inv (SendCertRequest i op s)"
    and "cm_inv (SendCertRequest i RETRY (s\<lparr>sm_timers := remove1 i (sm_timers s)\<rparr>))"
    and "cm_inv (SendCertRequest i Rotate (s\<lparr>sm_rotateQueue := q\<rparr>))"
proof -
  note inv = cm_invD(1) [OF assms] cm_invD(2) [OF assms, unfolded fetch_pending_def]
  show "cm_inv (SendCertRequest i op s)" "cm_inv (SendCertRequest i Rotate (s\<lparr>sm_rotateQueue := q\<rparr>))"
    by (auto simp: SendCertRequest_def cm_inv_def fetch_pending_def dest: inv)
  have "j = i \<or> j \<in> set (sm_fetching s) \<or> j \<in> set (remove1 i (sm_timers s)) \<or> certRequest j RETRY \<in> set (sm_requests s)"
    if "sm_certs s j = Some item" "ci_cert item = None" for j item
    using inv(2) [OF that] by (auto simp: in_remove1)
  then show "cm_inv (SendCertRequest i RETRY (s\<lparr>sm_timers := remove1 i (sm_timers s)\<rparr>))"
    by (auto simp: SendCertRequest_def cm_inv_def fetch_pending_def dest: inv(1))
qed

lemma cm_inv_step: "cm_step cap s s' \<Longrightarrow> cm_inv s \<Longrightarrow> refs_bounded s \<Longrightarrow> cm_inv s'"
  by (erule cm_stepE) (auto intro: cm_inv_send cm_inv_answer cm_inv_handle)


text \<open>
  C15.  As long as no identity has \<open>2 ^ 32 - 1\<close> references, no identity is forgotten: in every
  reachable state an identity that is in the cache has references, and if its certificate is
  missing, a fetch of it is running, a timer is set, or a request to retry is in the channel,
  whatever the order of requests, answers, failures and rotations.
\<close>

theorem no_identity_forgotten:
  assumes "cm_reachable cap s" and "sm_certs s i = Some item"
  shows "ci_refCnt item \<noteq> 0 \<and> (ci_cert item = None \<longrightarrow>
    i \<in> set (sm_fetching s) \<or> i \<in> set (sm_timers s) \<or> certRequest i RETRY \<in> set (sm_requests s))"
proof -
  have "cm_inv s" using assms(1)
  proof induction
    case start
    show ?case by (simp add: cm_inv_def NewSecretManager_def)
  next
    case (step s s')
    then show ?case by (blast intro: cm_inv_step)
  qed
  then show ?thesis using assms(2) by (simp add: cm_inv_def fetch_pending_def)
qed

text \<open>An identity that is added: the request, and what is left when it has been handled.\<close>

definition cm_state :: "(string \<rightharpoonup> certItem) \<Rightarrow> certRequest list \<Rightarrow> string list \<Rightarrow> string set \<Rightarrow> SecretManager" where
  "cm_state c r f q = \<lparr>sm_certs = c, sm_requests = r, sm_fetching = f, sm_timers = [], sm_rotateQueue = q\<rparr>"

abbreviation (input) new_item :: certItem where "new_item \<equiv> \<lparr>ci_cert = None, ci_refCnt = 1\<rparr>"

lemma refs_bounded_one: "refs_bounded (cm_state [i \<mapsto> \<lparr>ci_cert = c, ci_refCnt = 1\<rparr>] r f q)" "refs_bounded (cm_state Map.empty r f q)"
  by (simp_all add: refs_bounded_def cm_state_def)

lemma cm_add:
  assumes "0 < cap" "cm_reachable cap (cm_state Map.empty [] f q)"
  shows "cm_reachable cap (cm_state [i \<mapsto> new_item] [] (i # f) q)"
proof -
  have "cm_step cap (cm_state Map.empty [] f q) (cm_state Map.empty [certRequest i ADD] f q)"
    using cm_step.client [of "cm_state Map.empty [] f q" cap ADD i] assms(1) by (simp add: cm_state_def SendCertRequest_def)
  moreover have "cm_step cap (cm_state Map.empty [certRequest i ADD] f q) (cm_state [i \<mapsto> new_item] [] (i # f) q)"
    by (rule cm_step.handle [where r = "certRequest i ADD" and rest = "[]"])
      (simp_all add: cm_state_def handle_request_def cc_addOrUpdate_def go_fetchCert_def)
  ultimately show ?thesis using assms(2) refs_bounded_one(2) by (blast intro: cm_reachable.step)
qed

lemma cm_empty_with_rotation:
  assumes "0 < cap"
  shows "cm_reachable cap (cm_state Map.empty [] [] {i})"
proof -
  let ?stored = "[i \<mapsto> \<lparr>ci_cert = Some 0, ci_refCnt = 1\<rparr>] :: string \<rightharpoonup> certItem"
  have "cm_reachable cap (cm_state Map.empty [] [] {})"
    using cm_reachable.start by (simp add: NewSecretManager_def cm_state_def)
  from cm_add [OF assms this] have "cm_reachable cap (cm_state [i \<mapsto> new_item] [] [i] {})" .
  moreover have "cm_step cap (cm_state [i \<mapsto> new_item] [] [i] {}) (cm_state ?stored [] [] {i})"
    using cm_step.answer [of i "cm_state [i \<mapsto> new_item] [] [i] {}" cap "Some 0"]
    by (simp add: cm_state_def fetchCert_answered_def StoreCert_def Let_def)
  moreover have "cm_step cap (cm_state ?stored [] [] {i}) (cm_state ?stored [certRequest i DELETE] [] {i})"
    using cm_step.client [of "cm_state ?stored [] [] {i}" cap DELETE i] assms by (simp add: cm_state_def SendCertRequest_def)
  moreover have "cm_step cap (cm_state ?stored [certRequest i DELETE] [] {i}) (cm_state Map.empty [] [] {i})"
    by (rule cm_step.handle [where r = "certRequest i DELETE" and rest = "[]"])
      (simp_all add: cm_state_def handle_request_def deleteCert_def Let_def)
  ultimately show ?thesis using refs_bounded_one(1) by (blast intro: cm_reachable.step)
qed

text \<open>
  C27.  The manager can crash.  If an identity is added, its certificate stored, the identity
  deleted and added again, then the rotation that was scheduled for the first certificate may be
  handled before the second one has arrived; the handler then reads the expiry of a certificate
  that is not there.
\<close>

theorem rotation_of_readded_identity_panics:
  assumes "0 < cap"
  shows "\<exists>s rest. cm_reachable cap s \<and> sm_requests s = certRequest i Rotate # rest \<and>
    handle_request (certRequest i Rotate) (s\<lparr>sm_requests := rest\<rparr>) = None"
proof -
  let ?s = "cm_state [i \<mapsto> new_item] [certRequest i Rotate] [i] {}"
  have "cm_reachable cap (cm_state [i \<mapsto> new_item] [] [i] {i})"
    using cm_add [OF assms cm_empty_with_rotation [OF assms]] .
  moreover have "cm_step cap (cm_state [i \<mapsto> new_item] [] [i] {i}) ?s"
    using cm_step.rotateCerts [of i "cm_state [i \<mapsto> new_item] [] [i] {i}" cap] assms
    by (simp add: cm_state_def SendCertRequest_def)
  ultimately have "cm_reachable cap ?s" using refs_bounded_one(1) by (blast intro: cm_reachable.step)
  moreover have "handle_request (certRequest i Rotate) (?s\<lparr>sm_requests := []\<rparr>) = None"
    by (simp add: cm_state_def handle_request_def rotateCert_def)
  ultimately show ?thesis by (intro exI [of _ ?s] exI [of _ "[]"]) (simp add: cm_state_def)
qed

theorem rotation_of_readded_identity_panics_witness:
  "\<exists>s rest. cm_reachable 128 s \<and> sm_requests s = certRequest ''spiffe://td/ns/a/sa/b'' Rotate # rest \<and>
    handle_request (certRequest ''spiffe://td/ns/a/sa/b'' Rotate) (s\<lparr>sm_requests := rest\<rparr>) = None"
  by (rule rotation_of_readded_identity_panics) simp

theorem no_identity_forgotten_witness:
  "cm_reachable 128 (cm_state [''a'' \<mapsto> new_item] [] [''a''] {}) \<and> ''a'' \<in> set (sm_fetching (cm_state [''a'' \<mapsto> new_item] [] [''a''] {}))"
proof -
  have "cm_reachable 128 (cm_state Map.empty [] [] {})"
    using cm_reachable.start by (simp add: NewSecretManager_def cm_state_def)
  from cm_add [OF _ this, of "''a''"] have r: "cm_reachable 128 (cm_state [''a'' \<mapsto> new_item] [] [''a''] {})" by simp
  show ?thesis using no_identity_forgotten [OF r, of "''a''" new_item] r by (simp add: cm_state_def)
qed

end
