(* ===== verification/Ads_Types.thy ===== *)
theory Ads_Types
  imports Ip_Text
begin

text \<open>
  The messages of the listener mode.  The first part has the messages of \<open>api/v2\<close> that the daemon
  writes into bpf maps.  The second part has the Envoy messages it receives, whose types come from
  third-party packages: of each message the fields that the code reads.  A pointer that may be nil
  is an option; a oneof is a datatype with a case for everything the code does not distinguish.
  A message packed into an \<open>Any\<close> is its bytes, and unpacking is a function of \<open>ads_codec\<close>.
\<close>

subsection \<open>api/v2\<close>

datatype ApiStatus = ApiStatus_NONE | ApiStatus_DELETE | ApiStatus_UPDATE | ApiStatus_UNCHANGED | ApiStatus_ALL | ApiStatus_WAITING

datatype SocketAddress_Protocol = SocketAddress_TCP | SocketAddress_UDP

record SocketAddress =
  sa_Protocol :: SocketAddress_Protocol
  sa_Port :: u32
  sa_Ipv4 :: u32

datatype CidrRange = CidrRange (cr_AddressPrefix: string) (cr_PrefixLen: u32)

datatype ApiEndpoint = ApiEndpoint (ep_Address: "SocketAddress option")

record LocalityLbEndpoints =
  le_LbEndpoints :: "ApiEndpoint list"
  le_LoadBalancingWeight :: u32
  le_Priority :: u32

record ClusterLoadAssignment =
  la_ClusterName :: string
  la_Endpoints :: "LocalityLbEndpoints list"

record CircuitBreakers =
  cb_Priority :: u32
  cb_MaxConnections :: u32
  cb_MaxPendingRequests :: u32
  cb_MaxRequests :: u32
  cb_MaxRetries :: u32
  cb_MaxConnectionPools :: u32

record ApiCluster =
  ac_ApiStatus :: ApiStatus
  ac_Name :: string
  ac_Id :: u32
  ac_ConnectTimeout :: u32
  ac_LbPolicy :: u32
  ac_LoadAssignment :: "ClusterLoadAssignment option"
  ac_CircuitBreakers :: "CircuitBreakers option"

abbreviation (input) Cluster_MAGLEV :: u32 where "Cluster_MAGLEV \<equiv> 5"

datatype HeaderSpecifier = HeaderMatcher_ExactMatch string | HeaderMatcher_PrefixMatch string

datatype HeaderMatcher = HeaderMatcher (hm_Name: string) (hm_HeaderMatchSpecifier: "HeaderSpecifier option")

record RouteMatch =
  rm_Prefix :: string
  rm_CaseSensitive :: bool
  rm_Headers :: "HeaderMatcher list"

datatype ClusterSpecifier = RouteAction_Cluster string | RouteAction_WeightedClusters "(string \<times> u32) list"

text \<open>A hash policy is the name of its header.\<close>

record RouteAction =
  ra_ClusterSpecifier :: "ClusterSpecifier option"
  ra_Timeout :: u32
  ra_NumRetries :: "u32 option"
  ra_HashPolicy :: "string list"

record ApiRoute =
  ar_Name :: string
  ar_Match :: RouteMatch
  ar_Route :: "RouteAction option"

text \<open>An element of the routes may be nil.\<close>

record VirtualHost =
  vh_Name :: string
  vh_Domains :: "string list"
  vh_Routes :: "ApiRoute option list"

record RouteConfiguration =
  rc_ApiStatus :: ApiStatus
  rc_Name :: string
  rc_VirtualHosts :: "VirtualHost list"

record FilterChainMatch =
  fm_PrefixRanges :: "CidrRange list"
  fm_DestinationPort :: u32
  fm_TransportProtocol :: string
  fm_ApplicationProtocols :: "string list"

datatype RouteSpecifier = HCM_RouteConfigName string | HCM_RouteConfig RouteConfiguration

record TcpProxy =
  tp_StatPrefix :: string
  tp_ClusterSpecifier :: "ClusterSpecifier option"
  tp_MaxConnectAttempts :: u32

datatype FilterConfig = Filter_TcpProxy TcpProxy | Filter_HttpConnectionManager "RouteSpecifier option"

datatype Filter = Filter (fi_Name: string) (fi_ConfigType: FilterConfig)

record FilterChain =
  fc_FilterChainMatch :: FilterChainMatch
  fc_Filters :: "Filter list"
  fc_Name :: string

record Listener =
  li_ApiStatus :: ApiStatus
  li_Name :: string
  li_Address :: "SocketAddress option"
  li_FilterChains :: "FilterChain list"

subsection \<open>Envoy\<close>

type_synonym any_msg = bytes

record env_socket =
  es_protocol :: SocketAddress_Protocol
  es_address :: string
  es_port :: u32

datatype env_address = Address_SocketAddress env_socket | Address_Other

text \<open>An endpoint of a load assignment is its address, if it has an endpoint with an address.\<close>

record env_locality =
  el_endpoints :: "env_address option list"
  el_weight :: "u32 option"
  el_priority :: u32

record env_assignment =
  ea_cluster_name :: string
  ea_endpoints :: "env_locality list"

record env_threshold =
  et_priority :: u32
  et_max_connections :: "u32 option"
  et_max_pending_requests :: "u32 option"
  et_max_requests :: "u32 option"
  et_max_retries :: "u32 option"
  et_max_connection_pools :: "u32 option"

datatype env_discovery = Cluster_STATIC | Cluster_STRICT_DNS | Cluster_LOGICAL_DNS | Cluster_EDS | Cluster_ORIGINAL_DST

record env_cluster =
  ecl_name :: string
  ecl_type :: env_discovery
  ecl_connect_timeout :: "64 word option"
  ecl_lb_policy :: u32
  ecl_circuit_breakers :: "env_threshold list option"
  ecl_load_assignment :: "env_assignment option"
  ecl_dns_refresh_rate :: "int option"

datatype env_string_match = StringMatcher_Exact string | StringMatcher_Prefix string | StringMatcher_Other

datatype env_header_spec = EHM_PrefixMatch string | EHM_ExactMatch string | EHM_StringMatch env_string_match | EHM_Other

datatype env_header = env_header (eh_name: string) (eh_spec: env_header_spec)

record env_match =
  em_prefix :: string
  em_case_sensitive :: "bool option"
  em_headers :: "env_header list"

datatype env_cluster_spec = ECS_Cluster string | ECS_Weighted "(string \<times> u32 option) list" | ECS_Other

datatype env_hash_policy = EHP_Header string | EHP_Other

record env_route_action =
  era_timeout :: "64 word option"
  era_num_retries :: "u32 option"
  era_cluster :: env_cluster_spec
  era_hash_policy :: "env_hash_policy list"

datatype env_action = Route_Route env_route_action | Route_FilterAction | Route_Redirect | Route_Other

record env_route =
  er_name :: string
  er_match :: "env_match option"
  er_action :: env_action

record env_virtual_host =
  ev_name :: string
  ev_domains :: "string list"
  ev_routes :: "env_route list"

record env_route_config =
  erc_name :: string
  erc_virtual_hosts :: "env_virtual_host list"

record env_tcp_proxy =
  etp_stat_prefix :: string
  etp_cluster :: "ClusterSpecifier option"
  etp_max_connect_attempts :: "u32 option"

record env_http =
  ehc_route_config :: "env_route_config option"
  ehc_rds :: "string option"

datatype env_filter_config = Filter_TypedConfig any_msg | Filter_ConfigDiscovery | Filter_NoConfig

datatype env_filter = env_filter (ef_name: string) (ef_config: env_filter_config)

record env_chain_match =
  ecm_prefix_ranges :: "(string \<times> u32 option) list"
  ecm_destination_port :: "u32 option"
  ecm_transport_protocol :: string
  ecm_application_protocols :: "string list"

record env_chain =
  ech_name :: string
  ech_match :: "env_chain_match option"
  ech_filters :: "env_filter list"

record env_listener =
  eli_name :: string
  eli_address :: "env_address option"
  eli_filter_chains :: "env_chain list"

text \<open>
  The libraries: unpacking of messages, their text form and the hash of a text.  \<open>None\<close> is an
  error of unpacking.
\<close>

record ads_codec =
  un_cluster :: "any_msg \<Rightarrow> env_cluster option"
  un_assignment :: "any_msg \<Rightarrow> env_assignment option"
  un_listener :: "any_msg \<Rightarrow> env_listener option"
  un_route :: "any_msg \<Rightarrow> env_route_config option"
  un_tcp :: "any_msg \<Rightarrow> env_tcp_proxy option"
  un_http :: "any_msg \<Rightarrow> env_http option"
  any_text :: "any_msg \<Rightarrow> string"
  Sum64String :: "string \<Rightarrow> u64"

text \<open>\<open>GetValue\<close> of a wrapper that may be nil.\<close>

definition GetValue :: "'a::zero option \<Rightarrow> 'a" where
  "GetValue w = (case w of None \<Rightarrow> 0 | Some v \<Rightarrow> v)"

end
