(* ===== verification/Ads_Convert.thy ===== *)
theory Ads_Convert
  imports Ads_Types
begin

text \<open>
  Translation of Envoy's clusters, listeners and routes into the messages of the bpf maps
  (\<open>pkg/controller/ads/cache.go\<close> and \<open>convert_filter.go\<close>).  An address is converted by
  \<open>ConvertIpToUint32\<close>, which panics on IPv6; the panic is the outer \<open>None\<close> of every function that
  can reach it.
\<close>

subsection \<open>Clusters\<close>

definition newApiSocketAddress :: "env_address option \<Rightarrow> SocketAddress option option" where
  "newApiSocketAddress address =
     (case address of
        None \<Rightarrow> Some None
      | Some Address_Other \<Rightarrow> Some None
      | Some (Address_SocketAddress addr) \<Rightarrow>
          if es_protocol addr \<noteq> SocketAddress_TCP then Some None
          else (case ConvertIpToUint32 (es_address addr) of
                  None \<Rightarrow> None
                | Some ip \<Rightarrow> Some (Some \<lparr>sa_Protocol = es_protocol addr, sa_Port = ConvertPortToBigEndian (es_port addr), sa_Ipv4 = ip\<rparr>)))"

fun convert_endpoints :: "env_address option list \<Rightarrow> ApiEndpoint list \<Rightarrow> ApiEndpoint list option" where
  "convert_endpoints [] out = Some out"
| "convert_endpoints (e # es) out =
     (case newApiSocketAddress e of
        None \<Rightarrow> None
      | Some None \<Rightarrow> convert_endpoints es out
      | Some (Some a) \<Rightarrow>
          if sa_Ipv4 a = 0 then convert_endpoints es out else convert_endpoints es (out @ [ApiEndpoint (Some a)]))"

fun convert_localities :: "env_locality list \<Rightarrow> LocalityLbEndpoints list \<Rightarrow> LocalityLbEndpoints list option" where
  "convert_localities [] out = Some out"
| "convert_localities (l # ls) out =
     (case convert_endpoints (el_endpoints l) [] of
        None \<Rightarrow> None
      | Some eps \<Rightarrow>
          convert_localities ls (out @ [\<lparr>le_LbEndpoints = eps, le_LoadBalancingWeight = GetValue (el_weight l), le_Priority = el_priority l\<rparr>]))"

definition newApiClusterLoadAssignment :: "env_assignment option \<Rightarrow> ClusterLoadAssignment option" where
  "newApiClusterLoadAssignment loadAssignment =
     (case loadAssignment of
        None \<Rightarrow> Some \<lparr>la_ClusterName = '''', la_Endpoints = []\<rparr>
      | Some la \<Rightarrow>
          (case convert_localities (ea_endpoints la) [] of
             None \<Rightarrow> None
           | Some ls \<Rightarrow> Some \<lparr>la_ClusterName = ea_cluster_name la, la_Endpoints = ls\<rparr>))"

definition newApiCircuitBreakers :: "env_threshold list option \<Rightarrow> CircuitBreakers option" where
  "newApiCircuitBreakers cb =
     (case cb of
        None \<Rightarrow> None
      | Some [] \<Rightarrow> None
      | Some (t # _) \<Rightarrow>
          Some \<lparr>cb_Priority = et_priority t,
                cb_MaxConnections = GetValue (et_max_connections t),
                cb_MaxPendingRequests = GetValue (et_max_pending_requests t),
                cb_MaxRequests = GetValue (et_max_requests t),
                cb_MaxRetries = GetValue (et_max_retries t),
                cb_MaxConnectionPools = GetValue (et_max_connection_pools t)\<rparr>)"

text \<open>The message that \<open>CreateApiClusterByCds\<close> and \<open>UpdateApiClusterIfExists\<close> build.\<close>

definition new_api_cluster :: "ApiStatus \<Rightarrow> env_cluster \<Rightarrow> ApiCluster option" where
  "new_api_cluster status cluster =
     (let apiCluster = \<lparr>ac_ApiStatus = status, ac_Name = ecl_name cluster, ac_Id = 0,
            ac_ConnectTimeout = ucast (GetValue (ecl_connect_timeout cluster)), ac_LbPolicy = ecl_lb_policy cluster,
            ac_LoadAssignment = None, ac_CircuitBreakers = newApiCircuitBreakers (ecl_circuit_breakers cluster)\<rparr>
      in if ecl_type cluster \<noteq> Cluster_EDS then
           (case newApiClusterLoadAssignment (ecl_load_assignment cluster) of
              None \<Rightarrow> None
            | Some la \<Rightarrow> Some (apiCluster\<lparr>ac_LoadAssignment := Some la\<rparr>))
         else Some apiCluster)"

subsection \<open>Routes\<close>

definition parseStringMatch :: "env_string_match \<Rightarrow> HeaderSpecifier option" where
  "parseStringMatch m =
     (case m of
        StringMatcher_Exact s \<Rightarrow> Some (HeaderMatcher_ExactMatch s)
      | StringMatcher_Prefix s \<Rightarrow> Some (HeaderMatcher_PrefixMatch s)
      | StringMatcher_Other \<Rightarrow> None)"

fun convert_headers :: "env_header list \<Rightarrow> HeaderMatcher list \<Rightarrow> HeaderMatcher list" where
  "convert_headers [] apiHeaders = apiHeaders"
| "convert_headers (header # rest) apiHeaders =
     (case eh_spec header of
        EHM_PrefixMatch s \<Rightarrow> convert_headers rest (apiHeaders @ [HeaderMatcher (eh_name header) (Some (HeaderMatcher_PrefixMatch s))])
      | EHM_ExactMatch s \<Rightarrow> convert_headers rest (apiHeaders @ [HeaderMatcher (eh_name header) (Some (HeaderMatcher_ExactMatch s))])
      | EHM_StringMatch m \<Rightarrow> convert_headers rest (apiHeaders @ [HeaderMatcher (eh_name header) (parseStringMatch m)])
      | EHM_Other \<Rightarrow> convert_headers rest apiHeaders)"

definition newApiRouteMatch :: "env_match option \<Rightarrow> RouteMatch" where
  "newApiRouteMatch m =
     (case m of
        None \<Rightarrow> \<lparr>rm_Prefix = '''', rm_CaseSensitive = False, rm_Headers = []\<rparr>
      | Some mt \<Rightarrow> \<lparr>rm_Prefix = em_prefix mt, rm_CaseSensitive = (em_case_sensitive mt = Some True),
                   rm_Headers = convert_headers (em_headers mt) []\<rparr>)"

fun convert_hash_policies :: "env_hash_policy list \<Rightarrow> string list \<Rightarrow> string list" where
  "convert_hash_policies [] out = out"
| "convert_hash_policies (EHP_Header h # hps) out = convert_hash_policies hps (out @ [h])"
| "convert_hash_policies (EHP_Other # hps) out = convert_hash_policies hps out"

definition newApiRouteAction :: "env_route_action option \<Rightarrow> RouteAction option" where
  "newApiRouteAction action =
     (case action of
        None \<Rightarrow> Some \<lparr>ra_ClusterSpecifier = None, ra_Timeout = 0, ra_NumRetries = None, ra_HashPolicy = []\<rparr>
      | Some a \<Rightarrow>
          let apiAction = (\<lambda>spec. \<lparr>ra_ClusterSpecifier = Some spec, ra_Timeout = ucast (GetValue (era_timeout a)),
                ra_NumRetries = Some (GetValue (era_num_retries a)), ra_HashPolicy = convert_hash_policies (era_hash_policy a) []\<rparr>)
          in case era_cluster a of
               ECS_Cluster c \<Rightarrow> Some (apiAction (RouteAction_Cluster c))
             | ECS_Weighted cs \<Rightarrow> Some (apiAction (RouteAction_WeightedClusters (map (\<lambda>(n, w). (n, GetValue w)) cs)))
             | ECS_Other \<Rightarrow> None)"

definition newApiRoute :: "env_route option \<Rightarrow> ApiRoute option" where
  "newApiRoute route =
     (case route of
        None \<Rightarrow> None
      | Some r \<Rightarrow>
          let apiRoute = \<lparr>ar_Name = er_name r, ar_Match = newApiRouteMatch (er_match r), ar_Route = None\<rparr>
          in case er_action r of
               Route_Route a \<Rightarrow> Some (apiRoute\<lparr>ar_Route := newApiRouteAction (Some a)\<rparr>)
             | Route_FilterAction \<Rightarrow> Some apiRoute
             | Route_Redirect \<Rightarrow> Some apiRoute
             | Route_Other \<Rightarrow> None)"

text \<open>The loop over the routes of a host, with the default route found so far.\<close>

fun convert_routes :: "env_route list \<Rightarrow> ApiRoute option \<Rightarrow> ApiRoute option list \<Rightarrow> ApiRoute option list" where
  "convert_routes [] defaultRoute out = out @ [defaultRoute]"
| "convert_routes (route # rest) defaultRoute out =
     (case newApiRoute (Some route) of
        None \<Rightarrow> convert_routes rest defaultRoute out
      | Some apiRoute \<Rightarrow>
          if rm_Headers (ar_Match apiRoute) = [] \<and> defaultRoute = None
          then convert_routes rest (Some apiRoute) out
          else convert_routes rest defaultRoute (out @ [Some apiRoute]))"

definition convert_host :: "env_virtual_host \<Rightarrow> VirtualHost" where
  "convert_host host = \<lparr>vh_Name = ev_name host, vh_Domains = ev_domains host, vh_Routes = convert_routes (ev_routes host) None []\<rparr>"

definition newApiRouteConfiguration :: "env_route_config option \<Rightarrow> RouteConfiguration option" where
  "newApiRouteConfiguration routeConfig =
     (case routeConfig of
        None \<Rightarrow> None
      | Some rc \<Rightarrow> Some \<lparr>rc_ApiStatus = ApiStatus_NONE, rc_Name = erc_name rc, rc_VirtualHosts = map convert_host (erc_virtual_hosts rc)\<rparr>)"

subsection \<open>Listeners\<close>

definition newFilterTcpProxy :: "env_tcp_proxy \<Rightarrow> TcpProxy" where
  "newFilterTcpProxy p = \<lparr>tp_StatPrefix = etp_stat_prefix p, tp_ClusterSpecifier = etp_cluster p,
     tp_MaxConnectAttempts = GetValue (etp_max_connect_attempts p)\<rparr>"

definition newApiFilterChainMatch :: "env_chain_match option \<Rightarrow> FilterChainMatch" where
  "newApiFilterChainMatch m =
     (case m of
        None \<Rightarrow> \<lparr>fm_PrefixRanges = [], fm_DestinationPort = 0, fm_TransportProtocol = '''', fm_ApplicationProtocols = []\<rparr>
      | Some mt \<Rightarrow> \<lparr>fm_PrefixRanges = map (\<lambda>(p, l). CidrRange p (GetValue l)) (ecm_prefix_ranges mt),
                   fm_DestinationPort = GetValue (ecm_destination_port mt),
                   fm_TransportProtocol = ecm_transport_protocol mt,
                   fm_ApplicationProtocols = ecm_application_protocols mt\<rparr>)"

abbreviation (input) wk_TCPProxy :: string where "wk_TCPProxy \<equiv> ''envoy.filters.network.tcp_proxy''"
abbreviation (input) wk_HTTPConnectionManager :: string where
  "wk_HTTPConnectionManager \<equiv> ''envoy.filters.network.http_connection_manager''"

text \<open>The filter, or nil, and the name of the route configuration to subscribe to, or the empty string.\<close>

definition newApiFilterAndRouteName :: "ads_codec \<Rightarrow> env_filter option \<Rightarrow> Filter option \<times> string" where
  "newApiFilterAndRouteName D flt =
     (case flt of
        None \<Rightarrow> (None, '''')
      | Some f \<Rightarrow>
          (case ef_config f of
             Filter_TypedConfig cfg \<Rightarrow>
               if ef_name f = wk_TCPProxy then
                 (case un_tcp D cfg of
                    None \<Rightarrow> (None, '''')
                  | Some p \<Rightarrow> (Some (Filter (ef_name f) (Filter_TcpProxy (newFilterTcpProxy p))), ''''))
               else if ef_name f = wk_HTTPConnectionManager then
                 (case un_http D cfg of
                    None \<Rightarrow> (None, '''')
                  | Some h \<Rightarrow>
                      (case ehc_route_config h of
                         Some rc \<Rightarrow> (Some (Filter (ef_name f) (Filter_HttpConnectionManager (map_option HCM_RouteConfig (newApiRouteConfiguration (Some rc))))), '''')
                       | None \<Rightarrow>
                           (case ehc_rds h of
                              Some routeName \<Rightarrow> (Some (Filter (ef_name f) (Filter_HttpConnectionManager (Some (HCM_RouteConfigName routeName)))), routeName)
                            | None \<Rightarrow> (Some (Filter (ef_name f) (Filter_HttpConnectionManager None)), ''''))))
               else (None, '''')
           | Filter_ConfigDiscovery \<Rightarrow> (None, '''')
           | Filter_NoConfig \<Rightarrow> (None, '''')))"

fun convert_filters :: "ads_codec \<Rightarrow> env_filter list \<Rightarrow> Filter list \<Rightarrow> string list \<Rightarrow> Filter list \<times> string list" where
  "convert_filters D [] out routeNames = (out, routeNames)"
| "convert_filters D (flt # rest) out routeNames =
     (case newApiFilterAndRouteName D (Some flt) of (apiFilter, routeName) \<Rightarrow>
        convert_filters D rest
          (case apiFilter of None \<Rightarrow> out | Some x \<Rightarrow> out @ [x])
          (if routeName \<noteq> '''' then routeNames @ [routeName] else routeNames))"

fun convert_chains :: "ads_codec \<Rightarrow> env_chain list \<Rightarrow> FilterChain list \<Rightarrow> string list \<Rightarrow> FilterChain list \<times> string list" where
  "convert_chains D [] out routeNames = (out, routeNames)"
| "convert_chains D (chain # rest) out routeNames =
     (case convert_filters D (ech_filters chain) [] routeNames of (filters, routeNames1) \<Rightarrow>
        convert_chains D rest
          (out @ [\<lparr>fc_FilterChainMatch = newApiFilterChainMatch (ech_match chain), fc_Filters = filters, fc_Name = ech_name chain\<rparr>])
          routeNames1)"

subsection \<open>Endpoints\<close>

text \<open>The IPv4 address that a text stands for, and whether it stands for an IPv6 address.\<close>

definition text_v4 :: "string \<Rightarrow> bytes option" where
  "text_v4 s = (case ParseIP s of None \<Rightarrow> None | Some ip \<Rightarrow> To4 ip)"

definition text_v6 :: "string \<Rightarrow> bool" where
  "text_v6 s = (case ParseIP s of None \<Rightarrow> False | Some ip \<Rightarrow> To4 ip = None)"

definition ipv6_endpoint :: "env_address option \<Rightarrow> bool" where
  "ipv6_endpoint e = (case e of Some (Address_SocketAddress a) \<Rightarrow> es_protocol a = SocketAddress_TCP \<and> text_v6 (es_address a) | _ \<Rightarrow> False)"

definition ipv4_endpoint :: "env_address option \<Rightarrow> ApiEndpoint option" where
  "ipv4_endpoint e =
     (case e of
        Some (Address_SocketAddress a) \<Rightarrow>
          (case text_v4 (es_address a) of
             Some b \<Rightarrow>
               if es_protocol a = SocketAddress_TCP \<and> b \<noteq> [0, 0, 0, 0]
               then Some (ApiEndpoint (Some \<lparr>sa_Protocol = SocketAddress_TCP, sa_Port = ConvertPortToBigEndian (es_port a), sa_Ipv4 = le_get32 b\<rparr>))
               else None
           | None \<Rightarrow> None)
      | _ \<Rightarrow> None)"

lemma length_parseIPv4: "parseIPv4Fields v d f s = Some b \<Longrightarrow> length f \<le> 3 \<Longrightarrow> length b = 4"
  by (induction v d f s rule: parseIPv4Fields.induct) (auto split: option.splits if_splits)

lemma ipv6_groups_Suc_cases:
  assumes "ipv6_groups (Suc n) ip e s = Some r"
  obtains v4 where "r = (ip @ v4, e, [])" "length ip + 4 \<le> 16" "parseIPv4Fields 0 0 [] s = Some v4"
  | w e' where "r = (ip @ be_put16 w, e', [])"
  | w e' s' where "ipv6_groups n (ip @ be_put16 w) e' s' = Some r"
proof -
  obtain acc off rest where hg: "hex_group 0 0 s = Some (acc, off, rest)"
    using assms by (cases "hex_group 0 0 s") auto
  have off: "off \<noteq> 0" using assms hg by (cases "off = 0") simp_all
  show thesis
  proof (cases "rest \<noteq> [] \<and> hd rest = CHR ''.''")
    case True
    with assms hg off show thesis
      by (cases "parseIPv4Fields 0 0 [] s") (auto split: if_split_asm intro: that(1) simp del: parseIPv4Fields.simps)
  next
    case False
    show thesis
    proof (cases rest)
      case Nil
      with assms hg off show thesis by (auto simp: Let_def intro: that(2))
    next
      case (Cons c s1)
      with assms hg off False show thesis
        by (cases "c = CHR '':'' \<and> s1 \<noteq> []"; cases "hd s1 = CHR '':''"; cases "e = None"; cases "tl s1 = []")
          (auto simp: Let_def intro: that(2,3))
    qed
  qed
qed

lemma length_ipv6_groups:
  "ipv6_groups n ip e s = Some (ip', e', r) \<Longrightarrow> length ip + 2 * n \<le> 16 \<Longrightarrow> length ip' \<le> 16"
proof (induction n arbitrary: ip e s)
  case (Suc n)
  have IH: "ipv6_groups n (ip @ be_put16 w) e1 s1 = Some (ip', e', r) \<Longrightarrow> length ip' \<le> 16" for w e1 s1
    using Suc.IH [of "ip @ be_put16 w" e1 s1] Suc.prems(2) by (simp add: be_put16_def)
  show ?case
    using Suc.prems(1)
  proof (cases rule: ipv6_groups_Suc_cases)
    case (1 v4)
    then show ?thesis using length_parseIPv4 [of 0 0 "[]" s v4] by simp
  next
    case (2 w e')
    then show ?thesis using Suc.prems(2) by (simp add: be_put16_def)
  next
    case (3 w e1 s1)
    then show ?thesis by (rule IH)
  qed
qed simp

lemma length_ParseAddr: "ParseAddr s = Some (b, z) \<Longrightarrow> length b = 4 \<or> length b = 16"
proof -
  assume a: "ParseAddr s = Some (b, z)"
  have "length b = 16" if p: "parseIPv6 s = Some (b, z)"
  proof -
    have "length b = 16" if "expand_ellipsis ip e = Some b" "length ip \<le> 16" for ip e
      using that by (auto simp: expand_ellipsis_def split: option.splits if_splits)
    then show ?thesis using p length_ipv6_groups [of 8 "[]"]
      by (fastforce simp: parseIPv6_def Let_def split: option.splits if_splits prod.splits)
  qed
  then show ?thesis using a
    by (auto simp: ParseAddr_def dest: length_parseIPv4 split: list.splits if_splits)
qed

lemma length_ParseIP: "ParseIP s = Some ip \<Longrightarrow> length ip = 16"
  by (auto simp: ParseIP_def As16_def dest!: length_ParseAddr split: option.splits if_splits prod.splits)

lemma length_text_v4: "text_v4 s = Some b \<Longrightarrow> length b = 4"
  by (auto simp: text_v4_def To4_def dest: length_ParseIP split: option.splits if_splits)

lemma ConvertIpToUint32_cases:
  "ConvertIpToUint32 s = (if text_v6 s then None else case text_v4 s of None \<Rightarrow> Some 0 | Some b \<Rightarrow> Some (le_get32 b))"
  by (auto simp: ConvertIpToUint32_def text_v6_def text_v4_def dest: length_ParseIP split: option.splits)

lemma le_get32_eq_0: "length b = 4 \<Longrightarrow> le_get32 b = 0 \<longleftrightarrow> b = [0, 0, 0, 0]"
proof -
  assume "length b = 4"
  then obtain w x y z where b: "b = [w, x, y, z]" by (auto simp: length4)
  have byte: "v = 0" if "\<And>n. n < 8 \<Longrightarrow> \<not> bit (le_get32 b) (k + n)" and "k + 8 \<le> 32" and "\<And>n. n < 8 \<Longrightarrow> bit (le_get32 b) (k + n) = bit v n"
    for v :: u8 and k
    using that by (intro bit_word_eqI) simp
  have bits: "n < 8 \<Longrightarrow> bit (le_get32 b) n = bit w n" "n < 8 \<Longrightarrow> bit (le_get32 b) (8 + n) = bit x n"
    "n < 8 \<Longrightarrow> bit (le_get32 b) (16 + n) = bit y n" "n < 8 \<Longrightarrow> bit (le_get32 b) (24 + n) = bit z n" for n
    by (auto simp: b le_get32_def bit_simps dest: bit_imp_le_length)
  show ?thesis
  proof
    assume "le_get32 b = 0"
    then have "w = 0" "x = 0" "y = 0" "z = 0"
      using byte [of 0 w] byte [of 8 x] byte [of 16 y] byte [of 24 z] bits by simp_all
    then show "b = [0, 0, 0, 0]" by (simp add: b)
  qed (simp add: le_get32_def)
qed

lemma newApiSocketAddress_endpoint:
  "newApiSocketAddress e = None \<longleftrightarrow> ipv6_endpoint e"
  "newApiSocketAddress e = Some None \<Longrightarrow> ipv4_endpoint e = None"
  "newApiSocketAddress e = Some (Some a) \<Longrightarrow> ipv4_endpoint e = (if sa_Ipv4 a = 0 then None else Some (ApiEndpoint (Some a)))"
  by (auto simp: newApiSocketAddress_def ipv6_endpoint_def ipv4_endpoint_def ConvertIpToUint32_cases le_get32_eq_0 length_text_v4
      split: option.splits env_address.splits if_splits)

lemma convert_endpoints_eq:
  "convert_endpoints es out = (if list_ex ipv6_endpoint es then None else Some (out @ List.map_filter ipv4_endpoint es))"
proof (induction es arbitrary: out)
  case (Cons e es)
  show ?case
    using newApiSocketAddress_endpoint [of e]
    by (cases "newApiSocketAddress e") (auto simp: Cons.IH map_filter_simps split: option.splits)
qed (simp add: map_filter_simps)

lemma convert_localities_eq:
  "convert_localities ls out =
     (if list_ex (\<lambda>l. list_ex ipv6_endpoint (el_endpoints l)) ls then None
      else Some (out @ map (\<lambda>l. \<lparr>le_LbEndpoints = List.map_filter ipv4_endpoint (el_endpoints l),
                                 le_LoadBalancingWeight = GetValue (el_weight l), le_Priority = el_priority l\<rparr>) ls))"
  by (induction ls arbitrary: out) (auto simp: convert_endpoints_eq)

text \<open>Whether a load assignment has an endpoint with an IPv6 address.\<close>

definition has_ipv6 :: "env_assignment \<Rightarrow> bool" where
  "has_ipv6 la \<longleftrightarrow> (\<exists>l e. l \<in> set (ea_endpoints la) \<and> e \<in> set (el_endpoints l) \<and> ipv6_endpoint e)"

lemma load_assignment_None: "newApiClusterLoadAssignment (Some la) = None \<longleftrightarrow> has_ipv6 la"
  by (auto simp: newApiClusterLoadAssignment_def convert_localities_eq list_ex_iff has_ipv6_def)

text \<open>
  C23.  The translation of a load assignment.  If some TCP endpoint has an IPv6 address, the daemon
  panics.  Otherwise every locality is kept with its weight and priority, and its endpoints are, in
  order, exactly those TCP endpoints whose address is the text of an IPv4 address other than
  0.0.0.0, with the address and port in network order; host names and other transports are dropped.
\<close>

theorem load_assignment_exact:
  "newApiClusterLoadAssignment (Some la) =
     (if has_ipv6 la then None
      else Some \<lparr>la_ClusterName = ea_cluster_name la,
                 la_Endpoints = map (\<lambda>l. \<lparr>le_LbEndpoints = List.map_filter ipv4_endpoint (el_endpoints l),
                   le_LoadBalancingWeight = GetValue (el_weight l), le_Priority = el_priority l\<rparr>) (ea_endpoints la)\<rparr>)"
  by (auto simp: newApiClusterLoadAssignment_def convert_localities_eq list_ex_iff has_ipv6_def)

subsection \<open>Order of routes\<close>

definition no_headers :: "ApiRoute \<Rightarrow> bool" where
  "no_headers r \<longleftrightarrow> rm_Headers (ar_Match r) = []"

definition api_routes :: "env_virtual_host \<Rightarrow> ApiRoute list" where
  "api_routes host = List.map_filter (\<lambda>r. newApiRoute (Some r)) (ev_routes host)"

lemma convert_routes_default:
  "convert_routes rs (Some d) out = out @ map Some (List.map_filter (\<lambda>r. newApiRoute (Some r)) rs) @ [Some d]"
  by (induction rs arbitrary: out) (auto simp: map_filter_simps split: option.splits)

lemma convert_routes_eq:
  "convert_routes rs None out =
     (let as = List.map_filter (\<lambda>r. newApiRoute (Some r)) rs;
          restricted = takeWhile (\<lambda>r. \<not> no_headers r) as
      in out @ map Some restricted @
         (case dropWhile (\<lambda>r. \<not> no_headers r) as of [] \<Rightarrow> [None] | d # others \<Rightarrow> map Some others @ [Some d]))"
  by (induction rs arbitrary: out)
    (auto simp: map_filter_simps convert_routes_default no_headers_def Let_def split: option.splits)

text \<open>
  C24.  The routes of a virtual host.  Routes with an action that is not supported are dropped.  Of
  the others, the first one without header conditions becomes the last one and all others keep
  their order, so that a later route without header conditions overtakes it.  If every route has a
  header condition, a nil route is added at the end.
\<close>

theorem virtual_host_routes:
  "newApiRouteConfiguration (Some rc) =
     Some \<lparr>rc_ApiStatus = ApiStatus_NONE, rc_Name = erc_name rc,
           rc_VirtualHosts = map (\<lambda>host. \<lparr>vh_Name = ev_name host, vh_Domains = ev_domains host,
             vh_Routes = map Some (takeWhile (\<lambda>r. \<not> no_headers r) (api_routes host)) @
               (case dropWhile (\<lambda>r. \<not> no_headers r) (api_routes host) of
                  [] \<Rightarrow> [None]
                | d # others \<Rightarrow> map Some others @ [Some d])\<rparr>) (erc_virtual_hosts rc)\<rparr>"
  by (simp add: newApiRouteConfiguration_def convert_host_def convert_routes_eq api_routes_def Let_def)

lemma convert_headers_Other: "list_all (\<lambda>h. eh_spec h = EHM_Other) hs \<Longrightarrow> convert_headers hs out = out"
  by (induction hs arbitrary: out) auto



end
