(* ===== verification/Ads_Cache.thy ===== *)
theory Ads_Cache
  imports Ads_Convert Bpf_Maps Maglev
begin

text \<open>
  The caches of the listener mode (\<open>pkg/cache/v2/cluster.go\<close>, \<open>listener.go\<close>, \<open>route.go\<close>) and the
  access to their bpf maps (\<open>pkg/cache/v2/maps\<close>).  A cache holds the messages by name, each with a
  status; \<open>Flush\<close> writes those marked for update and removes those marked for deletion.

  The maps are written by a C library through protobuf-c; its operations are the argument
  \<open>E_kernel\<close> of the environment and the conversions between Go and C the argument \<open>clang\<close>, which
  may fail; an encoding is a list of elements of any type.  The counters of connections and the outcome of the Maglev map operations are
  arguments as well.
\<close>

subsection \<open>Environment\<close>

record ('a, 'b) clang =
  pb_marshal :: "'a \<Rightarrow> go_err + 'b list"
  pb_unpack :: "'b list \<Rightarrow> 'a option"
  pb_pack :: "'a \<Rightarrow> 'b list"
  pb_unmarshal :: "'b list \<Rightarrow> go_err + 'a"

record 'w ads_kernel =
  AkCluster :: "('w, string, ApiCluster) map_ops"
  AkListener :: "('w, SocketAddress, Listener) map_ops"
  AkRoute :: "('w, string, RouteConfiguration) map_ops"
  AkStats :: "'w \<Rightarrow> (u64 \<times> u32) list"
  AkStatsDelete :: "'w \<Rightarrow> (u64 \<times> u32) list \<Rightarrow> 'w"

record ('w, 'b) ads_env =
  E_kernel :: "'w ads_kernel"
  E_cluster_pb :: "(ApiCluster, 'b) clang"
  E_listener_pb :: "(Listener, 'b) clang"
  E_route_pb :: "(RouteConfiguration, 'b) clang"
  E_addr_pb :: "(SocketAddress, 'b) clang"
  E_addr_text :: "ApiEndpoint \<Rightarrow> string"
  E_seed :: u32
  E_lb_errs :: "ApiCluster \<Rightarrow> go_err option \<times> go_err option \<times> go_err option"
  E_yaml :: yaml_codec
  E_io :: bool
  E_codec :: ads_codec
  E_EqualUnordered :: "string list \<Rightarrow> string list \<Rightarrow> bool"

text \<open>The bpf maps and the outer map of the Maglev tables.\<close>

record 'w ads_world =
  aw_kernel :: 'w
  aw_maglev :: "maglev_map option"

subsection \<open>Maps\<close>

text \<open>\<open>clusterToClang\<close>, \<open>listenerToClang\<close> and the others: an empty encoding gives nil.\<close>

definition toClang :: "string \<Rightarrow> ('a, 'b) clang \<Rightarrow> 'a \<Rightarrow> go_err + 'a option" where
  "toClang failed C goMsg =
     (case pb_marshal C goMsg of
        Inl err \<Rightarrow> Inl err
      | Inr buf \<Rightarrow>
          if buf = [] then Inr None
          else (case pb_unpack C buf of None \<Rightarrow> Inl (GoErr failed) | Some cMsg \<Rightarrow> Inr (Some cMsg)))"

definition clusterToClang :: "(ApiCluster, 'b) clang \<Rightarrow> ApiCluster \<Rightarrow> go_err + ApiCluster option" where
  "clusterToClang = toClang ''cluster__cluster__unpack failed''"

definition listenerToClang :: "(Listener, 'b) clang \<Rightarrow> Listener \<Rightarrow> go_err + Listener option" where
  "listenerToClang = toClang ''listener__listener__unpack failed''"

definition routeConfigToClang :: "(RouteConfiguration, 'b) clang \<Rightarrow> RouteConfiguration \<Rightarrow> go_err + RouteConfiguration option" where
  "routeConfigToClang = toClang ''route__route_configuration__unpack failed''"

text \<open>Encoding a nil message gives no bytes.\<close>

definition socketAddressToClang :: "(SocketAddress, 'b) clang \<Rightarrow> SocketAddress option \<Rightarrow> go_err + SocketAddress option" where
  "socketAddressToClang C goMsg =
     (case goMsg of None \<Rightarrow> Inr None | Some a \<Rightarrow> toClang ''core__socket_address__unpack failed'' C a)"

text \<open>The answer of the C library is only tested for zero.\<close>

definition c_ret :: "string \<Rightarrow> go_err option \<times> 'w \<Rightarrow> go_err option \<times> 'w" where
  "c_ret failed r = (case r of (None, w) \<Rightarrow> (None, w) | (Some _, w) \<Rightarrow> (Some (GoErr failed), w))"

definition ClusterUpdate :: "('w, 'b) ads_env \<Rightarrow> string \<Rightarrow> ApiCluster \<Rightarrow> 'w \<Rightarrow> go_err option \<times> 'w" where
  "ClusterUpdate E key v w =
     (case clusterToClang (E_cluster_pb E) v of
        Inl err \<Rightarrow> (Some (GoWrap ''ClusterUpdate'' err), w)
      | Inr None \<Rightarrow> (None, w)
      | Inr (Some cMsg) \<Rightarrow> c_ret ''ClusterUpdate deserial_update_elem failed'' (m_update (AkCluster (E_kernel E)) w key cMsg))"

definition ClusterDelete :: "('w, 'b) ads_env \<Rightarrow> string \<Rightarrow> 'w \<Rightarrow> go_err option \<times> 'w" where
  "ClusterDelete E key w = c_ret ''ClusterDelete deserial_delete_elem failed'' (m_delete (AkCluster (E_kernel E)) w key)"

definition ListenerUpdate :: "('w, 'b) ads_env \<Rightarrow> SocketAddress option \<Rightarrow> Listener \<Rightarrow> 'w \<Rightarrow> go_err option \<times> 'w" where
  "ListenerUpdate E key v w =
     (case socketAddressToClang (E_addr_pb E) key of
        Inl err \<Rightarrow> (Some (GoWrap ''ListenerLookup'' err), w)
      | Inr None \<Rightarrow> (None, w)
      | Inr (Some cKey) \<Rightarrow>
          (case listenerToClang (E_listener_pb E) v of
             Inl err \<Rightarrow> (Some (GoWrap ''ListenerUpdate'' err), w)
           | Inr None \<Rightarrow> (None, w)
           | Inr (Some cMsg) \<Rightarrow> c_ret ''ListenerUpdate deserial_update_elem failed'' (m_update (AkListener (E_kernel E)) w cKey cMsg)))"

definition ListenerDelete :: "('w, 'b) ads_env \<Rightarrow> SocketAddress option \<Rightarrow> 'w \<Rightarrow> go_err option \<times> 'w" where
  "ListenerDelete E key w =
     (case socketAddressToClang (E_addr_pb E) key of
        Inl err \<Rightarrow> (Some (GoWrap ''ListenerLookup'' err), w)
      | Inr None \<Rightarrow> (None, w)
      | Inr (Some cKey) \<Rightarrow> c_ret ''ListenerDelete deserial_delete_elem failed'' (m_delete (AkListener (E_kernel E)) w cKey))"

definition RouteConfigUpdate :: "('w, 'b) ads_env \<Rightarrow> string \<Rightarrow> RouteConfiguration \<Rightarrow> 'w \<Rightarrow> go_err option \<times> 'w" where
  "RouteConfigUpdate E key v w =
     (case routeConfigToClang (E_route_pb E) v of
        Inl err \<Rightarrow> (Some (GoWrap ''RouteConfigUpdate'' err), w)
      | Inr None \<Rightarrow> (None, w)
      | Inr (Some cMsg) \<Rightarrow> c_ret ''RouteConfigUpdate deserial_update_elem failed'' (m_update (AkRoute (E_kernel E)) w key cMsg))"

definition RouteConfigDelete :: "('w, 'b) ads_env \<Rightarrow> string \<Rightarrow> 'w \<Rightarrow> go_err option \<times> 'w" where
  "RouteConfigDelete E key w = c_ret ''RouteConfigDelete deserial_delete_elem failed'' (m_delete (AkRoute (E_kernel E)) w key)"

text \<open>
  The elements the C library found, converted back one after the other; \<open>None\<close> is a lookup that
  failed.  A message without bytes stays the zero message.
\<close>

definition toGolang :: "('a, 'b) clang \<Rightarrow> 'a \<Rightarrow> 'a \<Rightarrow> go_err + 'a" where
  "toGolang C zero cMsg = (let buf = pb_pack C cMsg in if buf = [] then Inr zero else pb_unmarshal C buf)"

fun lookup_all :: "('a, 'b) clang \<Rightarrow> 'a \<Rightarrow> 'a list \<Rightarrow> 'a list \<Rightarrow> go_err + 'a list" where
  "lookup_all C zero [] out = Inr out"
| "lookup_all C zero (cValue # rest) out =
     (case toGolang C zero cValue of Inl err \<Rightarrow> Inl err | Inr m \<Rightarrow> lookup_all C zero rest (out @ [m]))"

definition pb_LookupAll :: "string \<Rightarrow> ('a, 'b) clang \<Rightarrow> 'a \<Rightarrow> 'a list option \<Rightarrow> go_err + 'a list" where
  "pb_LookupAll failed C zero elems = (case elems of None \<Rightarrow> Inl (GoErr failed) | Some l \<Rightarrow> lookup_all C zero l [])"

subsection \<open>Clusters\<close>

text \<open>\<open>cc_stats\<close> says whether there is a map of connection counters.\<close>

record ClusterCache =
  cc_apiClusterCache :: "(string \<times> ApiCluster) list"
  cc_resourceHash :: "string \<rightharpoonup> u64 \<times> u64"
  cc_hashName :: hash_name
  cc_stats :: bool

abbreviation (input) cc_lookup :: "ClusterCache \<Rightarrow> string \<Rightarrow> ApiCluster option" where
  "cc_lookup c key \<equiv> map_of (cc_apiClusterCache c) key"

definition zero_cluster :: ApiCluster where
  "zero_cluster = \<lparr>ac_ApiStatus = ApiStatus_NONE, ac_Name = '''', ac_Id = 0, ac_ConnectTimeout = 0, ac_LbPolicy = 0,
     ac_LoadAssignment = None, ac_CircuitBreakers = None\<rparr>"

definition NewClusterCache :: "bool \<Rightarrow> bool \<Rightarrow> hash_name \<Rightarrow> go_err + ApiCluster list \<Rightarrow> ClusterCache" where
  "NewClusterCache stats restart hashName clusters =
     \<lparr>cc_apiClusterCache =
        (if restart then fold (\<lambda>c. AList.update (ac_Name c) zero_cluster) (case clusters of Inl _ \<Rightarrow> [] | Inr cs \<Rightarrow> cs) [] else []),
      cc_resourceHash = Map.empty, cc_hashName = hashName, cc_stats = stats\<rparr>"

definition cluster_GetResourceNames :: "ClusterCache \<Rightarrow> string list" where
  "cluster_GetResourceNames c = map fst (cc_apiClusterCache c)"

definition GetApiCluster :: "string \<Rightarrow> ClusterCache \<Rightarrow> ApiCluster option" where
  "GetApiCluster key c = cc_lookup c key"

definition SetApiCluster :: "string \<Rightarrow> ApiCluster \<Rightarrow> ClusterCache \<Rightarrow> ClusterCache" where
  "SetApiCluster key v c = c\<lparr>cc_apiClusterCache := AList.update key v (cc_apiClusterCache c)\<rparr>"

definition cc_UpdateApiClusterIfExists :: "string \<Rightarrow> ApiCluster \<Rightarrow> ClusterCache \<Rightarrow> bool \<times> ClusterCache" where
  "cc_UpdateApiClusterIfExists key v c =
     (if cc_lookup c key = None then (False, c) else (True, SetApiCluster key v c))"

definition UpdateApiClusterStatus :: "string \<Rightarrow> ApiStatus \<Rightarrow> ClusterCache \<Rightarrow> ClusterCache" where
  "UpdateApiClusterStatus key status c =
     (case cc_lookup c key of None \<Rightarrow> c | Some cluster \<Rightarrow> SetApiCluster key (cluster\<lparr>ac_ApiStatus := status\<rparr>) c)"

definition GetApiClusterStatus :: "string \<Rightarrow> ClusterCache \<Rightarrow> ApiStatus" where
  "GetApiClusterStatus key c = (case cc_lookup c key of None \<Rightarrow> ApiStatus_NONE | Some cluster \<Rightarrow> ac_ApiStatus cluster)"

definition hash_pair :: "string \<Rightarrow> ClusterCache \<Rightarrow> u64 \<times> u64" where
  "hash_pair key c = (case cc_resourceHash c key of None \<Rightarrow> (0, 0) | Some p \<Rightarrow> p)"

definition GetCdsHash :: "string \<Rightarrow> ClusterCache \<Rightarrow> u64" where
  "GetCdsHash key c = fst (hash_pair key c)"

definition SetCdsHash :: "string \<Rightarrow> u64 \<Rightarrow> ClusterCache \<Rightarrow> ClusterCache" where
  "SetCdsHash key v c = c\<lparr>cc_resourceHash := (cc_resourceHash c)(key \<mapsto> (v, snd (hash_pair key c)))\<rparr>"

definition GetEdsHash :: "string \<Rightarrow> ClusterCache \<Rightarrow> u64" where
  "GetEdsHash key c = snd (hash_pair key c)"

definition SetEdsHash :: "string \<Rightarrow> u64 \<Rightarrow> ClusterCache \<Rightarrow> ClusterCache" where
  "SetEdsHash key v c = c\<lparr>cc_resourceHash := (cc_resourceHash c)(key \<mapsto> (fst (hash_pair key c), v))\<rparr>"

definition clearClusterStats :: "('w, 'b) ads_env \<Rightarrow> string \<Rightarrow> ClusterCache \<Rightarrow> 'w \<Rightarrow> 'w" where
  "clearClusterStats E clusterName c w =
     (if \<not> cc_stats c then w
      else let clusterId = StrToNum (cc_hashName c) clusterName;
               keysToDelete = filter (\<lambda>(cookie, i). i = clusterId) (AkStats (E_kernel E) w)
           in if keysToDelete \<noteq> [] then AkStatsDelete (E_kernel E) w keysToDelete else w)"

text \<open>What \<open>maglev.CreateLB\<close> reads of a cluster.\<close>

definition maglev_view :: "ApiCluster \<Rightarrow> ApiEndpoint Cluster" where
  "maglev_view c = \<lparr>cluster_name = ac_Name c,
     cluster_localities = (case ac_LoadAssignment c of None \<Rightarrow> [] | Some la \<Rightarrow> map le_LbEndpoints (la_Endpoints la))\<rparr>"

definition create_lb :: "('w, 'b) ads_env \<Rightarrow> ApiCluster \<Rightarrow> 'w ads_world \<Rightarrow> 'w ads_world option" where
  "create_lb E cluster W =
     (case E_lb_errs E cluster of (e_new, e_inner, e_outer) \<Rightarrow>
        map_option (\<lambda>(err, outer). W\<lparr>aw_maglev := outer\<rparr>)
          (CreateLB (E_addr_text E) (E_seed E) DefaultTableSize e_new e_inner e_outer (Some (maglev_view cluster)) (aw_maglev W)))"

definition remove_cluster :: "('w, 'b) ads_env \<Rightarrow> string \<Rightarrow> ClusterCache \<Rightarrow> ClusterCache" where
  "remove_cluster E name c = c\<lparr>cc_apiClusterCache := AList.delete name (cc_apiClusterCache c),
     cc_resourceHash := (cc_resourceHash c)(name := None),
     cc_hashName := Hash_Name.Delete (E_yaml E) (E_io E) (cc_hashName c) name\<rparr>"

text \<open>One round of the loop of \<open>Flush\<close>.  The cluster is shared with the cache, so its fields change there.\<close>

definition flush_cluster :: "('w, 'b) ads_env \<Rightarrow> string \<times> ApiCluster \<Rightarrow> ClusterCache \<times> 'w ads_world \<Rightarrow> (ClusterCache \<times> 'w ads_world) option" where
  "flush_cluster E entry s =
     (case (entry, s) of ((name, cluster), (c, W)) \<Rightarrow>
        if ac_ApiStatus cluster = ApiStatus_UPDATE then
          let cluster1 = cluster\<lparr>ac_Id := StrToNum (cc_hashName c) name\<rparr>;
              (err, w1) = ClusterUpdate E name cluster1 (aw_kernel W);
              W1 = W\<lparr>aw_kernel := w1\<rparr>
          in (case (if ac_LbPolicy cluster = Cluster_MAGLEV then create_lb E cluster1 W1 else Some W1) of
                None \<Rightarrow> None
              | Some W2 \<Rightarrow>
                  if err = None then Some (SetApiCluster name (cluster1\<lparr>ac_ApiStatus := ApiStatus_NONE\<rparr>) c, W2)
                  else Some (SetApiCluster name cluster1 c, W2))
        else if ac_ApiStatus cluster = ApiStatus_DELETE then
          let w1 = clearClusterStats E name c (aw_kernel W);
              (err, w2) = ClusterDelete E name w1
          in if err = None then Some (remove_cluster E name c, W\<lparr>aw_kernel := w2\<rparr>)
             else Some (c, W\<lparr>aw_kernel := w2\<rparr>)
        else Some (c, W))"

definition cluster_Flush :: "('w, 'b) ads_env \<Rightarrow> ClusterCache \<times> 'w ads_world \<Rightarrow> (ClusterCache \<times> 'w ads_world) option" where
  "cluster_Flush E s = for_each (flush_cluster E) (cc_apiClusterCache (fst s)) s"

text \<open>\<open>ClusterCache.Delete\<close>.\<close>

definition delete_cluster :: "('w, 'b) ads_env \<Rightarrow> string \<times> ApiCluster \<Rightarrow> ClusterCache \<times> 'w ads_world \<Rightarrow> ClusterCache \<times> 'w ads_world" where
  "delete_cluster E entry s =
     (case (entry, s) of ((name, cluster), (c, W)) \<Rightarrow>
        if ac_ApiStatus cluster = ApiStatus_DELETE then
          (case ClusterDelete E name (aw_kernel W) of (err, w1) \<Rightarrow>
             if err = None then (remove_cluster E name c, W\<lparr>aw_kernel := w1\<rparr>) else (c, W\<lparr>aw_kernel := w1\<rparr>))
        else (c, W))"

definition cluster_Delete :: "('w, 'b) ads_env \<Rightarrow> ClusterCache \<times> 'w ads_world \<Rightarrow> ClusterCache \<times> 'w ads_world" where
  "cluster_Delete E s = fold (delete_cluster E) (cc_apiClusterCache (fst s)) s"

definition cluster_Dump :: "ClusterCache \<Rightarrow> ApiCluster list" where
  "cluster_Dump c = map snd (cc_apiClusterCache c)"

subsection \<open>Listeners\<close>

record ListenerCache =
  lc_apiListenerCache :: "(string \<times> Listener) list"
  lc_resourceHash :: "string \<rightharpoonup> u64"

definition NewListenerCache :: "bool \<Rightarrow> go_err + Listener list \<Rightarrow> ListenerCache" where
  "NewListenerCache restart listeners =
     \<lparr>lc_apiListenerCache =
        (if restart then fold (\<lambda>l. AList.update (li_Name l)
             \<lparr>li_ApiStatus = ApiStatus_NONE, li_Name = '''', li_Address = li_Address l, li_FilterChains = []\<rparr>)
             (case listeners of Inl _ \<Rightarrow> [] | Inr ls \<Rightarrow> ls) [] else []),
      lc_resourceHash = Map.empty\<rparr>"

definition GetApiListener :: "string \<Rightarrow> ListenerCache \<Rightarrow> Listener option" where
  "GetApiListener key c = map_of (lc_apiListenerCache c) key"

definition listener_GetResourceNames :: "ListenerCache \<Rightarrow> string list" where
  "listener_GetResourceNames c = map fst (lc_apiListenerCache c)"

definition SetApiListener :: "string \<Rightarrow> Listener \<Rightarrow> ListenerCache \<Rightarrow> ListenerCache" where
  "SetApiListener key v c = c\<lparr>lc_apiListenerCache := AList.update key v (lc_apiListenerCache c)\<rparr>"

definition UpdateApiListenerStatus :: "string \<Rightarrow> ApiStatus \<Rightarrow> ListenerCache \<Rightarrow> ListenerCache" where
  "UpdateApiListenerStatus key status c =
     (case map_of (lc_apiListenerCache c) key of None \<Rightarrow> c | Some l \<Rightarrow> SetApiListener key (l\<lparr>li_ApiStatus := status\<rparr>) c)"

definition DeleteApiListener :: "string \<Rightarrow> ListenerCache \<Rightarrow> ListenerCache" where
  "DeleteApiListener key c = c\<lparr>lc_apiListenerCache := AList.delete key (lc_apiListenerCache c),
     lc_resourceHash := (lc_resourceHash c)(key := None)\<rparr>"

definition GetLdsHash :: "string \<Rightarrow> ListenerCache \<Rightarrow> u64" where
  "GetLdsHash key c = GetValue (lc_resourceHash c key)"

definition AddOrUpdateLdsHash :: "string \<Rightarrow> u64 \<Rightarrow> ListenerCache \<Rightarrow> ListenerCache" where
  "AddOrUpdateLdsHash key v c = c\<lparr>lc_resourceHash := (lc_resourceHash c)(key \<mapsto> v)\<rparr>"

definition flush_listener :: "('w, 'b) ads_env \<Rightarrow> string \<times> Listener \<Rightarrow> ListenerCache \<times> 'w \<Rightarrow> ListenerCache \<times> 'w" where
  "flush_listener E entry s =
     (case (entry, s) of ((name, l), (c, w)) \<Rightarrow>
        (case li_ApiStatus l of
           ApiStatus_UPDATE \<Rightarrow>
             (case ListenerUpdate E (li_Address l) l w of (err, w1) \<Rightarrow>
                if err = None then (SetApiListener name (l\<lparr>li_ApiStatus := ApiStatus_NONE\<rparr>) c, w1) else (c, w1))
         | ApiStatus_DELETE \<Rightarrow>
             (case ListenerDelete E (li_Address l) w of (err, w1) \<Rightarrow>
                if err = None then (DeleteApiListener name c, w1) else (c, w1))
         | _ \<Rightarrow> (c, w)))"

definition listener_Flush :: "('w, 'b) ads_env \<Rightarrow> ListenerCache \<times> 'w \<Rightarrow> ListenerCache \<times> 'w" where
  "listener_Flush E s = fold (flush_listener E) (lc_apiListenerCache (fst s)) s"

definition listener_Dump :: "ListenerCache \<Rightarrow> Listener list" where
  "listener_Dump c = map snd (lc_apiListenerCache c)"

subsection \<open>Routes\<close>

record RouteConfigCache =
  rr_apiRouteConfigCache :: "(string \<times> RouteConfiguration) list"
  rr_resourceHash :: "string \<rightharpoonup> u64"

definition NewRouteConfigCache :: "bool \<Rightarrow> go_err + RouteConfiguration list \<Rightarrow> RouteConfigCache" where
  "NewRouteConfigCache restart routes =
     \<lparr>rr_apiRouteConfigCache =
        (if restart then fold (\<lambda>r. AList.update (rc_Name r) \<lparr>rc_ApiStatus = ApiStatus_NONE, rc_Name = '''', rc_VirtualHosts = []\<rparr>)
             (case routes of Inl _ \<Rightarrow> [] | Inr rs \<Rightarrow> rs) [] else []),
      rr_resourceHash = Map.empty\<rparr>"

definition SetApiRouteConfig :: "string \<Rightarrow> RouteConfiguration \<Rightarrow> RouteConfigCache \<Rightarrow> RouteConfigCache" where
  "SetApiRouteConfig key v c = c\<lparr>rr_apiRouteConfigCache := AList.update key v (rr_apiRouteConfigCache c)\<rparr>"

definition GetApiRouteConfig :: "string \<Rightarrow> RouteConfigCache \<Rightarrow> RouteConfiguration option" where
  "GetApiRouteConfig key c = map_of (rr_apiRouteConfigCache c) key"

definition route_GetResourceNames :: "RouteConfigCache \<Rightarrow> string list" where
  "route_GetResourceNames c = map fst (rr_apiRouteConfigCache c)"

definition UpdateApiRouteStatus :: "string \<Rightarrow> ApiStatus \<Rightarrow> RouteConfigCache \<Rightarrow> RouteConfigCache" where
  "UpdateApiRouteStatus key status c =
     (case map_of (rr_apiRouteConfigCache c) key of None \<Rightarrow> c | Some r \<Rightarrow> SetApiRouteConfig key (r\<lparr>rc_ApiStatus := status\<rparr>) c)"

definition GetRdsHash :: "string \<Rightarrow> RouteConfigCache \<Rightarrow> u64" where
  "GetRdsHash key c = GetValue (rr_resourceHash c key)"

definition SetRdsHash :: "string \<Rightarrow> u64 \<Rightarrow> RouteConfigCache \<Rightarrow> RouteConfigCache" where
  "SetRdsHash key v c = c\<lparr>rr_resourceHash := (rr_resourceHash c)(key \<mapsto> v)\<rparr>"

definition flush_route :: "('w, 'b) ads_env \<Rightarrow> string \<times> RouteConfiguration \<Rightarrow> RouteConfigCache \<times> 'w \<Rightarrow> RouteConfigCache \<times> 'w" where
  "flush_route E entry s =
     (case (entry, s) of ((name, r), (c, w)) \<Rightarrow>
        (case rc_ApiStatus r of
           ApiStatus_UPDATE \<Rightarrow>
             if rc_VirtualHosts r = [] then (SetApiRouteConfig name (r\<lparr>rc_ApiStatus := ApiStatus_NONE\<rparr>) c, w)
             else (case RouteConfigUpdate E name r w of (err, w1) \<Rightarrow>
                     if err = None then (SetApiRouteConfig name (r\<lparr>rc_ApiStatus := ApiStatus_NONE\<rparr>) c, w1) else (c, w1))
         | ApiStatus_DELETE \<Rightarrow>
             (case RouteConfigDelete E name w of (err, w1) \<Rightarrow>
                if err = None then (c\<lparr>rr_apiRouteConfigCache := AList.delete name (rr_apiRouteConfigCache c),
                                      rr_resourceHash := (rr_resourceHash c)(name := None)\<rparr>, w1)
                else (c, w1))
         | _ \<Rightarrow> (c, w)))"

definition route_Flush :: "('w, 'b) ads_env \<Rightarrow> RouteConfigCache \<times> 'w \<Rightarrow> RouteConfigCache \<times> 'w" where
  "route_Flush E s = fold (flush_route E) (rr_apiRouteConfigCache (fst s)) s"

definition route_Dump :: "RouteConfigCache \<Rightarrow> RouteConfiguration list" where
  "route_Dump c = map snd (rr_apiRouteConfigCache c)"

end
