(* ===== verification/Ads_Processor.thy ===== *)
theory Ads_Processor
  imports Ads_Cache
begin

text \<open>
  The processor of discovery responses (\<open>pkg/controller/ads/ads_processor.go\<close> and the operations of
  \<open>AdsCache\<close> in \<open>cache.go\<close>): clusters, endpoints, listeners and routes go through the caches into the
  bpf maps.  The hash of a resource's text decides whether it changed.  Clusters that are resolved
  by DNS are sent on a channel, whose content is \<open>pr_dns\<close>.
\<close>

subsection \<open>State\<close>

record AdsCache =
  ads_edsClusterNames :: "string list"
  ads_routeNames :: "string list"
  ads_ListenerCache :: ListenerCache
  ads_ClusterCache :: ClusterCache
  ads_RouteCache :: RouteConfigCache

record DiscoveryRequest =
  dq_TypeUrl :: string
  dq_VersionInfo :: string
  dq_ResourceNames :: "string list"
  dq_ResponseNonce :: string

record DiscoveryResponse =
  dr_TypeUrl :: string
  dr_VersionInfo :: string
  dr_Resources :: "any_msg list"
  dr_Nonce :: string

record lastNonce =
  cdsNonce :: string
  edsNonce :: string
  ldsNonce :: string
  rdsNonce :: string

record 'w processor =
  pr_Cache :: AdsCache
  pr_ack :: "DiscoveryRequest option"
  pr_req :: "DiscoveryRequest option"
  pr_lastNonce :: lastNonce
  pr_dns :: "env_cluster list list option"
  pr_world :: "'w ads_world"

abbreviation (input) ClusterType :: string where "ClusterType \<equiv> ''type.googleapis.com/envoy.config.cluster.v3.Cluster''"
abbreviation (input) EndpointType :: string where "EndpointType \<equiv> ''type.googleapis.com/envoy.config.endpoint.v3.ClusterLoadAssignment''"
abbreviation (input) ListenerType :: string where "ListenerType \<equiv> ''type.googleapis.com/envoy.config.listener.v3.Listener''"
abbreviation (input) RouteType :: string where "RouteType \<equiv> ''type.googleapis.com/envoy.config.route.v3.RouteConfiguration''"

definition no_nonce :: lastNonce where
  "no_nonce = \<lparr>cdsNonce = '''', edsNonce = '''', ldsNonce = '''', rdsNonce = ''''\<rparr>"

definition NewAdsCache :: "ListenerCache \<Rightarrow> ClusterCache \<Rightarrow> RouteConfigCache \<Rightarrow> AdsCache" where
  "NewAdsCache lc cc rr = \<lparr>ads_edsClusterNames = [], ads_routeNames = [], ads_ListenerCache = lc, ads_ClusterCache = cc, ads_RouteCache = rr\<rparr>"

definition newProcessor :: "AdsCache \<Rightarrow> 'w ads_world \<Rightarrow> 'w processor" where
  "newProcessor cache W = \<lparr>pr_Cache = cache, pr_ack = None, pr_req = None, pr_lastNonce = no_nonce, pr_dns = None, pr_world = W\<rparr>"

definition newAdsRequest :: "string \<Rightarrow> string list \<Rightarrow> string \<Rightarrow> DiscoveryRequest" where
  "newAdsRequest typeUrl names nonce = \<lparr>dq_TypeUrl = typeUrl, dq_VersionInfo = '''', dq_ResourceNames = names, dq_ResponseNonce = nonce\<rparr>"

definition newAckRequest :: "DiscoveryResponse \<Rightarrow> DiscoveryRequest" where
  "newAckRequest resp = \<lparr>dq_TypeUrl = dr_TypeUrl resp, dq_VersionInfo = dr_VersionInfo resp, dq_ResourceNames = [], dq_ResponseNonce = dr_Nonce resp\<rparr>"

definition on_clusters :: "(ClusterCache \<Rightarrow> ClusterCache) \<Rightarrow> 'w processor \<Rightarrow> 'w processor" where
  "on_clusters f p = p\<lparr>pr_Cache := (pr_Cache p)\<lparr>ads_ClusterCache := f (ads_ClusterCache (pr_Cache p))\<rparr>\<rparr>"

abbreviation (input) pr_clusters :: "'w processor \<Rightarrow> ClusterCache" where
  "pr_clusters p \<equiv> ads_ClusterCache (pr_Cache p)"

definition resource_hash :: "('w, 'b) ads_env \<Rightarrow> any_msg \<Rightarrow> u64" where
  "resource_hash E r = Sum64String (E_codec E) (any_text (E_codec E) r)"

subsection \<open>Clusters\<close>

definition CreateApiClusterByCds :: "ApiStatus \<Rightarrow> env_cluster \<Rightarrow> ClusterCache \<Rightarrow> ClusterCache option" where
  "CreateApiClusterByCds status cluster c =
     (case new_api_cluster status cluster of None \<Rightarrow> None | Some apiCluster \<Rightarrow> Some (SetApiCluster (ecl_name cluster) apiCluster c))"

definition UpdateApiClusterIfExists :: "ApiStatus \<Rightarrow> env_cluster \<Rightarrow> ClusterCache \<Rightarrow> (bool \<times> ClusterCache) option" where
  "UpdateApiClusterIfExists status cluster c =
     (case new_api_cluster status cluster of None \<Rightarrow> None | Some apiCluster \<Rightarrow> Some (cc_UpdateApiClusterIfExists (ecl_name cluster) apiCluster c))"

definition CreateApiClusterByEds :: "ApiStatus \<Rightarrow> env_assignment \<Rightarrow> ClusterCache \<Rightarrow> ClusterCache option" where
  "CreateApiClusterByEds status loadAssignment c =
     (case GetApiCluster (ea_cluster_name loadAssignment) c of
        None \<Rightarrow> Some c
      | Some apiCluster \<Rightarrow>
          (case newApiClusterLoadAssignment (Some loadAssignment) of
             None \<Rightarrow> None
           | Some la \<Rightarrow> Some (SetApiCluster (ea_cluster_name loadAssignment)
               (apiCluster\<lparr>ac_ApiStatus := status, ac_LoadAssignment := Some la\<rparr>) c)))"

definition is_dns :: "env_cluster \<Rightarrow> bool" where
  "is_dns cluster \<longleftrightarrow> ecl_type cluster = Cluster_STRICT_DNS \<or> ecl_type cluster = Cluster_LOGICAL_DNS"

definition cds_status :: "env_cluster \<Rightarrow> ApiStatus" where
  "cds_status cluster =
     (if ecl_type cluster = Cluster_EDS then ApiStatus_WAITING
      else if is_dns cluster then ApiStatus_WAITING else ApiStatus_UPDATE)"

text \<open>One resource: the names so far, the clusters for DNS so far, the names for EDS so far, the cache.\<close>

definition cds_resource :: "('w, 'b) ads_env \<Rightarrow> any_msg \<Rightarrow> string list \<times> env_cluster list \<times> string list \<times> ClusterCache \<Rightarrow>
    (string list \<times> env_cluster list \<times> string list \<times> ClusterCache) option" where
  "cds_resource E resource s =
     (case s of (current, dnsClusters, eds, c) \<Rightarrow>
        (case un_cluster (E_codec E) resource of
           None \<Rightarrow> Some (current, dnsClusters, eds, c)
         | Some cluster \<Rightarrow>
             let current1 = set_ins (ecl_name cluster) current;
                 eds1 = (if ecl_type cluster = Cluster_EDS then eds @ [ecl_name cluster] else eds);
                 dns1 = (if ecl_type cluster \<noteq> Cluster_EDS \<and> is_dns cluster then dnsClusters @ [cluster] else dnsClusters);
                 newHash = resource_hash E resource
             in if newHash \<noteq> GetCdsHash (ecl_name cluster) c then
                  (case CreateApiClusterByCds (cds_status cluster) cluster (SetCdsHash (ecl_name cluster) newHash c) of
                     None \<Rightarrow> None
                   | Some c1 \<Rightarrow> Some (current1, dns1, eds1, c1))
                else Some (current1, dns1, eds1, c)))"

definition mark_removed :: "string list \<Rightarrow> ClusterCache \<Rightarrow> ClusterCache" where
  "mark_removed current c =
     fold (\<lambda>key. UpdateApiClusterStatus key ApiStatus_DELETE) (filter (\<lambda>n. n \<notin> set current) (cluster_GetResourceNames c)) c"

definition handleCdsResponse :: "('w, 'b) ads_env \<Rightarrow> DiscoveryResponse \<Rightarrow> 'w processor \<Rightarrow> 'w processor option" where
  "handleCdsResponse E resp p =
     (let lastEdsClusterNames = ads_edsClusterNames (pr_Cache p)
      in case for_each (cds_resource E) (dr_Resources resp) ([], [], [], pr_clusters p) of
           None \<Rightarrow> None
         | Some (current, dnsClusters, eds, c1) \<Rightarrow>
             (case cluster_Flush E (mark_removed current c1, pr_world p) of
                None \<Rightarrow> None
              | Some (c2, W) \<Rightarrow>
                  Some (p\<lparr>pr_lastNonce := (pr_lastNonce p)\<lparr>cdsNonce := dr_Nonce resp\<rparr>,
                          pr_Cache := (pr_Cache p)\<lparr>ads_edsClusterNames := eds, ads_ClusterCache := c2\<rparr>,
                          pr_dns := map_option (\<lambda>ch. ch @ [dnsClusters]) (pr_dns p),
                          pr_world := W,
                          pr_req := (if E_EqualUnordered E eds lastEdsClusterNames then pr_req p
                                     else Some (newAdsRequest EndpointType eds ''''))\<rparr>)))"

subsection \<open>Endpoints\<close>

definition eds_resource :: "('w, 'b) ads_env \<Rightarrow> any_msg \<Rightarrow> ClusterCache \<Rightarrow> ClusterCache option" where
  "eds_resource E resource c =
     (case un_assignment (E_codec E) resource of
        None \<Rightarrow> Some c
      | Some loadAssignment \<Rightarrow>
          let name = ea_cluster_name loadAssignment
          in case GetApiCluster name c of
               None \<Rightarrow> Some c
             | Some cluster \<Rightarrow>
                 let newHash = resource_hash E resource
                 in if ac_ApiStatus cluster = ApiStatus_WAITING \<or> newHash \<noteq> GetEdsHash name c
                    then CreateApiClusterByEds ApiStatus_UPDATE loadAssignment (SetEdsHash name newHash c)
                    else Some c)"

definition handleEdsResponse :: "('w, 'b) ads_env \<Rightarrow> DiscoveryResponse \<Rightarrow> 'w processor \<Rightarrow> 'w processor option" where
  "handleEdsResponse E resp p =
     (case for_each (eds_resource E) (dr_Resources resp) (pr_clusters p) of
        None \<Rightarrow> None
      | Some c1 \<Rightarrow>
          (case pr_ack p of
             None \<Rightarrow> None
           | Some ack \<Rightarrow>
               (case cluster_Flush E (c1, pr_world p) of
                  None \<Rightarrow> None
                | Some (c2, W) \<Rightarrow>
                    Some (p\<lparr>pr_lastNonce := (pr_lastNonce p)\<lparr>edsNonce := dr_Nonce resp\<rparr>,
                            pr_Cache := (pr_Cache p)\<lparr>ads_ClusterCache := c2\<rparr>,
                            pr_ack := Some (ack\<lparr>dq_ResourceNames := ads_edsClusterNames (pr_Cache p)\<rparr>),
                            pr_req := (if ldsNonce (pr_lastNonce p) = '''' then Some (newAdsRequest ListenerType [] '''') else pr_req p),
                            pr_world := W\<rparr>))))"

subsection \<open>Listeners\<close>

definition CreateApiListenerByLds :: "ads_codec \<Rightarrow> ApiStatus \<Rightarrow> env_listener option \<Rightarrow> string list \<times> ListenerCache \<Rightarrow> (string list \<times> ListenerCache) option" where
  "CreateApiListenerByLds D status listener s =
     (case (listener, s) of
        (None, _) \<Rightarrow> Some s
      | (Some l, (routeNames, c)) \<Rightarrow>
          (case newApiSocketAddress (eli_address l) of
             None \<Rightarrow> None
           | Some address \<Rightarrow>
               (case convert_chains D (eli_filter_chains l) [] routeNames of (fchains, routeNames1) \<Rightarrow>
                  if status = ApiStatus_UNCHANGED then Some (routeNames1, c)
                  else Some (routeNames1, SetApiListener (eli_name l)
                         \<lparr>li_ApiStatus = status, li_Name = eli_name l, li_Address = address, li_FilterChains = fchains\<rparr> c))))"

text \<open>The error is that of the last resource that was unpacked.\<close>

definition lds_resource :: "('w, 'b) ads_env \<Rightarrow> any_msg \<Rightarrow> go_err option \<times> string list \<times> string list \<times> ListenerCache \<Rightarrow>
    (go_err option \<times> string list \<times> string list \<times> ListenerCache) option" where
  "lds_resource E resource s =
     (case s of (err, current, routeNames, c) \<Rightarrow>
        (case un_listener (E_codec E) resource of
           None \<Rightarrow> Some (Some (GoErr ''unmarshal''), current, routeNames, c)
         | Some listener \<Rightarrow>
             if eli_address listener = None then Some (None, current, routeNames, c)
             else
               let newHash = resource_hash E resource;
                   changed = (newHash \<noteq> GetLdsHash (eli_name listener) c);
                   c1 = (if changed then AddOrUpdateLdsHash (eli_name listener) newHash c else c);
                   apiStatus = (if changed then ApiStatus_UPDATE else ApiStatus_UNCHANGED)
               in map_option (\<lambda>(routeNames1, c2). (None, set_ins (eli_name listener) current, routeNames1, c2))
                    (CreateApiListenerByLds (E_codec E) apiStatus (Some listener) (routeNames, c1))))"

definition mark_removed_listeners :: "string list \<Rightarrow> ListenerCache \<Rightarrow> ListenerCache" where
  "mark_removed_listeners current c =
     fold (\<lambda>key. UpdateApiListenerStatus key ApiStatus_DELETE) (filter (\<lambda>n. n \<notin> set current) (listener_GetResourceNames c)) c"

definition handleLdsResponse :: "('w, 'b) ads_env \<Rightarrow> DiscoveryResponse \<Rightarrow> 'w processor \<Rightarrow> (go_err option \<times> 'w processor) option" where
  "handleLdsResponse E resp p =
     (case for_each (lds_resource E) (dr_Resources resp) (None, [], [], ads_ListenerCache (pr_Cache p)) of
        None \<Rightarrow> None
      | Some (err, current, routeNames, c1) \<Rightarrow>
          (case listener_Flush E (mark_removed_listeners current c1, aw_kernel (pr_world p)) of (c2, w) \<Rightarrow>
             Some (err, p\<lparr>pr_lastNonce := (pr_lastNonce p)\<lparr>ldsNonce := dr_Nonce resp\<rparr>,
                          pr_Cache := (pr_Cache p)\<lparr>ads_routeNames := routeNames, ads_ListenerCache := c2\<rparr>,
                          pr_req := (if E_EqualUnordered E routeNames (ads_routeNames (pr_Cache p)) then pr_req p
                                     else Some (newAdsRequest RouteType routeNames '''')),
                          pr_world := (pr_world p)\<lparr>aw_kernel := w\<rparr>\<rparr>)))"

subsection \<open>Routes\<close>

definition CreateApiRouteByRds :: "ApiStatus \<Rightarrow> env_route_config \<Rightarrow> RouteConfigCache \<Rightarrow> RouteConfigCache" where
  "CreateApiRouteByRds status routeConfig c =
     (case newApiRouteConfiguration (Some routeConfig) of
        None \<Rightarrow> c
      | Some r \<Rightarrow> SetApiRouteConfig (rc_Name r) (r\<lparr>rc_ApiStatus := status\<rparr>) c)"

definition rds_resource :: "('w, 'b) ads_env \<Rightarrow> any_msg \<Rightarrow> string list \<times> string list \<times> RouteConfigCache \<Rightarrow> string list \<times> string list \<times> RouteConfigCache" where
  "rds_resource E resource s =
     (case s of (current, ackNames, c) \<Rightarrow>
        (case un_route (E_codec E) resource of
           None \<Rightarrow> (current, ackNames, c)
         | Some rc \<Rightarrow>
             let newHash = resource_hash E resource
             in (set_ins (erc_name rc) current,
                 (if erc_virtual_hosts rc \<noteq> [] then ackNames @ [erc_name rc] else ackNames),
                 (if newHash \<noteq> GetRdsHash (erc_name rc) c
                  then CreateApiRouteByRds ApiStatus_UPDATE rc (SetRdsHash (erc_name rc) newHash c) else c))))"

definition mark_removed_routes :: "string list \<Rightarrow> RouteConfigCache \<Rightarrow> RouteConfigCache" where
  "mark_removed_routes current c =
     fold (\<lambda>key. UpdateApiRouteStatus key ApiStatus_DELETE) (filter (\<lambda>n. n \<notin> set current) (route_GetResourceNames c)) c"

text \<open>A response that appends to the acknowledgement panics without one.\<close>

definition handleRdsResponse :: "('w, 'b) ads_env \<Rightarrow> DiscoveryResponse \<Rightarrow> 'w processor \<Rightarrow> 'w processor option" where
  "handleRdsResponse E resp p =
     (case fold (rds_resource E) (dr_Resources resp) ([], [], ads_RouteCache (pr_Cache p)) of (current, ackNames, c1) \<Rightarrow>
        if ackNames \<noteq> [] \<and> pr_ack p = None then None
        else
          (case route_Flush E (mark_removed_routes current c1, aw_kernel (pr_world p)) of (c2, w) \<Rightarrow>
             Some (p\<lparr>pr_lastNonce := (pr_lastNonce p)\<lparr>rdsNonce := dr_Nonce resp\<rparr>,
                     pr_Cache := (pr_Cache p)\<lparr>ads_RouteCache := c2\<rparr>,
                     pr_ack := map_option (\<lambda>ack. ack\<lparr>dq_ResourceNames := dq_ResourceNames ack @ ackNames\<rparr>) (pr_ack p),
                     pr_world := (pr_world p)\<lparr>aw_kernel := w\<rparr>\<rparr>)))"

subsection \<open>Dispatch\<close>

definition processAdsResponse :: "('w, 'b) ads_env \<Rightarrow> DiscoveryResponse \<Rightarrow> 'w processor \<Rightarrow> 'w processor option" where
  "processAdsResponse E resp p =
     (let p1 = p\<lparr>pr_ack := Some (newAckRequest resp)\<rparr>
      in if dr_Resources resp = [] then Some p1
         else if dr_TypeUrl resp = ClusterType then handleCdsResponse E resp p1
         else if dr_TypeUrl resp = EndpointType then handleEdsResponse E resp p1
         else if dr_TypeUrl resp = ListenerType then map_option snd (handleLdsResponse E resp p1)
         else if dr_TypeUrl resp = RouteType then handleRdsResponse E resp p1
         else Some p1)"

definition processor_Reset :: "'w processor \<Rightarrow> 'w processor" where
  "processor_Reset p = p\<lparr>pr_lastNonce := no_nonce, pr_Cache := (pr_Cache p)\<lparr>ads_routeNames := [], ads_edsClusterNames := []\<rparr>\<rparr>"

end
