(* ===== verification/Ads_Safety.thy ===== *)
theory Ads_Safety
  imports Ads_Processor
begin

text \<open>
  What the listener mode's daemon does to the bpf maps.  \<open>ads_laws\<close> states what the maps promise: a
  write that succeeds is seen and one that fails changes nothing, and the operations on counters,
  listeners and routes do not touch clusters.  The locale \<open>cluster_invariant\<close> is the contract of an
  invariant that relates the cluster cache to the cluster map; it proves that the handlers keep
  it for every sequence of responses.  It is interpreted for two invariants: every cluster of the
  kernel is known to the cache, and every cluster of the kernel has the number 0.
\<close>

subsection \<open>Laws\<close>

definition store_law :: "('w, 'k, 'v) map_ops \<Rightarrow> bool" where
  "store_law M \<longleftrightarrow>
     (\<forall>w k v. contents M (snd (m_update M w k v)) = put_result (contents M w) k v (fst (m_update M w k v))) \<and>
     (\<forall>w k. contents M (snd (m_delete M w k)) = del_result (contents M w) k (fst (m_delete M w k)))"

abbreviation kclusters :: "('w, 'b) ads_env \<Rightarrow> 'w \<Rightarrow> string \<rightharpoonup> ApiCluster" where
  "kclusters E w \<equiv> contents (AkCluster (E_kernel E)) w"

text \<open>A message that survives the conversion to C is the same.\<close>

definition pb_faithful :: "('a, 'b) clang \<Rightarrow> bool" where
  "pb_faithful C \<longleftrightarrow> (\<forall>v buf c. pb_marshal C v = Inr buf \<and> buf \<noteq> [] \<and> pb_unpack C buf = Some c \<longrightarrow> c = v)"

definition ads_laws :: "('w, 'b) ads_env \<Rightarrow> bool" where
  "ads_laws E \<longleftrightarrow> store_law (AkCluster (E_kernel E)) \<and> pb_faithful (E_cluster_pb E) \<and>
     (\<forall>w ks. kclusters E (AkStatsDelete (E_kernel E) w ks) = kclusters E w) \<and>
     (\<forall>w k v. kclusters E (snd (m_update (AkListener (E_kernel E)) w k v)) = kclusters E w) \<and>
     (\<forall>w k. kclusters E (snd (m_delete (AkListener (E_kernel E)) w k)) = kclusters E w) \<and>
     (\<forall>w k v. kclusters E (snd (m_update (AkRoute (E_kernel E)) w k v)) = kclusters E w) \<and>
     (\<forall>w k. kclusters E (snd (m_delete (AkRoute (E_kernel E)) w k)) = kclusters E w)"

lemma ads_lawsD:
  assumes "ads_laws E"
  shows "kclusters E (snd (m_update (AkCluster (E_kernel E)) w k v)) = put_result (kclusters E w) k v (fst (m_update (AkCluster (E_kernel E)) w k v))"
    "kclusters E (snd (m_delete (AkCluster (E_kernel E)) w k)) = del_result (kclusters E w) k (fst (m_delete (AkCluster (E_kernel E)) w k))"
    "kclusters E (AkStatsDelete (E_kernel E) w ks) = kclusters E w"
    "kclusters E (snd (m_update (AkListener (E_kernel E)) w a l)) = kclusters E w"
    "kclusters E (snd (m_delete (AkListener (E_kernel E)) w a)) = kclusters E w"
    "kclusters E (snd (m_update (AkRoute (E_kernel E)) w k r)) = kclusters E w"
    "kclusters E (snd (m_delete (AkRoute (E_kernel E)) w k)) = kclusters E w"
  using assms by (simp_all add: ads_laws_def store_law_def)

lemma c_ret_cases: "c_ret f r = (err, w) \<Longrightarrow> w = snd r \<and> (err = None \<longleftrightarrow> fst r = None)"
  by (auto simp: c_ret_def split: prod.splits option.splits)

lemma clusterToClang_Some: "ads_laws E \<Longrightarrow> clusterToClang (E_cluster_pb E) v = Inr (Some c) \<Longrightarrow> c = v"
  by (auto simp: ads_laws_def pb_faithful_def clusterToClang_def toClang_def split: sum.splits option.splits if_splits)

lemma ClusterUpdate_contents:
  assumes "ads_laws E" "ClusterUpdate E k v w = (err, w')"
  shows "kclusters E w' = kclusters E w \<or> kclusters E w' = (kclusters E w)(k \<mapsto> v) \<and> err = None"
  using assms(2) ads_lawsD(1) [OF assms(1)] clusterToClang_Some [OF assms(1)]
  by (auto simp: ClusterUpdate_def put_result_def dest!: c_ret_cases split: sum.splits option.splits)

lemma ClusterDelete_contents:
  assumes "ads_laws E" "ClusterDelete E k w = (err, w')"
  shows "kclusters E w' = (kclusters E w)(k := None) \<or> kclusters E w' = kclusters E w \<and> err \<noteq> None"
  using assms(2) ads_lawsD(2) [OF assms(1), of w k]
  by (auto simp: ClusterDelete_def del_result_def dest!: c_ret_cases split: option.splits if_splits)

lemma clearClusterStats_contents: "ads_laws E \<Longrightarrow> kclusters E (clearClusterStats E n c w) = kclusters E w"
  by (simp add: clearClusterStats_def ads_lawsD Let_def)

lemma create_lb_kernel: "create_lb E cl W = Some W' \<Longrightarrow> aw_kernel W' = aw_kernel W"
  by (auto simp: create_lb_def split: prod.splits)

lemma SetApiCluster_simps [simp]:
  "cc_apiClusterCache (SetApiCluster k v c) = AList.update k v (cc_apiClusterCache c)"
  "cc_hashName (SetApiCluster k v c) = cc_hashName c" "cc_resourceHash (SetApiCluster k v c) = cc_resourceHash c"
  "cc_stats (SetApiCluster k v c) = cc_stats c"
  by (simp_all add: SetApiCluster_def)

lemma flush_cluster_cases:
  assumes "flush_cluster E (n, x) (c, W) = Some (c', W')"
  obtains (skip) "ac_ApiStatus x \<notin> {ApiStatus_UPDATE, ApiStatus_DELETE}" "c' = c" "W' = W"
  | (update) err where "ac_ApiStatus x = ApiStatus_UPDATE"
      "ClusterUpdate E n (x\<lparr>ac_Id := StrToNum (cc_hashName c) n\<rparr>) (aw_kernel W) = (err, aw_kernel W')"
      "c' = SetApiCluster n (if err = None then x\<lparr>ac_Id := StrToNum (cc_hashName c) n, ac_ApiStatus := ApiStatus_NONE\<rparr>
                              else x\<lparr>ac_Id := StrToNum (cc_hashName c) n\<rparr>) c"
  | (delete) err where "ac_ApiStatus x = ApiStatus_DELETE"
      "ClusterDelete E n (clearClusterStats E n c (aw_kernel W)) = (err, aw_kernel W')"
      "c' = (if err = None then remove_cluster E n c else c)"
proof (cases "ac_ApiStatus x")
  case ApiStatus_UPDATE
  obtain err w1 where u: "ClusterUpdate E n (x\<lparr>ac_Id := StrToNum (cc_hashName c) n\<rparr>) (aw_kernel W) = (err, w1)" by fastforce
  show thesis
    using assms u ApiStatus_UPDATE
    by (intro update [of err]) (auto simp: flush_cluster_def Let_def dest!: create_lb_kernel split: option.splits if_splits)
next
  case ApiStatus_DELETE
  obtain err w1 where d: "ClusterDelete E n (clearClusterStats E n c (aw_kernel W)) = (err, w1)" by fastforce
  show thesis
    using assms d ApiStatus_DELETE
    by (intro delete [of err]) (auto simp: flush_cluster_def Let_def split: if_splits)
qed (use assms skip in \<open>simp_all add: flush_cluster_def\<close>)

subsection \<open>Invariants of the cluster cache\<close>

locale cluster_invariant =
  fixes E :: "('w, 'b) ads_env" and I :: "ClusterCache \<Rightarrow> 'w \<Rightarrow> bool"
  assumes keep_set: "I c w \<Longrightarrow> I (SetApiCluster k v c) w"
    and keep_hash: "I c w \<Longrightarrow> I (c\<lparr>cc_resourceHash := h\<rparr>) w"
    and keep_other: "I c w \<Longrightarrow> kclusters E w' = kclusters E w \<Longrightarrow> I c w'"
    and keep_flush: "I c (aw_kernel W) \<Longrightarrow> flush_cluster E (n, x) (c, W) = Some (c', W') \<Longrightarrow> I c' (aw_kernel W')"
begin

lemma status_kept: "I c w \<Longrightarrow> I (UpdateApiClusterStatus k st c) w"
  by (auto simp: UpdateApiClusterStatus_def keep_set split: option.splits)

lemma mark_kept: "I c w \<Longrightarrow> I (mark_removed current c) w"
proof -
  have "I c w \<Longrightarrow> I (fold (\<lambda>key. UpdateApiClusterStatus key ApiStatus_DELETE) l c) w" for l
    by (induction l arbitrary: c) (auto intro: status_kept)
  then show "I c w \<Longrightarrow> I (mark_removed current c) w" by (simp add: mark_removed_def)
qed

lemma flush_loop_kept:
  "for_each (flush_cluster E) l (c, W) = Some (c', W') \<Longrightarrow> I c (aw_kernel W) \<Longrightarrow> I c' (aw_kernel W')"
proof (induction l arbitrary: c W)
  case (Cons e l)
  then show ?case by (cases e) (auto simp: bind_eq_Some_conv intro: keep_flush)
qed simp

lemma flush_kept: "cluster_Flush E (c, W) = Some (c', W') \<Longrightarrow> I c (aw_kernel W) \<Longrightarrow> I c' (aw_kernel W')"
  unfolding cluster_Flush_def by (rule flush_loop_kept)

lemma cds_loop_kept:
  "for_each (cds_resource E) l (cur, dns, eds, c) = Some (cur', dns', eds', c') \<Longrightarrow> I c w \<Longrightarrow> I c' w"
proof (induction l arbitrary: cur dns eds c)
  case (Cons r l)
  have "I c1 w" if "cds_resource E r (cur, dns, eds, c) = Some (cur1, dns1, eds1, c1)" for cur1 dns1 eds1 c1
    using that Cons.prems(2)
    by (auto simp: cds_resource_def CreateApiClusterByCds_def SetCdsHash_def Let_def split: option.splits if_splits
        intro!: keep_set keep_hash)
  then show ?case using Cons by (auto simp: bind_eq_Some_conv)
qed simp

lemma cds_kept:
  "handleCdsResponse E resp p = Some p' \<Longrightarrow> I (pr_clusters p) (aw_kernel (pr_world p)) \<Longrightarrow> I (pr_clusters p') (aw_kernel (pr_world p'))"
  by (auto simp: handleCdsResponse_def Let_def split: option.splits prod.splits dest!: cds_loop_kept flush_kept intro: mark_kept)

lemma eds_loop_kept: "for_each (eds_resource E) l c = Some c' \<Longrightarrow> I c w \<Longrightarrow> I c' w"
proof (induction l arbitrary: c)
  case (Cons r l)
  have "I c1 w" if "eds_resource E r c = Some c1" for c1
    using that Cons.prems(2)
    by (auto simp: eds_resource_def CreateApiClusterByEds_def SetEdsHash_def GetApiCluster_def Let_def split: option.splits if_splits
        intro!: keep_set keep_hash)
  then show ?case using Cons by (auto simp: bind_eq_Some_conv)
qed simp

lemma eds_kept:
  "handleEdsResponse E resp p = Some p' \<Longrightarrow> I (pr_clusters p) (aw_kernel (pr_world p)) \<Longrightarrow> I (pr_clusters p') (aw_kernel (pr_world p'))"
  by (auto simp: handleEdsResponse_def Let_def split: option.splits prod.splits dest!: eds_loop_kept flush_kept)

end

subsection \<open>Sequences of responses\<close>

lemma listener_flush_frame:
  assumes "ads_laws E"
  shows "kclusters E (snd (fold (flush_listener E) l (c, w))) = kclusters E w"
proof (induction l arbitrary: c w)
  case (Cons e l)
  have "kclusters E (snd (flush_listener E e (c, w))) = kclusters E w"
    using ads_lawsD(4,5) [OF assms]
    by (auto simp: flush_listener_def ListenerUpdate_def ListenerDelete_def split: prod.splits ApiStatus.splits sum.splits option.splits
        dest!: c_ret_cases)
  then show ?case using Cons by (cases "flush_listener E e (c, w)") auto
qed simp

lemma route_flush_frame:
  assumes "ads_laws E"
  shows "kclusters E (snd (fold (flush_route E) l (c, w))) = kclusters E w"
proof (induction l arbitrary: c w)
  case (Cons e l)
  have "kclusters E (snd (flush_route E e (c, w))) = kclusters E w"
    using ads_lawsD(6,7) [OF assms]
    by (auto simp: flush_route_def RouteConfigUpdate_def RouteConfigDelete_def split: prod.splits ApiStatus.splits sum.splits option.splits
        dest!: c_ret_cases)
  then show ?case using Cons by (cases "flush_route E e (c, w)") auto
qed simp

lemma lds_frame:
  assumes "ads_laws E" "handleLdsResponse E resp p = Some (err, p')"
  shows "pr_clusters p' = pr_clusters p \<and> kclusters E (aw_kernel (pr_world p')) = kclusters E (aw_kernel (pr_world p))"
proof -
  obtain err0 current routeNames c1 where l:
    "for_each (lds_resource E) (dr_Resources resp) (None, [], [], ads_ListenerCache (pr_Cache p)) = Some (err0, current, routeNames, c1)"
    using assms(2) by (cases "for_each (lds_resource E) (dr_Resources resp) (None, [], [], ads_ListenerCache (pr_Cache p))")
      (auto simp: handleLdsResponse_def)
  obtain c2 w where f: "listener_Flush E (mark_removed_listeners current c1, aw_kernel (pr_world p)) = (c2, w)" by fastforce
  then have "kclusters E w = kclusters E (aw_kernel (pr_world p))"
    unfolding listener_Flush_def by (metis listener_flush_frame [OF assms(1)] snd_conv)
  then show ?thesis using assms(2) by (auto simp: handleLdsResponse_def l f)
qed

lemma rds_frame:
  assumes "ads_laws E" "handleRdsResponse E resp p = Some p'"
  shows "pr_clusters p' = pr_clusters p \<and> kclusters E (aw_kernel (pr_world p')) = kclusters E (aw_kernel (pr_world p))"
proof -
  obtain current ackNames c1 where l: "fold (rds_resource E) (dr_Resources resp) ([], [], ads_RouteCache (pr_Cache p)) = (current, ackNames, c1)"
    by (cases "fold (rds_resource E) (dr_Resources resp) ([], [], ads_RouteCache (pr_Cache p))")
  obtain c2 w where f: "route_Flush E (mark_removed_routes current c1, aw_kernel (pr_world p)) = (c2, w)" by fastforce
  then have "kclusters E w = kclusters E (aw_kernel (pr_world p))"
    unfolding route_Flush_def by (metis route_flush_frame [OF assms(1)] snd_conv)
  then show ?thesis using assms(2) by (auto simp: handleRdsResponse_def l f split: if_splits)
qed

text \<open>The cases of the dispatcher.\<close>

lemma processAdsResponse_cases:
  assumes "processAdsResponse E resp p = Some p'"
  obtains "pr_clusters p' = pr_clusters p" "pr_world p' = pr_world p"
  | "handleCdsResponse E resp (p\<lparr>pr_ack := Some (newAckRequest resp)\<rparr>) = Some p'"
  | "handleEdsResponse E resp (p\<lparr>pr_ack := Some (newAckRequest resp)\<rparr>) = Some p'"
  | err where "handleLdsResponse E resp (p\<lparr>pr_ack := Some (newAckRequest resp)\<rparr>) = Some (err, p')"
  | "handleRdsResponse E resp (p\<lparr>pr_ack := Some (newAckRequest resp)\<rparr>) = Some p'"
  using assms unfolding processAdsResponse_def Let_def
  by (auto split: if_split_asm simp del: list.inject)

context cluster_invariant
begin

lemma response_kept:
  assumes "ads_laws E" "processAdsResponse E resp p = Some p'" "I (pr_clusters p) (aw_kernel (pr_world p))"
  shows "I (pr_clusters p') (aw_kernel (pr_world p'))"
proof -
  have i: "I (pr_clusters (p\<lparr>pr_ack := a\<rparr>)) (aw_kernel (pr_world (p\<lparr>pr_ack := a\<rparr>)))" for a using assms(3) by simp
  from assms(2) show ?thesis
  proof (cases rule: processAdsResponse_cases)
    case 1
    then show ?thesis using assms(3) by simp
  next
    case 2
    then show ?thesis using i by (rule cds_kept)
  next
    case 3
    then show ?thesis using i by (rule eds_kept)
  next
    case (4 err)
    then show ?thesis using lds_frame [OF assms(1) 4] keep_other [OF assms(3)] by simp
  next
    case 5
    then show ?thesis using rds_frame [OF assms(1) 5] keep_other [OF assms(3)] by simp
  qed
qed

lemma responses_kept:
  assumes "ads_laws E"
  shows "for_each (processAdsResponse E) resps p = Some p' \<Longrightarrow> I (pr_clusters p) (aw_kernel (pr_world p)) \<Longrightarrow>
    I (pr_clusters p') (aw_kernel (pr_world p'))"
  by (induction resps arbitrary: p) (auto simp: bind_eq_Some_conv dest: response_kept [OF assms])

end

definition known :: "('w, 'b) ads_env \<Rightarrow> ClusterCache \<Rightarrow> 'w \<Rightarrow> bool" where
  "known E c w \<longleftrightarrow> (\<forall>n. kclusters E w n \<noteq> None \<longrightarrow> map_of (cc_apiClusterCache c) n \<noteq> None)"

lemma remove_cluster_lookup [simp]: "map_of (cc_apiClusterCache (remove_cluster E n c)) = (map_of (cc_apiClusterCache c))(n := None)"
  by (simp add: remove_cluster_def)

interpretation kn: cluster_invariant E "\<lambda>c w. ads_laws E \<longrightarrow> known E c w" for E
proof (unfold_locales, goal_cases)
  case (4 c W n x c' W')
  from 4(2) show ?case
  proof (cases rule: flush_cluster_cases)
    case skip
    then show ?thesis using 4(1) by simp
  next
    case (update err)
    then show ?thesis using 4(1) ClusterUpdate_contents [OF _ update(2)] by (auto simp: known_def split: if_splits)
  next
    case (delete err)
    then show ?thesis using 4(1) ClusterDelete_contents [OF _ delete(2)] by (auto simp: known_def clearClusterStats_contents split: if_splits)
  qed
qed (auto simp: known_def split: if_splits)

definition all_zero :: "('w, 'b) ads_env \<Rightarrow> ClusterCache \<Rightarrow> 'w \<Rightarrow> bool" where
  "all_zero E c w \<longleftrightarrow> strToNum (cc_hashName c) = [] \<and> (\<forall>n cl. kclusters E w n = Some cl \<longrightarrow> ac_Id cl = 0)"

lemma Delete_no_names: "strToNum h = [] \<Longrightarrow> Hash_Name.Delete Y io h n = h"
  by (simp add: Hash_Name.Delete_def lookup_num_def)

lemma StrToNum_no_names: "strToNum h = [] \<Longrightarrow> StrToNum h n = 0"
  by (simp add: StrToNum_def lookup_num_def)

interpretation az: cluster_invariant E "\<lambda>c w. ads_laws E \<longrightarrow> all_zero E c w" for E
proof (unfold_locales, goal_cases)
  case (4 c W n x c' W')
  from 4(2) show ?case
  proof (cases rule: flush_cluster_cases)
    case skip
    then show ?thesis using 4(1) by simp
  next
    case (update err)
    then show ?thesis using 4(1) ClusterUpdate_contents [OF _ update(2)] by (auto simp: all_zero_def StrToNum_no_names split: if_splits)
  next
    case (delete err)
    then show ?thesis using 4(1) ClusterDelete_contents [OF _ delete(2)]
      by (auto simp: all_zero_def clearClusterStats_contents remove_cluster_def Delete_no_names split: if_splits)
  qed
qed (auto simp: all_zero_def)

subsection \<open>Loops over keyed elements\<close>

lemma for_each_pointwise:
  assumes framed: "\<forall>a s s' j. f a s = Some s' \<longrightarrow> key a \<noteq> Some j \<longrightarrow> view s' j = view s j"
    and run: "for_each f l s = Some s'"
  shows "filter (\<lambda>a. key a = Some j) l = [] \<Longrightarrow> view s' j = view s j"
    and "filter (\<lambda>a. key a = Some j) l = [a] \<Longrightarrow> \<exists>s1 s2. view s1 j = view s j \<and> f a s1 = Some s2 \<and> view s' j = view s2 j"
proof -
  have frame: "f a s = Some s' \<Longrightarrow> key a \<noteq> Some j \<Longrightarrow> view s' j = view s j" for a s s' j using framed by blast
  have none: "for_each f l s = Some s' \<Longrightarrow> filter (\<lambda>a. key a = Some j) l = [] \<Longrightarrow> view s' j = view s j" for l s
    by (induction l arbitrary: s) (auto simp: bind_eq_Some_conv frame split: if_splits)
  show "filter (\<lambda>a. key a = Some j) l = [] \<Longrightarrow> view s' j = view s j" using none [OF run] .
  show "filter (\<lambda>a. key a = Some j) l = [a] \<Longrightarrow> \<exists>s1 s2. view s1 j = view s j \<and> f a s1 = Some s2 \<and> view s' j = view s2 j"
    using run
  proof (induction l arbitrary: s)
    case (Cons b l)
    obtain s1 where b: "f b s = Some s1" "for_each f l s1 = Some s'" using Cons.prems(2) by (auto simp: bind_eq_Some_conv)
    show ?case
    proof (cases "key b = Some j")
      case True
      then have "a = b" "filter (\<lambda>a. key a = Some j) l = []" using Cons.prems(1) by auto
      then show ?thesis using b none [OF b(2)] by blast
    next
      case False
      then show ?thesis using Cons.IH [OF _ b(2)] Cons.prems(1) frame [OF b(1) False] by simp
    qed
  qed simp
qed

lemma filter_key: "distinct (map fst l) \<Longrightarrow> map_of l j = Some x \<Longrightarrow> filter (\<lambda>a. Some (fst a) = Some j) l = [(j, x)]"
  by (induction l) (auto simp: filter_empty_conv image_iff dest: map_of_SomeD split: if_splits)

lemma filter_no_key: "map_of l j = None \<Longrightarrow> filter (\<lambda>a. Some (fst a) = Some j) l = []"
  by (auto simp: filter_empty_conv map_of_eq_None_iff)

subsection \<open>What a flush does\<close>

definition clusters_encode :: "('w, 'b) ads_env \<Rightarrow> bool" where
  "clusters_encode E \<longleftrightarrow> (\<forall>v. ac_ApiStatus v = ApiStatus_UPDATE \<longrightarrow>
     (\<exists>buf. pb_marshal (E_cluster_pb E) v = Inr buf \<and> buf \<noteq> [] \<and> pb_unpack (E_cluster_pb E) buf = Some v))"

lemma ClusterUpdate_reliable:
  assumes "ads_laws E" "map_reliable (AkCluster (E_kernel E))" "clusters_encode E" "ac_ApiStatus v = ApiStatus_UPDATE"
    and "ClusterUpdate E k v w = (err, w')"
  shows "err = None" "kclusters E w' = (kclusters E w)(k \<mapsto> v)"
proof -
  have enc: "clusterToClang (E_cluster_pb E) v = Inr (Some v)"
    using assms(3,4) by (auto simp: clusters_encode_def clusterToClang_def toClang_def)
  have "fst (m_update (AkCluster (E_kernel E)) w k v) = None" using assms(2) by (simp add: map_reliable_def)
  then show "err = None" "kclusters E w' = (kclusters E w)(k \<mapsto> v)"
    using assms(5) enc ads_lawsD(1) [OF assms(1), of w k v]
    by (auto simp: ClusterUpdate_def put_result_def dest!: c_ret_cases)
qed

lemma ClusterDelete_reliable:
  assumes "ads_laws E" "map_reliable (AkCluster (E_kernel E))" "ClusterDelete E k w = (err, w')"
  shows "kclusters E w' = (kclusters E w)(k := None)"
proof -
  have "case fst (m_delete (AkCluster (E_kernel E)) w k) of None \<Rightarrow> True | Some e \<Rightarrow> is_not_exist e"
    using assms(2) by (simp add: map_reliable_def)
  then show ?thesis using assms(3) ads_lawsD(2) [OF assms(1), of w k]
    by (auto simp: ClusterDelete_def del_result_def dest!: c_ret_cases split: option.splits)
qed

definition cview :: "('w, 'b) ads_env \<Rightarrow> ClusterCache \<times> 'w ads_world \<Rightarrow> string \<Rightarrow> ApiCluster option \<times> ApiCluster option" where
  "cview E s n = (map_of (cc_apiClusterCache (fst s)) n, kclusters E (aw_kernel (snd s)) n)"

lemma flush_cluster_frame:
  assumes "ads_laws E" "flush_cluster E e s = Some s'" "Some (fst e) \<noteq> Some j"
  shows "cview E s' j = cview E s j"
proof -
  obtain n x c W c' W' where e: "e = (n, x)" "s = (c, W)" "s' = (c', W')" by (cases e; cases s; cases s') auto
  have j: "j \<noteq> n" using assms(3) e by auto
  from assms(2) [unfolded e] show ?thesis
  proof (cases rule: flush_cluster_cases)
    case skip
    then show ?thesis by (simp add: e)
  next
    case (update err)
    then show ?thesis using ClusterUpdate_contents [OF assms(1) update(2)] j by (auto simp: cview_def e)
  next
    case (delete err)
    then show ?thesis using ClusterDelete_contents [OF assms(1) delete(2)] j
      by (auto simp: cview_def e clearClusterStats_contents [OF assms(1)])
  qed
qed

text \<open>The effect of a flush on one name, if the kernel refuses nothing.\<close>

definition flush_effect :: "ApiCluster \<Rightarrow> ApiCluster option \<Rightarrow> ApiCluster option \<Rightarrow> bool" where
  "flush_effect x before after \<longleftrightarrow>
     (if ac_ApiStatus x = ApiStatus_UPDATE then \<exists>i. after = Some (x\<lparr>ac_Id := i\<rparr>)
      else if ac_ApiStatus x = ApiStatus_DELETE then after = None else after = before)"

lemma flush_one_effect:
  assumes "ads_laws E" "map_reliable (AkCluster (E_kernel E))" "clusters_encode E" "flush_cluster E (n, x) s = Some s'"
  shows "flush_effect x (snd (cview E s n)) (snd (cview E s' n))"
proof -
  obtain c W c' W' where s: "s = (c, W)" "s' = (c', W')" by (cases s; cases s') auto
  from assms(4) [unfolded s] show ?thesis
  proof (cases rule: flush_cluster_cases)
    case skip
    then show ?thesis by (auto simp: flush_effect_def cview_def s)
  next
    case (update err)
    then show ?thesis using ClusterUpdate_reliable(2) [OF assms(1-3) _ update(2)] by (auto simp: flush_effect_def cview_def s)
  next
    case (delete err)
    then show ?thesis using ClusterDelete_reliable [OF assms(1,2) delete(2)] by (auto simp: flush_effect_def cview_def s)
  qed
qed

lemma cluster_Flush_effect:
  assumes "ads_laws E" "map_reliable (AkCluster (E_kernel E))" "clusters_encode E" "distinct (map fst (cc_apiClusterCache c))"
    and "cluster_Flush E (c, W) = Some (c', W')"
  shows "case map_of (cc_apiClusterCache c) n of
      None \<Rightarrow> kclusters E (aw_kernel W') n = kclusters E (aw_kernel W) n
    | Some x \<Rightarrow> flush_effect x (kclusters E (aw_kernel W) n) (kclusters E (aw_kernel W') n)"
proof -
  note run = assms(5) [unfolded cluster_Flush_def fst_conv]
  have frame: "\<forall>a s s' j. flush_cluster E a s = Some s' \<longrightarrow> Some (fst a) \<noteq> Some j \<longrightarrow> cview E s' j = cview E s j"
    using flush_cluster_frame [OF assms(1)] by blast
  note pt = for_each_pointwise [OF frame run, where j = n]
  show ?thesis
  proof (cases "map_of (cc_apiClusterCache c) n")
    case None
    then show ?thesis using pt(1) filter_no_key [OF None] by (simp add: cview_def)
  next
    case (Some x)
    obtain s1 s2 where s: "cview E s1 n = cview E (c, W) n" "flush_cluster E (n, x) s1 = Some s2" "cview E (c', W') n = cview E s2 n"
      using pt(2) [OF filter_key [OF assms(4) Some]] by blast
    show ?thesis using flush_one_effect [OF assms(1-3) s(2)] s(1,3) Some by (simp add: cview_def)
  qed
qed

subsection \<open>Handling a response for clusters\<close>

definition cds_name :: "('w, 'b) ads_env \<Rightarrow> any_msg \<Rightarrow> string option" where
  "cds_name E r = map_option ecl_name (un_cluster (E_codec E) r)"

definition hview :: "string list \<times> env_cluster list \<times> string list \<times> ClusterCache \<Rightarrow> string \<Rightarrow> ApiCluster option \<times> (u64 \<times> u64) option" where
  "hview s n = (case s of (cur, dns, eds, c) \<Rightarrow> (map_of (cc_apiClusterCache c) n, cc_resourceHash c n))"

lemma cds_resource_frame:
  "\<forall>r s s' j. cds_resource E r s = Some s' \<longrightarrow> cds_name E r \<noteq> Some j \<longrightarrow> hview s' j = hview s j"
  by (auto simp: cds_resource_def cds_name_def hview_def CreateApiClusterByCds_def SetCdsHash_def Let_def split: option.splits if_splits)

lemma cds_names_current:
  "for_each (cds_resource E) l (cur, dns, eds, c) = Some (cur', dns', eds', c') \<Longrightarrow>
     set cur' = set cur \<union> {n. \<exists>r \<in> set l. cds_name E r = Some n}"
proof (induction l arbitrary: cur dns eds c)
  case (Cons r l)
  obtain cur1 dns1 eds1 c1 where r: "cds_resource E r (cur, dns, eds, c) = Some (cur1, dns1, eds1, c1)"
    "for_each (cds_resource E) l (cur1, dns1, eds1, c1) = Some (cur', dns', eds', c')"
    using Cons.prems by (auto simp: bind_eq_Some_conv)
  have "set cur1 = set cur \<union> {n. cds_name E r = Some n}"
    using r(1) by (auto simp: cds_resource_def cds_name_def Let_def split: option.splits if_splits)
  then show ?case using Cons.IH [OF r(2)] by auto
qed simp

lemma cds_resource_effect:
  assumes "cds_resource E r (cur, dns, eds, c) = Some (cur', dns', eds', c')" "un_cluster (E_codec E) r = Some cl"
  shows "if resource_hash E r \<noteq> GetCdsHash (ecl_name cl) c
    then \<exists>api. new_api_cluster (cds_status cl) cl = Some api \<and> map_of (cc_apiClusterCache c') (ecl_name cl) = Some api
    else c' = c"
  using assms by (auto simp: cds_resource_def CreateApiClusterByCds_def Let_def split: option.splits if_splits)

lemma new_api_cluster_status: "new_api_cluster st cl = Some api \<Longrightarrow> ac_ApiStatus api = st"
  by (auto simp: new_api_cluster_def Let_def split: if_splits option.splits)

lemma mark_removed_lookup:
  "map_of (cc_apiClusterCache (mark_removed cur c)) n =
     map_option (\<lambda>x. if n \<in> set cur then x else x\<lparr>ac_ApiStatus := ApiStatus_DELETE\<rparr>) (map_of (cc_apiClusterCache c) n)"
proof -
  have upd: "map_of (cc_apiClusterCache (UpdateApiClusterStatus k ApiStatus_DELETE c)) n =
      map_option (\<lambda>x. if n = k then x\<lparr>ac_ApiStatus := ApiStatus_DELETE\<rparr> else x) (map_of (cc_apiClusterCache c) n)" for k c
    by (cases "map_of (cc_apiClusterCache c) k"; cases "n = k") (simp_all add: UpdateApiClusterStatus_def option.map_ident)
  have "map_of (cc_apiClusterCache (fold (\<lambda>key. UpdateApiClusterStatus key ApiStatus_DELETE) l c)) n =
      map_option (\<lambda>x. if n \<in> set l then x\<lparr>ac_ApiStatus := ApiStatus_DELETE\<rparr> else x) (map_of (cc_apiClusterCache c) n)" for l
    by (induction l arbitrary: c) (auto simp: upd option.map_comp comp_def option.map_ident intro!: option.map_cong)
  then show ?thesis
    by (cases "map_of (cc_apiClusterCache c) n")
      (force simp: mark_removed_def cluster_GetResourceNames_def dest: map_of_SomeD)+
qed

interpretation dk: cluster_invariant E "\<lambda>c w. distinct (map fst (cc_apiClusterCache c))" for E
proof (unfold_locales, goal_cases)
  case (4 c W n x c' W')
  from 4(2) show ?case
    by (cases rule: flush_cluster_cases) (use 4(1) in \<open>auto simp: distinct_update distinct_delete remove_cluster_def\<close>)
qed (simp_all add: distinct_update)

lemma create_lb_total: "\<exists>W'. create_lb E cl W = Some W'"
proof -
  have "getLookupTable (E_addr_text E) (E_seed E) DefaultTableSize (maglev_view cl) DefaultTableSize \<noteq> None"
  proof (cases "concat (cluster_localities (maglev_view cl)) = []")
    case True
    then show ?thesis unfolding getLookupTable_def Let_def True by (simp add: new_backends_def)
  next
    case False
    then show ?thesis using lookup_table_filled [OF False, of "E_addr_text E" "E_seed E"] by (auto simp del: concat_eq_Nil_conv)
  qed
  then show ?thesis
    by (auto simp: create_lb_def CreateLB_def simp del: unsigned_numeral split: option.splits sum.splits prod.splits)
qed

lemma flush_cluster_total: "\<exists>s'. flush_cluster E e s = Some s'"
proof -
  obtain n x c W where e: "e = (n, x)" "s = (c, W)" by (cases e; cases s)
  obtain err w1 where u: "ClusterUpdate E n (x\<lparr>ac_Id := StrToNum (cc_hashName c) n\<rparr>) (aw_kernel W) = (err, w1)" by fastforce
  obtain W2 where "create_lb E (x\<lparr>ac_Id := StrToNum (cc_hashName c) n\<rparr>) (W\<lparr>aw_kernel := w1\<rparr>) = Some W2"
    using create_lb_total by blast
  with u show ?thesis by (auto simp: flush_cluster_def e Let_def split: prod.splits)
qed

lemma cluster_Flush_total: "\<exists>s'. cluster_Flush E s = Some s'"
proof -
  have "\<exists>s'. for_each (flush_cluster E) l s = Some s'" for l
  proof (induction l arbitrary: s)
    case (Cons e l)
    obtain s1 where "flush_cluster E e s = Some s1" using flush_cluster_total by blast
    then show ?case using Cons by simp
  qed simp
  then show ?thesis by (simp add: cluster_Flush_def)
qed

definition cluster_ipv6 :: "env_cluster \<Rightarrow> bool" where
  "cluster_ipv6 cl \<longleftrightarrow> ecl_type cl \<noteq> Cluster_EDS \<and> (\<exists>la. ecl_load_assignment cl = Some la \<and> has_ipv6 la)"

lemma new_api_cluster_None: "new_api_cluster st cl = None \<longleftrightarrow> cluster_ipv6 cl"
proof -
  have "newApiClusterLoadAssignment None \<noteq> None" by (simp add: newApiClusterLoadAssignment_def)
  then show ?thesis
    by (cases "ecl_load_assignment cl") (auto simp: new_api_cluster_def cluster_ipv6_def load_assignment_None [symmetric] Let_def split: option.splits)
qed

lemma cds_loop_total:
  "\<forall>r cl. r \<in> set l \<and> un_cluster (E_codec E) r = Some cl \<longrightarrow> \<not> cluster_ipv6 cl \<Longrightarrow> \<exists>s'. for_each (cds_resource E) l s = Some s'"
proof (induction l arbitrary: s)
  case (Cons r l)
  have "cds_resource E r s \<noteq> None"
    using Cons.prems new_api_cluster_None
    by (cases s; cases "un_cluster (E_codec E) r") (auto simp: cds_resource_def CreateApiClusterByCds_def Let_def split: option.splits)
  then obtain s1 where s1: "cds_resource E r s = Some s1" by blast
  have "\<exists>s'. for_each (cds_resource E) l s1 = Some s'" using Cons.IH [of s1] Cons.prems by (meson list.set_intros(2))
  then show ?case by (simp add: s1)
qed (metis for_each.simps(1))

text \<open>The caches and the kernel between a response's loop and its flush.\<close>

lemma cds_marked:
  assumes "for_each (cds_resource E) l ([], [], [], c) = Some (cur, dns, eds, c1)"
  shows "n \<notin> {n. \<exists>r \<in> set l. cds_name E r = Some n} \<Longrightarrow> map_of (cc_apiClusterCache (mark_removed cur c1)) n =
      map_option (\<lambda>x. x\<lparr>ac_ApiStatus := ApiStatus_DELETE\<rparr>) (map_of (cc_apiClusterCache c1) n)"
    and "filter (\<lambda>r. cds_name E r = Some n) l = [r] \<Longrightarrow> un_cluster (E_codec E) r = Some cl \<Longrightarrow>
      (if resource_hash E r \<noteq> GetCdsHash n c
       then \<exists>api. new_api_cluster (cds_status cl) cl = Some api \<and> map_of (cc_apiClusterCache (mark_removed cur c1)) n = Some api
       else map_of (cc_apiClusterCache (mark_removed cur c1)) n = map_of (cc_apiClusterCache c) n)"
proof -
  have cur: "set cur = {n. \<exists>r \<in> set l. cds_name E r = Some n}" using cds_names_current [OF assms] by simp
  show "n \<notin> {n. \<exists>r \<in> set l. cds_name E r = Some n} \<Longrightarrow> map_of (cc_apiClusterCache (mark_removed cur c1)) n =
      map_option (\<lambda>x. x\<lparr>ac_ApiStatus := ApiStatus_DELETE\<rparr>) (map_of (cc_apiClusterCache c1) n)"
    unfolding cur [symmetric] by (simp add: mark_removed_lookup)
  assume r: "filter (\<lambda>r. cds_name E r = Some n) l = [r]" and cl: "un_cluster (E_codec E) r = Some cl"
  then have "r \<in> set (filter (\<lambda>r. cds_name E r = Some n) l)" by simp
  then have rn: "r \<in> set l" "cds_name E r = Some n" by simp_all
  then have n: "ecl_name cl = n" "n \<in> set cur" using cl cur by (auto simp: cds_name_def)
  obtain s1 s2 where s: "hview s1 n = hview ([], [], [], c) n" "cds_resource E r s1 = Some s2" "hview (cur, dns, eds, c1) n = hview s2 n"
    using for_each_pointwise(2) [OF cds_resource_frame assms r] by blast
  obtain u1 v1 x1 k1 u2 v2 x2 k2 where t: "s1 = (u1, v1, x1, k1)" "s2 = (u2, v2, x2, k2)" by (cases s1; cases s2)
  have h: "GetCdsHash n k1 = GetCdsHash n c" "map_of (cc_apiClusterCache k1) n = map_of (cc_apiClusterCache c) n"
    "map_of (cc_apiClusterCache c1) n = map_of (cc_apiClusterCache k2) n"
    using s(1,3) by (simp_all add: t hview_def GetCdsHash_def hash_pair_def)
  have m: "map_of (cc_apiClusterCache (mark_removed cur c1)) n = map_of (cc_apiClusterCache c1) n"
    using n(2) by (simp add: mark_removed_lookup option.map_ident)
  show "if resource_hash E r \<noteq> GetCdsHash n c
     then \<exists>api. new_api_cluster (cds_status cl) cl = Some api \<and> map_of (cc_apiClusterCache (mark_removed cur c1)) n = Some api
     else map_of (cc_apiClusterCache (mark_removed cur c1)) n = map_of (cc_apiClusterCache c) n"
    using cds_resource_effect [OF s(2) [unfolded t] cl] n(1) h m by (auto split: if_splits)
qed


text \<open>
  C9.  Whatever writes and deletions the kernel refuses, and for every sequence of responses of all
  four types: if all clusters of the kernel are known to the cache at first, as they are in an empty
  kernel and after a restart, they always are.  So a cluster that disappears from the
  configuration is marked for deletion, again at every response until the kernel accepts it.
\<close>

theorem kernel_clusters_known:
  assumes "ads_laws E" "for_each (processAdsResponse E) resps p = Some p'"
    and "\<forall>n. kclusters E (aw_kernel (pr_world p)) n \<noteq> None \<longrightarrow> n \<in> set (cluster_GetResourceNames (pr_clusters p))"
  shows "\<forall>n. kclusters E (aw_kernel (pr_world p')) n \<noteq> None \<longrightarrow> n \<in> set (cluster_GetResourceNames (pr_clusters p'))"
proof -
  have k: "known E c w \<longleftrightarrow> (\<forall>n. kclusters E w n \<noteq> None \<longrightarrow> n \<in> set (cluster_GetResourceNames c))" for c w
    by (auto simp: known_def cluster_GetResourceNames_def map_of_eq_None_iff)
  show ?thesis using kn.responses_kept [OF assms(1,2)] assms(1,3) by (simp add: k)
qed

text \<open>The state of a daemon that starts without a file of names.\<close>

definition fresh_processor :: "bool \<Rightarrow> yaml_codec \<Rightarrow> 'w ads_world \<Rightarrow> 'w processor" where
  "fresh_processor stats Y W = newProcessor (NewAdsCache (NewListenerCache False (Inr []))
     (NewClusterCache stats False (NewHashName Y None) (Inr [])) (NewRouteConfigCache False (Inr []))) W"

text \<open>
  C21.  Clusters are not numbered.  In the listener mode no name is ever entered into the table of
  names, so that every cluster that any sequence of responses writes into the kernel has the number
  0.  The connection counters of all clusters are kept under this number.
\<close>

theorem cluster_ids_all_zero:
  assumes "ads_laws E" "kclusters E (aw_kernel W) = Map.empty"
    and "for_each (processAdsResponse E) resps (fresh_processor stats Y W) = Some p"
    and "kclusters E (aw_kernel (pr_world p)) n = Some cl"
  shows "ac_Id cl = 0"
proof -
  have "all_zero E (pr_clusters (fresh_processor stats Y W)) (aw_kernel (pr_world (fresh_processor stats Y W)))"
    using assms(2) by (simp add: all_zero_def fresh_processor_def newProcessor_def NewAdsCache_def NewClusterCache_def NewHashName_def readFromPersistFile_def)
  then have "all_zero E (pr_clusters p) (aw_kernel (pr_world p))" using az.responses_kept [OF assms(1,3)] assms(1) by blast
  then show ?thesis using assms(4) by (simp add: all_zero_def)
qed

text \<open>
  C22.  A deletion that the kernel refused is tried again although the cluster is back.  If a cluster
  is still in the cache because its deletion failed, and a response has it again, unchanged, then
  the hash says that there is nothing to do, the mark for deletion stays, and handling this very
  response deletes the cluster from the kernel.
\<close>

theorem readded_cluster_deleted:
  assumes "ads_laws E" "map_reliable (AkCluster (E_kernel E))" "clusters_encode E"
    and "distinct (map fst (cc_apiClusterCache (pr_clusters p)))"
    and "map_of (cc_apiClusterCache (pr_clusters p)) n = Some x" "ac_ApiStatus x = ApiStatus_DELETE"
    and "filter (\<lambda>r. cds_name E r = Some n) (dr_Resources resp) = [r]" "resource_hash E r = GetCdsHash n (pr_clusters p)"
    and "handleCdsResponse E resp p = Some p'"
  shows "kclusters E (aw_kernel (pr_world p')) n = None"
proof -
  obtain cur dns eds c1 where loop: "for_each (cds_resource E) (dr_Resources resp) ([], [], [], pr_clusters p) = Some (cur, dns, eds, c1)"
    using assms(9) by (auto simp: handleCdsResponse_def Let_def split: option.splits)
  obtain c2 W where fl: "cluster_Flush E (mark_removed cur c1, pr_world p) = Some (c2, W)" using cluster_Flush_total by fastforce
  have W: "pr_world p' = W" using assms(9) by (auto simp: handleCdsResponse_def loop fl)
  have "r \<in> set (filter (\<lambda>r. cds_name E r = Some n) (dr_Resources resp))" using assms(7) by simp
  then obtain cl where "un_cluster (E_codec E) r = Some cl" by (auto simp: cds_name_def)
  then have "map_of (cc_apiClusterCache (mark_removed cur c1)) n = Some x"
    using cds_marked(2) [OF loop assms(7)] assms(5,8) by simp
  moreover have "distinct (map fst (cc_apiClusterCache (mark_removed cur c1)))"
    using dk.mark_kept dk.cds_loop_kept [OF loop] assms(4) by blast
  ultimately show ?thesis using cluster_Flush_effect [OF assms(1-3) _ fl, of n] assms(6) W by (simp add: flush_effect_def)
qed

subsection \<open>Handling a response for endpoints\<close>

definition eds_name :: "('w, 'b) ads_env \<Rightarrow> any_msg \<Rightarrow> string option" where
  "eds_name E r = map_option ea_cluster_name (un_assignment (E_codec E) r)"

definition eview :: "ClusterCache \<Rightarrow> string \<Rightarrow> ApiCluster option \<times> (u64 \<times> u64) option" where
  "eview c n = (map_of (cc_apiClusterCache c) n, cc_resourceHash c n)"

lemma eds_resource_frame:
  "\<forall>r c c' j. eds_resource E r c = Some c' \<longrightarrow> eds_name E r \<noteq> Some j \<longrightarrow> eview c' j = eview c j"
  by (auto simp: eds_resource_def eds_name_def eview_def CreateApiClusterByEds_def SetEdsHash_def GetApiCluster_def Let_def
      split: option.splits if_splits)

lemma eds_loop_total:
  "\<forall>r la. r \<in> set l \<and> un_assignment (E_codec E) r = Some la \<longrightarrow> \<not> has_ipv6 la \<Longrightarrow> \<exists>c'. for_each (eds_resource E) l c = Some c'"
proof (induction l arbitrary: c)
  case (Cons r l)
  have "eds_resource E r c \<noteq> None"
    using Cons.prems load_assignment_None
    by (cases "un_assignment (E_codec E) r") (auto simp: eds_resource_def CreateApiClusterByEds_def Let_def split: option.splits)
  then obtain c1 where c1: "eds_resource E r c = Some c1" by blast
  have "\<exists>c'. for_each (eds_resource E) l c1 = Some c'" using Cons.IH [of c1] Cons.prems by (meson list.set_intros(2))
  then show ?case by (simp add: c1)
qed simp

lemma eds_resource_effect:
  assumes "eds_resource E r c = Some c'" "un_assignment (E_codec E) r = Some la" "map_of (cc_apiClusterCache c) (ea_cluster_name la) = Some x"
    and "ac_ApiStatus x = ApiStatus_WAITING \<or> resource_hash E r \<noteq> GetEdsHash (ea_cluster_name la) c"
  shows "\<exists>api. newApiClusterLoadAssignment (Some la) = Some api \<and>
    map_of (cc_apiClusterCache c') (ea_cluster_name la) = Some (x\<lparr>ac_ApiStatus := ApiStatus_UPDATE, ac_LoadAssignment := Some api\<rparr>)"
  using assms
  by (auto simp: eds_resource_def CreateApiClusterByEds_def GetApiCluster_def SetEdsHash_def Let_def split: option.splits if_splits)


subsection \<open>Listeners that move\<close>

abbreviation klisteners :: "('w, 'b) ads_env \<Rightarrow> 'w \<Rightarrow> SocketAddress \<rightharpoonup> Listener" where
  "klisteners E w \<equiv> contents (AkListener (E_kernel E)) w"

lemma ListenerUpdate_other:
  assumes "store_law (AkListener (E_kernel E))" "pb_faithful (E_addr_pb E)" "b \<noteq> Some a"
  shows "klisteners E (snd (ListenerUpdate E b v w)) a = klisteners E w a"
proof -
  have key: "c \<noteq> a" if "socketAddressToClang (E_addr_pb E) b = Inr (Some c)" for c
    using that assms(2,3) by (auto simp: socketAddressToClang_def toClang_def pb_faithful_def split: option.splits sum.splits if_splits)
  have law: "klisteners E (snd (m_update (AkListener (E_kernel E)) w c l)) =
      put_result (klisteners E w) c l (fst (m_update (AkListener (E_kernel E)) w c l))" for c l
    using assms(1) by (simp add: store_law_def)
  show ?thesis
    by (auto simp: ListenerUpdate_def c_ret_def put_result_def dest: key split: sum.splits option.splits prod.splits)
      (metis law key fun_upd_other put_result_def fst_conv snd_conv)+
qed


subsection \<open>An environment\<close>

text \<open>A kernel that keeps its clusters in a list, and two clusters: one with an endpoint and one for EDS.\<close>

definition list_ops :: "(('k \<times> 'v) list, 'k, 'v) map_ops" where
  "list_ops = \<lparr>
     m_lookup = (\<lambda>m k. case map_of m k of None \<Rightarrow> Inl KeyNotExist | Some v \<Rightarrow> Inr v),
     m_update = (\<lambda>m k v. (None, AList.update k v m)),
     m_delete = (\<lambda>m k. (case map_of m k of None \<Rightarrow> Some KeyNotExist | Some _ \<Rightarrow> None, AList.delete k m)),
     m_iterate = AList.clearjunk\<rparr>"

definition closed_ops :: "('w, 'k, 'v) map_ops" where
  "closed_ops = \<lparr>m_lookup = (\<lambda>m k. Inl KeyNotExist), m_update = (\<lambda>m k v. (Some (KernelErr 1), m)),
     m_delete = (\<lambda>m k. (Some (KernelErr 1), m)), m_iterate = (\<lambda>m. [])\<rparr>"

definition same_pb :: "('a, 'a) clang" where
  "same_pb = \<lparr>pb_marshal = (\<lambda>v. Inr [v]), pb_unpack = (\<lambda>b. case b of [v] \<Rightarrow> Some v | _ \<Rightarrow> None),
     pb_pack = (\<lambda>v. [v]), pb_unmarshal = (\<lambda>b. case b of [v] \<Rightarrow> Inr v | _ \<Rightarrow> Inl (GoErr ''''))\<rparr>"

definition no_pb :: "('a, 'b) clang" where
  "no_pb = \<lparr>pb_marshal = (\<lambda>v. Inl (GoErr '''')), pb_unpack = (\<lambda>b. None), pb_pack = (\<lambda>v. []), pb_unmarshal = (\<lambda>b. Inl (GoErr ''''))\<rparr>"

definition demo_assignment :: env_assignment where
  "demo_assignment = \<lparr>ea_cluster_name = ''api'', ea_endpoints = [\<lparr>
     el_endpoints = [Some (Address_SocketAddress \<lparr>es_protocol = SocketAddress_TCP, es_address = ''10.0.0.7'', es_port = 80\<rparr>)],
     el_weight = None, el_priority = 0\<rparr>]\<rparr>"

definition demo_cluster :: "string \<Rightarrow> env_discovery \<Rightarrow> env_cluster" where
  "demo_cluster n t = \<lparr>ecl_name = n, ecl_type = t, ecl_connect_timeout = None, ecl_lb_policy = 0,
     ecl_circuit_breakers = None, ecl_load_assignment = None, ecl_dns_refresh_rate = None\<rparr>"

definition demo_codec :: ads_codec where
  "demo_codec = \<lparr>
     un_cluster = (\<lambda>r. if r = [1] then Some (demo_cluster ''web'' Cluster_STATIC) else if r = [2] then Some (demo_cluster ''api'' Cluster_EDS) else None),
     un_assignment = (\<lambda>r. if r = [3] then Some demo_assignment else None),
     un_listener = (\<lambda>r. if r = [4] then Some \<lparr>eli_name = ''in'', eli_address = Some (Address_SocketAddress
       \<lparr>es_protocol = SocketAddress_TCP, es_address = ''10.0.0.8'', es_port = 80\<rparr>), eli_filter_chains = []\<rparr> else None),
     un_route = (\<lambda>r. None), un_tcp = (\<lambda>r. None), un_http = (\<lambda>r. None),
     any_text = (\<lambda>r. map (\<lambda>b. char_of (unat b)) r), Sum64String = (\<lambda>s. of_nat (of_char (hd s)))\<rparr>"

definition demo_env :: "('w, string, ApiCluster) map_ops \<Rightarrow> ('w, SocketAddress, Listener) map_ops \<Rightarrow>
    (ApiCluster, 'b) clang \<Rightarrow> (Listener, 'b) clang \<Rightarrow> (SocketAddress, 'b) clang \<Rightarrow> ('w, 'b) ads_env" where
  "demo_env clusters listeners cpb lpb apb = \<lparr>
     E_kernel = \<lparr>AkCluster = clusters, AkListener = listeners, AkRoute = closed_ops, AkStats = (\<lambda>w. []), AkStatsDelete = (\<lambda>w ks. w)\<rparr>,
     E_cluster_pb = cpb, E_listener_pb = lpb, E_route_pb = no_pb, E_addr_pb = apb, E_addr_text = (\<lambda>e. ''''), E_seed = 0,
     E_lb_errs = (\<lambda>c. (None, None, None)), E_yaml = \<lparr>yaml_marshal = (\<lambda>l. ''''), yaml_unmarshal = (\<lambda>s. (False, []))\<rparr>,
     E_io = True, E_codec = demo_codec, E_EqualUnordered = (\<lambda>a b. mset a = mset b)\<rparr>"

abbreviation cluster_env :: "((string \<times> ApiCluster) list, ApiCluster) ads_env" where
  "cluster_env \<equiv> demo_env list_ops closed_ops same_pb no_pb no_pb"

lemma list_ops_ok: "contents list_ops = map_of" "store_law list_ops" "map_reliable list_ops"
proof -
  show c: "contents list_ops = map_of" by (auto simp: fun_eq_iff contents_def list_ops_def split: option.splits)
  show "store_law list_ops"
    unfolding store_law_def c by (auto simp: list_ops_def put_result_def del_result_def update_conv' delete_conv' split: option.splits)
  show "map_reliable list_ops" by (auto simp: map_reliable_def list_ops_def split: option.splits)
qed

lemma pb_ok: "pb_faithful same_pb" "pb_faithful no_pb"
  by (auto simp: pb_faithful_def same_pb_def no_pb_def)

lemma cluster_env_ok: "ads_laws cluster_env" "map_reliable (AkCluster (E_kernel cluster_env))" "clusters_encode cluster_env"
proof -
  show "ads_laws cluster_env" by (simp add: ads_laws_def demo_env_def list_ops_ok pb_ok) (simp add: closed_ops_def)
  show "map_reliable (AkCluster (E_kernel cluster_env))" by (simp add: demo_env_def list_ops_ok)
  show "clusters_encode cluster_env" by (auto simp: clusters_encode_def demo_env_def same_pb_def)
qed

definition demo_resp :: "string \<Rightarrow> any_msg list \<Rightarrow> DiscoveryResponse" where
  "demo_resp url rs = \<lparr>dr_TypeUrl = url, dr_VersionInfo = ''1'', dr_Resources = rs, dr_Nonce = ''n''\<rparr>"

abbreviation demo_start :: "(string \<times> ApiCluster) list processor" where
  "demo_start \<equiv> fresh_processor False (E_yaml cluster_env) \<lparr>aw_kernel = [], aw_maglev = None\<rparr>"

lemmas demo_defs = demo_env_def demo_codec_def demo_cluster_def demo_resp_def fresh_processor_def newProcessor_def NewAdsCache_def
  NewClusterCache_def NewHashName_def readFromPersistFile_def NewListenerCache_def NewRouteConfigCache_def


theorem kernel_clusters_known_witness:
  "case for_each (processAdsResponse cluster_env) [demo_resp ClusterType [[1], [2]], demo_resp ClusterType [[2]]] demo_start of
     None \<Rightarrow> False
   | Some p \<Rightarrow> \<forall>n. kclusters cluster_env (aw_kernel (pr_world p)) n \<noteq> None \<longrightarrow> n \<in> set (cluster_GetResourceNames (pr_clusters p))"
proof -
  let ?run = "for_each (processAdsResponse cluster_env) [demo_resp ClusterType [[1], [2]], demo_resp ClusterType [[2]]] demo_start"
  have "?run \<noteq> None" by code_simp
  then obtain p where p: "?run = Some p" by blast
  have "\<forall>n. kclusters cluster_env (aw_kernel (pr_world demo_start)) n \<noteq> None \<longrightarrow> n \<in> set (cluster_GetResourceNames (pr_clusters demo_start))"
    by (simp add: demo_defs list_ops_ok)
  from kernel_clusters_known [OF cluster_env_ok(1) p this] show ?thesis by (simp only: p option.case)
qed

theorem cluster_ids_all_zero_witness:
  "case for_each (processAdsResponse cluster_env) [demo_resp ClusterType [[1], [2]], demo_resp EndpointType [[3]]] demo_start of
     None \<Rightarrow> False
   | Some p \<Rightarrow> (case (kclusters cluster_env (aw_kernel (pr_world p)) ''web'', kclusters cluster_env (aw_kernel (pr_world p)) ''api'') of
       (Some web, Some api) \<Rightarrow> ac_Id web = 0 \<and> ac_Id api = 0 | _ \<Rightarrow> False)"
proof -
  let ?run = "for_each (processAdsResponse cluster_env) [demo_resp ClusterType [[1], [2]], demo_resp EndpointType [[3]]] demo_start"
  have r: "case ?run of None \<Rightarrow> False | Some p \<Rightarrow> kclusters cluster_env (aw_kernel (pr_world p)) ''web'' \<noteq> None \<and>
      kclusters cluster_env (aw_kernel (pr_world p)) ''api'' \<noteq> None" by code_simp
  then obtain p where p: "?run = Some p" by (cases ?run) simp_all
  with r obtain web api where k: "kclusters cluster_env (aw_kernel (pr_world p)) ''web'' = Some web"
    "kclusters cluster_env (aw_kernel (pr_world p)) ''api'' = Some api" by (simp only: p option.case) blast
  have "kclusters cluster_env (aw_kernel \<lparr>aw_kernel = [], aw_maglev = None\<rparr>) = Map.empty"
    by (simp add: demo_env_def list_ops_ok)
  note z = cluster_ids_all_zero [OF cluster_env_ok(1) this p]
  show ?thesis using z [OF k(1)] z [OF k(2)] by (simp only: p option.case k prod.case)
qed

text \<open>A kernel that refuses deletions, and the state after a cluster was removed from the configuration.\<close>

definition stuck_state :: "(string \<times> ApiCluster) list processor" where
  "stuck_state = the (for_each (processAdsResponse (demo_env (list_ops\<lparr>m_delete := \<lambda>m k. (Some (KernelErr 16), m)\<rparr>) closed_ops same_pb no_pb no_pb))
     [demo_resp ClusterType [[1], [2]], demo_resp ClusterType [[2]]] demo_start)"

theorem readded_cluster_deleted_witness:
  "case handleCdsResponse cluster_env (demo_resp ClusterType [[1], [2]]) stuck_state of
     None \<Rightarrow> False
   | Some p \<Rightarrow> kclusters cluster_env (aw_kernel (pr_world stuck_state)) ''web'' \<noteq> None \<and> kclusters cluster_env (aw_kernel (pr_world p)) ''web'' = None"
proof -
  let ?x = "the (map_of (cc_apiClusterCache (pr_clusters stuck_state)) ''web'')"
  have d: "distinct (map fst (cc_apiClusterCache (pr_clusters stuck_state)))" by code_simp
  have x: "map_of (cc_apiClusterCache (pr_clusters stuck_state)) ''web'' = Some ?x" "ac_ApiStatus ?x = ApiStatus_DELETE" by code_simp+
  have r: "filter (\<lambda>r. cds_name cluster_env r = Some ''web'') (dr_Resources (demo_resp ClusterType [[1], [2]])) = [[1]]" by code_simp
  have h: "resource_hash cluster_env [1] = GetCdsHash ''web'' (pr_clusters stuck_state)" by code_simp
  have k: "kclusters cluster_env (aw_kernel (pr_world stuck_state)) ''web'' \<noteq> None" by code_simp
  have "handleCdsResponse cluster_env (demo_resp ClusterType [[1], [2]]) stuck_state \<noteq> None" by code_simp
  then show ?thesis using readded_cluster_deleted [OF cluster_env_ok d x r h] k by (simp split: option.splits)
qed


text \<open>A daemon with one listener, at 10.0.0.7.\<close>

definition listener_state :: "(SocketAddress \<times> Listener) list processor" where
  "listener_state = (let a = \<lparr>sa_Protocol = SocketAddress_TCP, sa_Port = 20480, sa_Ipv4 = 0x0700000a\<rparr>;
       l = \<lparr>li_ApiStatus = ApiStatus_NONE, li_Name = ''in'', li_Address = Some a, li_FilterChains = []\<rparr>
     in newProcessor (NewAdsCache \<lparr>lc_apiListenerCache = [(''in'', l)], lc_resourceHash = [''in'' \<mapsto> 77]\<rparr>
          (NewClusterCache False False (NewHashName (E_yaml cluster_env) None) (Inr [])) (NewRouteConfigCache False (Inr [])))
        \<lparr>aw_kernel = [(a, l)], aw_maglev = None\<rparr>)"

abbreviation listener_env :: "((SocketAddress \<times> Listener) list, SocketAddress) ads_env" where
  "listener_env \<equiv> demo_env closed_ops list_ops no_pb no_pb same_pb"


end
