(* ===== verification/Dns_Resolver.thy ===== *)
theory Dns_Resolver
  imports Ip_Text "HOL-Library.List_Lexorder" "HOL-Library.Char_ord"
begin

text \<open>
  The resolver of host names (\<open>pkg/dns/dns.go\<close>, \<open>upstream.go\<close> and \<open>GetDNSAddresses\<close> of \<open>utils.go\<close>).
  It keeps the addresses of the watched domains and a delaying queue of domains to resolve again;
  after each resolution the domain is sent on a channel.

  The DNS library is third-party: an exchange with a server is the argument \<open>exchange\<close>, which may
  fail, and \<open>fqdn\<close> is the library's function of that name.  The queue is a library as well: its
  content is the list of elements with their delays.  The two queries of a resolution run
  concurrently; the argument \<open>a_first\<close> says which one takes the lock first.  Durations are in
  nanoseconds.  An entry without addresses stands for nil, which is what the code stores when no
  record was found.
\<close>

subsection \<open>Messages\<close>

datatype rr_data = RR_A bytes | RR_AAAA bytes | RR_Other

record RR =
  rr_Rrtype :: nat
  rr_Ttl :: u32
  rr_Data :: rr_data

record dns_msg =
  msg_Rcode :: nat
  msg_Answer :: "RR list"
  msg_Ns :: "RR list"
  msg_Extra :: "RR list"

abbreviation (input) RcodeSuccess :: nat where "RcodeSuccess \<equiv> 0"
abbreviation (input) RcodeServerFailure :: nat where "RcodeServerFailure \<equiv> 2"
abbreviation (input) TypeA :: nat where "TypeA \<equiv> 1"
abbreviation (input) TypeAAAA :: nat where "TypeAAAA \<equiv> 28"
abbreviation (input) TypeOPT :: nat where "TypeOPT \<equiv> 41"

text \<open>A question is a name and a type.\<close>

type_synonym question = "string \<times> nat"
type_synonym delegate = "question \<Rightarrow> go_err + dns_msg"

definition server_failure :: dns_msg where
  "server_failure = \<lparr>msg_Rcode = RcodeServerFailure, msg_Answer = [], msg_Ns = [], msg_Extra = []\<rparr>"

subsection \<open>Queries\<close>

text \<open>\<open>None\<close> is an error of the exchange or no answer.\<close>

fun upstream_loop :: "(question \<Rightarrow> string \<Rightarrow> dns_msg option) \<Rightarrow> question \<Rightarrow> string list \<Rightarrow> dns_msg option \<Rightarrow> dns_msg option" where
  "upstream_loop exchange req [] response = response"
| "upstream_loop exchange req (upstream # rest) response =
     (case exchange req upstream of
        None \<Rightarrow> upstream_loop exchange req rest response
      | Some resp \<Rightarrow> if msg_Rcode resp = RcodeSuccess then Some resp else upstream_loop exchange req rest (Some resp))"

definition upstream_Resolve :: "(question \<Rightarrow> string \<Rightarrow> dns_msg option) \<Rightarrow> string list \<Rightarrow> delegate" where
  "upstream_Resolve exchange upstreams req =
     (case upstream_loop exchange req upstreams None of None \<Rightarrow> Inr server_failure | Some m \<Rightarrow> Inr m)"

fun query_loop :: "delegate list \<Rightarrow> question \<Rightarrow> dns_msg option \<Rightarrow> dns_msg option" where
  "query_loop [] req response = response"
| "query_loop (d # ds) req response =
     (case d req of
        Inl err \<Rightarrow> query_loop ds req response
      | Inr res \<Rightarrow> if msg_Rcode res = RcodeSuccess then Some res else query_loop ds req (Some res))"

definition Query :: "delegate list \<Rightarrow> question \<Rightarrow> dns_msg" where
  "Query delegates req = (case query_loop delegates req None of None \<Rightarrow> server_failure | Some m \<Rightarrow> m)"

abbreviation (input) Second :: int where "Second \<equiv> 1000000000"
abbreviation (input) DeRefreshInterval :: int where "DeRefreshInterval \<equiv> 15 * Second"

definition lower_ttl :: "RR \<Rightarrow> int \<Rightarrow> int" where
  "lower_ttl r minTTL = (if rr_Ttl r < word_of_int (minTTL div Second) then uint (rr_Ttl r) * Second else minTTL)"

definition getMinTTL :: "dns_msg \<Rightarrow> int \<Rightarrow> int" where
  "getMinTTL m refreshRate =
     (if msg_Answer m = [] \<and> msg_Ns m = [] \<and>
         (msg_Extra m = [] \<or> length (msg_Extra m) = 1 \<and> rr_Rrtype (msg_Extra m ! 0) = TypeOPT)
      then refreshRate
      else let t1 = fold lower_ttl (msg_Answer m) refreshRate;
               t2 = fold lower_ttl (msg_Ns m) t1
           in fold lower_ttl (filter (\<lambda>r. rr_Rrtype r \<noteq> TypeOPT) (msg_Extra m)) t2)"

definition rr_addresses :: "RR list \<Rightarrow> string list" where
  "rr_addresses rrs = concat (map (\<lambda>r. case rr_Data r of RR_A ip \<Rightarrow> [ip_String ip] | RR_AAAA ip \<Rightarrow> [ip_String ip] | RR_Other \<Rightarrow> []) rrs)"

text \<open>One of the two concurrent queries, on the addresses, the time to live and the number of errors so far.\<close>

definition query_type :: "delegate list \<Rightarrow> string \<Rightarrow> nat \<Rightarrow> string list \<times> int \<times> nat \<Rightarrow> string list \<times> int \<times> nat" where
  "query_type delegates name dnsType s =
     (case s of (out, ttl, errs) \<Rightarrow>
        let res = Query delegates (name, dnsType)
        in if msg_Rcode res = RcodeServerFailure then (out, ttl, errs + 1)
           else let minTTL = getMinTTL res DeRefreshInterval
                in (out @ rr_addresses (msg_Answer res), (if minTTL < ttl then minTTL else ttl), errs))"

text \<open>\<open>sort.Strings\<close>: strings are compared byte by byte.\<close>

definition sort_Strings :: "string list \<Rightarrow> string list" where
  "sort_Strings xs = sort xs"

definition doResolve :: "delegate list \<Rightarrow> (string \<Rightarrow> string) \<Rightarrow> bool \<Rightarrow> string \<Rightarrow> string list \<times> int \<times> go_err option" where
  "doResolve delegates fqdn a_first domain =
     (let q = query_type delegates (fqdn domain);
          (out, ttl, errs) = (if a_first then q TypeAAAA (q TypeA ([], DeRefreshInterval, 0)) else q TypeA (q TypeAAAA ([], DeRefreshInterval, 0)))
      in if errs = 2 then (out, DeRefreshInterval, Some (GoErr ''upstream dns failure'')) else (sort_Strings out, ttl, None))"

subsection \<open>The resolver\<close>

record DomainInfo =
  di_Domain :: string
  di_RefreshRate :: int

record DNSResolver =
  dn_DnsChan :: "string list"
  dn_cache :: "(string \<times> string list) list"
  dn_refreshQueue :: "(DomainInfo \<times> int) list"
  dn_delegates :: "delegate list"

text \<open>\<open>net.JoinHostPort\<close>: an IPv6 address is put in brackets.\<close>

definition JoinHostPort :: "string \<Rightarrow> string \<Rightarrow> string" where
  "JoinHostPort host port = (if CHR '':'' \<in> set host then ''['' @ host @ '']:'' @ port else host @ '':'' @ port)"

text \<open>The configuration is the servers and the port of \<open>/etc/resolv.conf\<close>; \<open>None\<close> is nil.\<close>

definition NewDNSResolver :: "(question \<Rightarrow> string \<Rightarrow> dns_msg option) \<Rightarrow> go_err + (string list \<times> string) option \<Rightarrow> go_err + DNSResolver" where
  "NewDNSResolver exchange config =
     (case config of
        Inl err \<Rightarrow> Inl err
      | Inr dnsConfig \<Rightarrow> Inr \<lparr>dn_DnsChan = [], dn_cache = [], dn_refreshQueue = [],
          dn_delegates = (case dnsConfig of
             None \<Rightarrow> []
           | Some (servers, port) \<Rightarrow> [upstream_Resolve exchange (map (\<lambda>server. JoinHostPort server port) servers)])\<rparr>)"

definition resolve :: "(string \<Rightarrow> string) \<Rightarrow> bool \<Rightarrow> string \<Rightarrow> DNSResolver \<Rightarrow> (go_err + string list \<times> int) \<times> DNSResolver" where
  "resolve fqdn a_first domainName r =
     (case map_of (dn_cache r) domainName of
        None \<Rightarrow> (Inl (GoErr ''cache entry for domain not found''), r)
      | Some entry \<Rightarrow>
          (case doResolve (dn_delegates r) fqdn a_first domainName of
             (addrs, ttl, Some err) \<Rightarrow> (Inl (GoWrap ''dns resolve failed'' err), r)
           | (addrs, ttl, None) \<Rightarrow> (Inr (addrs, ttl), r\<lparr>dn_cache := AList.update domainName addrs (dn_cache r)\<rparr>)))"

text \<open>\<open>refreshDns\<close> with the element the queue released.\<close>

definition refresh_delay :: "int \<Rightarrow> int \<Rightarrow> int" where
  "refresh_delay rate ttl = (let t = (if ttl > rate then rate else ttl) in if t = 0 then DeRefreshInterval else t)"

definition refreshDns :: "(string \<Rightarrow> string) \<Rightarrow> bool \<Rightarrow> DomainInfo \<Rightarrow> DNSResolver \<Rightarrow> DNSResolver" where
  "refreshDns fqdn a_first e r =
     (if map_of (dn_cache r) (di_Domain e) = None then r
      else case resolve fqdn a_first (di_Domain e) r of
             (Inl err, r1) \<Rightarrow> r1
           | (Inr (addrs, ttl), r1) \<Rightarrow>
               r1\<lparr>dn_refreshQueue := dn_refreshQueue r1 @ [(e, refresh_delay (di_RefreshRate e) ttl)],
                  dn_DnsChan := dn_DnsChan r1 @ [di_Domain e]\<rparr>)"

definition GetAllCachedDomains :: "DNSResolver \<Rightarrow> string list" where
  "GetAllCachedDomains r = map fst (dn_cache r)"

text \<open>A domain that is not cached is a nil entry, whose addresses are read all the same.\<close>

definition GetDomainAddress :: "string \<Rightarrow> DNSResolver \<Rightarrow> (string list \<times> bool) option" where
  "GetDomainAddress domain r = (case map_of (dn_cache r) domain of None \<Rightarrow> None | Some addrs \<Rightarrow> Some (addrs, True))"

definition GetBatchAddressesFromCache :: "string list \<Rightarrow> DNSResolver \<Rightarrow> (string \<times> string list) list" where
  "GetBatchAddressesFromCache domains r =
     List.map_filter (\<lambda>d. map_option (\<lambda>v. (d, v)) (map_of (dn_cache r) d)) domains"

definition RemoveUnwatchDomain :: "string list \<Rightarrow> DNSResolver \<Rightarrow> DNSResolver" where
  "RemoveUnwatchDomain domains r = r\<lparr>dn_cache := filter (\<lambda>(d, v). d \<in> set domains) (dn_cache r)\<rparr>"

definition AddDomainInQueue :: "DomainInfo option \<Rightarrow> int \<Rightarrow> DNSResolver \<Rightarrow> DNSResolver" where
  "AddDomainInQueue info delay r =
     (case info of
        None \<Rightarrow> r
      | Some i \<Rightarrow>
          let r1 = (if map_of (dn_cache r) (di_Domain i) = None then r\<lparr>dn_cache := AList.update (di_Domain i) [] (dn_cache r)\<rparr> else r)
          in r1\<lparr>dn_refreshQueue := dn_refreshQueue r1 @ [(i, delay)]\<rparr>)"

definition GetDNSAddresses :: "string \<Rightarrow> DNSResolver \<Rightarrow> string list" where
  "GetDNSAddresses domain r = (case map_of (dn_cache r) domain of None \<Rightarrow> [] | Some addrs \<Rightarrow> addrs)"


subsection \<open>Properties\<close>

lemma lower_ttl_bounds: "0 \<le> t \<Longrightarrow> t \<le> DeRefreshInterval \<Longrightarrow> 0 \<le> lower_ttl r t \<and> lower_ttl r t \<le> t"
proof -
  assume t: "0 \<le> t" "t \<le> DeRefreshInterval"
  then have "0 \<le> t div Second" "t div Second \<le> 15" by (auto simp: pos_imp_zdiv_nonneg_iff)
  then have w: "uint (word_of_int (t div Second) :: u32) = t div Second" by (simp add: uint_word_of_int)
  have "uint (rr_Ttl r) * Second \<le> t" if "rr_Ttl r < word_of_int (t div Second)"
  proof -
    have "uint (rr_Ttl r) < t div Second" using that by (simp add: word_less_alt w)
    then have "uint (rr_Ttl r) * Second \<le> t div Second * Second" by simp
    also have "\<dots> \<le> t" by (simp add: minus_mod_eq_div_mult [symmetric])
    finally show ?thesis .
  qed
  then show ?thesis using t by (simp add: lower_ttl_def)
qed

lemma fold_lower_ttl: "0 \<le> t \<Longrightarrow> t \<le> DeRefreshInterval \<Longrightarrow> 0 \<le> fold lower_ttl l t \<and> fold lower_ttl l t \<le> t"
proof (induction l arbitrary: t)
  case (Cons r l)
  have b: "0 \<le> lower_ttl r t" "lower_ttl r t \<le> t" using lower_ttl_bounds [OF Cons.prems] by simp_all
  then have "0 \<le> fold lower_ttl l (lower_ttl r t) \<and> fold lower_ttl l (lower_ttl r t) \<le> lower_ttl r t"
    using Cons.prems by (intro Cons.IH) linarith+
  then show ?case using b by simp
qed simp

lemma getMinTTL_bounds: "0 \<le> getMinTTL m DeRefreshInterval \<and> getMinTTL m DeRefreshInterval \<le> DeRefreshInterval"
proof -
  define t1 where "t1 = fold lower_ttl (msg_Answer m) DeRefreshInterval"
  define t2 where "t2 = fold lower_ttl (msg_Ns m) t1"
  have 1: "0 \<le> t1" "t1 \<le> DeRefreshInterval" using fold_lower_ttl [of DeRefreshInterval] unfolding t1_def by simp_all
  have 2: "0 \<le> t2" "t2 \<le> t1" using fold_lower_ttl [OF 1] unfolding t2_def by simp_all
  have 3: "0 \<le> fold lower_ttl l t2" "fold lower_ttl l t2 \<le> DeRefreshInterval" for l
    using fold_lower_ttl [of t2 l] 1 2 by linarith+
  show ?thesis unfolding getMinTTL_def Let_def t1_def [symmetric] t2_def [symmetric] using 3 by (simp split: if_split)
qed

lemma sort_Strings_mset: "mset xs = mset ys \<Longrightarrow> sort_Strings xs = sort_Strings ys"
  unfolding sort_Strings_def by (metis mset_sort properties_for_sort sorted_sort)

text \<open>What one query contributes: addresses and time to live, or a failure.\<close>

definition answer_of :: "delegate list \<Rightarrow> string \<Rightarrow> nat \<Rightarrow> (string list \<times> int) option" where
  "answer_of delegates name dnsType =
     (let res = Query delegates (name, dnsType)
      in if msg_Rcode res = RcodeServerFailure then None else Some (rr_addresses (msg_Answer res), getMinTTL res DeRefreshInterval))"

lemma query_type_eq:
  "query_type ds name ty (out, ttl, errs) =
     (case answer_of ds name ty of None \<Rightarrow> (out, ttl, errs + 1) | Some (as, t) \<Rightarrow> (out @ as, min t ttl, errs))"
  by (auto simp: query_type_def answer_of_def Let_def min_def)

text \<open>
  C25.  A resolution does not depend on which of its two queries is answered first.  It fails only if
  both queries fail, and otherwise gives the addresses of all records of both answers in sorted
  order and the smaller time to live, between 0 and 15 seconds.
\<close>

theorem doResolve_result:
  "doResolve ds fqdn a_first domain =
     (case (answer_of ds (fqdn domain) TypeA, answer_of ds (fqdn domain) TypeAAAA) of
        (None, None) \<Rightarrow> ([], DeRefreshInterval, Some (GoErr ''upstream dns failure''))
      | (Some (a, t), None) \<Rightarrow> (sort_Strings a, t, None)
      | (None, Some (b, u)) \<Rightarrow> (sort_Strings b, u, None)
      | (Some (a, t), Some (b, u)) \<Rightarrow> (sort_Strings (a @ b), min t u, None)) \<and>
   fst (snd (doResolve ds fqdn a_first domain)) \<in> {0..DeRefreshInterval}"
proof -
  have t: "0 \<le> t \<and> t \<le> DeRefreshInterval" if "answer_of ds n ty = Some (a, t)" for n ty a t
    using that getMinTTL_bounds by (auto simp: answer_of_def Let_def split: if_splits)
  have s: "sort_Strings (b @ a) = sort_Strings (a @ b)" for a b by (rule sort_Strings_mset) simp
  show ?thesis
    using t [of "fqdn domain" TypeA] t [of "fqdn domain" TypeAAAA]
    by (cases "answer_of ds (fqdn domain) TypeA"; cases "answer_of ds (fqdn domain) TypeAAAA"; cases a_first)
      (auto simp: doResolve_def query_type_eq Let_def s min_def)
qed

text \<open>
  C26.  A watched domain that was resolved is scheduled again after a delay that is positive, at most
  15 seconds, and at most its refresh rate unless the answer may not be kept at all; and it is
  announced on the channel with the addresses in the cache.
\<close>

theorem refreshDns_schedules:
  assumes "map_of (dn_cache r) (di_Domain e) \<noteq> None" "0 < di_RefreshRate e"
    and "doResolve (dn_delegates r) fqdn a_first (di_Domain e) = (addrs, ttl, None)"
  shows "\<exists>delay. dn_refreshQueue (refreshDns fqdn a_first e r) = dn_refreshQueue r @ [(e, delay)] \<and>
      0 < delay \<and> delay \<le> DeRefreshInterval \<and> (ttl \<noteq> 0 \<longrightarrow> delay \<le> di_RefreshRate e) \<and>
      dn_DnsChan (refreshDns fqdn a_first e r) = dn_DnsChan r @ [di_Domain e] \<and>
      GetDNSAddresses (di_Domain e) (refreshDns fqdn a_first e r) = addrs"
proof -
  have "ttl = fst (snd (doResolve (dn_delegates r) fqdn a_first (di_Domain e)))" by (simp add: assms(3))
  moreover have "\<dots> \<in> {0..DeRefreshInterval}"
    using getMinTTL_bounds by (auto simp: doResolve_def query_type_def Let_def)
  ultimately have "0 \<le> ttl" "ttl \<le> DeRefreshInterval" by simp_all
  then show ?thesis using assms
    by (auto simp: refreshDns_def resolve_def refresh_delay_def GetDNSAddresses_def Let_def)
qed


definition demo_delegate :: delegate where
  "demo_delegate q = Inr \<lparr>msg_Rcode = 0,
     msg_Answer = (if snd q = TypeA then [\<lparr>rr_Rrtype = 1, rr_Ttl = 3, rr_Data = RR_A [10, 0, 0, 7]\<rparr>] else []), msg_Ns = [], msg_Extra = []\<rparr>"

definition demo_resolver :: DNSResolver where
  "demo_resolver = \<lparr>dn_DnsChan = [], dn_cache = [(''db'', [])], dn_refreshQueue = [], dn_delegates = [demo_delegate]\<rparr>"

definition demo_info :: DomainInfo where "demo_info = \<lparr>di_Domain = ''db'', di_RefreshRate = 200000000\<rparr>"

lemma demo_resolves: "doResolve (dn_delegates demo_resolver) id True (di_Domain demo_info) = ([''10.0.0.7''], 3 * Second, None)"
  by code_simp

theorem refreshDns_schedules_witness:
  "\<exists>delay. dn_refreshQueue (refreshDns id True demo_info demo_resolver) = dn_refreshQueue demo_resolver @ [(demo_info, delay)] \<and>
      0 < delay \<and> delay \<le> DeRefreshInterval \<and> (3 * Second \<noteq> 0 \<longrightarrow> delay \<le> di_RefreshRate demo_info) \<and>
      dn_DnsChan (refreshDns id True demo_info demo_resolver) = dn_DnsChan demo_resolver @ [di_Domain demo_info] \<and>
      GetDNSAddresses (di_Domain demo_info) (refreshDns id True demo_info demo_resolver) = [''10.0.0.7'']"
proof -
  have "map_of (dn_cache demo_resolver) (di_Domain demo_info) \<noteq> None" "0 < di_RefreshRate demo_info"
    by (simp_all add: demo_resolver_def demo_info_def)
  then show ?thesis by (rule refreshDns_schedules [OF _ _ demo_resolves])
qed

end
