(* ===== verification/Workload_Dns.thy ===== *)
theory Workload_Dns
  imports Service_Cache Dns_Resolver
begin

text \<open>
  The controller of the workloads that have a host name instead of addresses
  (\<open>pkg/controller/workload/dns.go\<close>).  The processor opens a channel for such a workload and hands it
  to this controller, which watches the host name with the resolver, adds the resolved addresses to a
  copy of the workload, stores the copy in the workload cache and sends it on the channel.

  The channels are the set of the identifiers that have an open one, together with the list of what
  was received.  A send is received, times out, or meets a channel that the processor closed in
  between, which panics: the argument \<open>send\<close> says which.  Goroutines that are started are kept in a
  list and run as steps of their own, so that every order of the steps is covered.
\<close>

subsection \<open>State\<close>

record DnsWorkload = Workload + wl_hostname :: string

record pendingResolveDomain =
  pd_Workload :: "DnsWorkload list"
  pd_RefreshRate :: int

abbreviation (input) WorkloadDnsRefreshRate :: int where "WorkloadDnsRefreshRate \<equiv> 200000000"

record dnsController =
  dc_cache :: workload_cache
  dc_dnsResolver :: DNSResolver
  dc_ResolvedDomainChanMap :: "string set"
  dc_received :: "(string \<times> DnsWorkload) list"
  dc_workloadCache :: "string \<rightharpoonup> pendingResolveDomain"
  dc_pendingHostnames :: "string \<rightharpoonup> string"
  dc_started :: "(pendingResolveDomain \<times> string \<times> string list) list"

definition NewDnsController :: "(question \<Rightarrow> string \<Rightarrow> dns_msg option) \<Rightarrow> go_err + (string list \<times> string) option \<Rightarrow> workload_cache \<Rightarrow> go_err + dnsController" where
  "NewDnsController exchange config c =
     (case NewDNSResolver exchange config of
        Inl err \<Rightarrow> Inl err
      | Inr resolver \<Rightarrow> Inr \<lparr>dc_cache = c, dc_dnsResolver = resolver, dc_ResolvedDomainChanMap = {}, dc_received = [],
          dc_workloadCache = Map.empty, dc_pendingHostnames = Map.empty, dc_started = []\<rparr>)"

subsection \<open>New workloads\<close>

definition getPendingResolveDomain :: "DnsWorkload \<Rightarrow> (string \<times> pendingResolveDomain) list" where
  "getPendingResolveDomain workload =
     (let hostname = wl_hostname workload
      in if hostname = '''' then []
         else if ParseAddr hostname \<noteq> None then []
         else [(hostname, \<lparr>pd_Workload = [workload], pd_RefreshRate = WorkloadDnsRefreshRate\<rparr>)])"

definition add_pending :: "DnsWorkload \<Rightarrow> (string \<rightharpoonup> pendingResolveDomain) \<Rightarrow> (string \<rightharpoonup> pendingResolveDomain)" where
  "add_pending workload cache =
     (let pd = (case cache (wl_hostname workload) of
                  None \<Rightarrow> \<lparr>pd_Workload = [], pd_RefreshRate = WorkloadDnsRefreshRate\<rparr>
                | Some pd \<Rightarrow> pd)
      in cache(wl_hostname workload \<mapsto> pd\<lparr>pd_Workload := pd_Workload pd @ [workload]\<rparr>))"

text \<open>One domain of the loop at the end of \<open>processDomains\<close>.\<close>

definition watch_domain :: "string \<times> pendingResolveDomain \<Rightarrow> dnsController \<Rightarrow> dnsController" where
  "watch_domain d r =
     (case d of (k, v) \<Rightarrow>
        let addresses = GetDNSAddresses k (dc_dnsResolver r)
        in if addresses \<noteq> [] then r\<lparr>dc_started := dc_started r @ [(v, k, addresses)]\<rparr>
           else r\<lparr>dc_dnsResolver := AddDomainInQueue (Some \<lparr>di_Domain = k, di_RefreshRate = pd_RefreshRate v\<rparr>) 0 (dc_dnsResolver r)\<rparr>)"

definition processDomains :: "DnsWorkload option \<Rightarrow> dnsController \<Rightarrow> dnsController" where
  "processDomains w r =
     (case w of
        None \<Rightarrow> r
      | Some workload \<Rightarrow>
          let domains = getPendingResolveDomain workload
          in if domains = [] then r
             else let r1 = r\<lparr>dc_pendingHostnames := (dc_pendingHostnames r)(wl_name workload \<mapsto> wl_hostname workload),
                             dc_workloadCache := add_pending workload (dc_workloadCache r)\<rparr>;
                      r2 = r1\<lparr>dc_dnsResolver := RemoveUnwatchDomain (map fst domains) (dc_dnsResolver r1)\<rparr>
                  in fold watch_domain domains r2)"

subsection \<open>Resolved addresses\<close>

definition parsed_addresses :: "string list \<Rightarrow> bytes list" where
  "parsed_addresses addrs = List.map_filter (\<lambda>addr. map_option fst (ParseAddr addr)) addrs"

text \<open>\<open>None\<close> is a workload that is not ready.\<close>

definition overwriteDnsWorkload :: "DnsWorkload \<Rightarrow> string \<Rightarrow> string list \<Rightarrow> DnsWorkload option" where
  "overwriteDnsWorkload workload domain addrs =
     (if wl_hostname workload \<noteq> domain then None
      else if addrs = [] then None
      else let newWorkload = workload\<lparr>wl_addresses := wl_addresses workload @ parsed_addresses addrs\<rparr>
           in if wl_addresses newWorkload = [] then None else Some newWorkload)"

datatype send_outcome = Received | TimedOut | ClosedMeanwhile

definition send_ready :: "(string \<Rightarrow> send_outcome) \<Rightarrow> DnsWorkload \<Rightarrow> dnsController \<Rightarrow> dnsController option" where
  "send_ready send newWorkload r =
     (let uid = wl_uid newWorkload
      in if uid \<notin> dc_ResolvedDomainChanMap r then Some r
         else let r1 = r\<lparr>dc_cache := AddOrUpdateWorkload (dc_cache r) (Workload.truncate newWorkload)\<rparr>
              in case send uid of
                   ClosedMeanwhile \<Rightarrow> None
                 | Received \<Rightarrow> Some (r1\<lparr>dc_received := dc_received r @ [(uid, newWorkload)], dc_ResolvedDomainChanMap := dc_ResolvedDomainChanMap r - {uid}\<rparr>)
                 | TimedOut \<Rightarrow> Some (r1\<lparr>dc_ResolvedDomainChanMap := dc_ResolvedDomainChanMap r - {uid}\<rparr>))"

definition updateWorkloads :: "(string \<Rightarrow> send_outcome) \<Rightarrow> pendingResolveDomain option \<Rightarrow> string \<Rightarrow> string list \<Rightarrow> dnsController \<Rightarrow> dnsController option" where
  "updateWorkloads send pendingDomain domain addrs r =
     (case pendingDomain of
        None \<Rightarrow> Some r
      | Some pd \<Rightarrow>
          if addrs = [] then Some r
          else let readyWorkloads = List.map_filter (\<lambda>w. overwriteDnsWorkload w domain addrs) (pd_Workload pd)
               in case for_each (send_ready send) readyWorkloads r of
                    None \<Rightarrow> None
                  | Some r1 \<Rightarrow> Some (if readyWorkloads \<noteq> [] then r1\<lparr>dc_workloadCache := (dc_workloadCache r1)(domain := None)\<rparr> else r1))"

definition getWorkloadsByDomain :: "string \<Rightarrow> dnsController \<Rightarrow> pendingResolveDomain option" where
  "getWorkloadsByDomain domain r = dc_workloadCache r domain"

text \<open>One announcement of the resolver, as \<open>refreshWorker\<close> handles it; without one it waits.\<close>

definition refreshWorker :: "(string \<Rightarrow> send_outcome) \<Rightarrow> dnsController \<Rightarrow> dnsController option" where
  "refreshWorker send r =
     (case dn_DnsChan (dc_dnsResolver r) of
        [] \<Rightarrow> Some r
      | domain # rest \<Rightarrow>
          let r1 = r\<lparr>dc_dnsResolver := (dc_dnsResolver r)\<lparr>dn_DnsChan := rest\<rparr>\<rparr>
          in if domain = '''' then Some r1
             else case getWorkloadsByDomain domain r1 of
                    None \<Rightarrow> Some r1
                  | Some pendingDomain \<Rightarrow>
                      let addrs = GetDNSAddresses domain (dc_dnsResolver r1)
                      in if addrs = [] then Some r1 else updateWorkloads send (Some pendingDomain) domain addrs r1)"

subsection \<open>Removed workloads\<close>

definition removeWorkloadFromDnsCache :: "string \<Rightarrow> dnsController \<Rightarrow> dnsController" where
  "removeWorkloadFromDnsCache workloadName r =
     (case dc_pendingHostnames r workloadName of
        None \<Rightarrow> r
      | Some hostname \<Rightarrow>
          let r1 = r\<lparr>dc_pendingHostnames := (dc_pendingHostnames r)(workloadName := None)\<rparr>
          in case dc_workloadCache r1 hostname of
               None \<Rightarrow> r1
             | Some pendingDomain \<Rightarrow>
                 let updatedWorkloads = filter (\<lambda>wl. wl_name wl \<noteq> workloadName) (pd_Workload pendingDomain)
                 in if updatedWorkloads = []
                    then r1\<lparr>dc_workloadCache := (dc_workloadCache r1)(hostname := None),
                            dc_dnsResolver := RemoveUnwatchDomain [hostname] (dc_dnsResolver r1)\<rparr>
                    else r1\<lparr>dc_workloadCache := (dc_workloadCache r1)(hostname \<mapsto> pendingDomain\<lparr>pd_Workload := updatedWorkloads\<rparr>)\<rparr>)"

subsection \<open>Steps\<close>

text \<open>
  The processor opens and closes the channel of a workload, which is read and written without the
  controller's lock; the resolver takes the queue's element with some index; a started goroutine
  runs.
\<close>

datatype dns_step =
    OpenChan string
  | CloseChan string
  | Process "DnsWorkload option"
  | Resolve nat bool
  | Announce "string \<Rightarrow> send_outcome"
  | RunStarted nat "string \<Rightarrow> send_outcome"
  | Remove string

definition StartDnsResolver :: "(string \<Rightarrow> string) \<Rightarrow> bool \<Rightarrow> nat \<Rightarrow> DNSResolver \<Rightarrow> DNSResolver" where
  "StartDnsResolver fqdn a_first i r =
     (if i < length (dn_refreshQueue r)
      then refreshDns fqdn a_first (fst (dn_refreshQueue r ! i))
             (r\<lparr>dn_refreshQueue := take i (dn_refreshQueue r) @ drop (Suc i) (dn_refreshQueue r)\<rparr>)
      else r)"

fun dns_exec :: "(string \<Rightarrow> string) \<Rightarrow> dns_step \<Rightarrow> dnsController \<Rightarrow> dnsController option" where
  "dns_exec fqdn (OpenChan uid) r = Some (r\<lparr>dc_ResolvedDomainChanMap := insert uid (dc_ResolvedDomainChanMap r)\<rparr>)"
| "dns_exec fqdn (CloseChan uid) r = Some (r\<lparr>dc_ResolvedDomainChanMap := dc_ResolvedDomainChanMap r - {uid}\<rparr>)"
| "dns_exec fqdn (Process w) r = Some (processDomains w r)"
| "dns_exec fqdn (Resolve i a_first) r = Some (r\<lparr>dc_dnsResolver := StartDnsResolver fqdn a_first i (dc_dnsResolver r)\<rparr>)"
| "dns_exec fqdn (Announce send) r = refreshWorker send r"
| "dns_exec fqdn (RunStarted i send) r =
     (if i < length (dc_started r)
      then case dc_started r ! i of (pd, domain, addrs) \<Rightarrow>
             updateWorkloads send (Some pd) domain addrs (r\<lparr>dc_started := take i (dc_started r) @ drop (Suc i) (dc_started r)\<rparr>)
      else Some r)"
| "dns_exec fqdn (Remove name) r = Some (removeWorkloadFromDnsCache name r)"


subsection \<open>Well-formed states\<close>

definition dns_name :: "string \<Rightarrow> bool" where
  "dns_name h \<longleftrightarrow> h \<noteq> '''' \<and> ParseAddr h = None"

definition watched :: "DNSResolver \<Rightarrow> string set" where
  "watched r = set (GetAllCachedDomains r)"

lemma watched_iff: "d \<in> watched r \<longleftrightarrow> map_of (dn_cache r) d \<noteq> None"
  by (simp add: watched_def GetAllCachedDomains_def map_of_eq_None_iff)

lemma watched_RemoveUnwatchDomain [simp]: "watched (RemoveUnwatchDomain ds r) = watched r \<inter> set ds"
  by (auto simp: watched_def GetAllCachedDomains_def RemoveUnwatchDomain_def)

lemma watched_AddDomainInQueue [simp]: "watched (AddDomainInQueue (Some i) t r) = insert (di_Domain i) (watched r)"
  by (auto simp: watched_iff AddDomainInQueue_def Let_def update_conv' split: if_splits)

lemma watched_refreshDns [simp]: "watched (refreshDns fqdn b e r) = watched r"
  by (auto simp: watched_iff refreshDns_def resolve_def update_conv' split: option.splits prod.splits if_splits)

lemma watched_frame [simp]: "watched (r\<lparr>dn_refreshQueue := q\<rparr>) = watched r" "watched (r\<lparr>dn_DnsChan := c\<rparr>) = watched r"
  by (simp_all add: watched_def GetAllCachedDomains_def)

lemma watched_StartDnsResolver [simp]: "watched (StartDnsResolver fqdn b i r) = watched r"
  by (simp add: StartDnsResolver_def)

definition pending_ok :: "string \<Rightarrow> pendingResolveDomain \<Rightarrow> bool" where
  "pending_ok h pd \<longleftrightarrow> dns_name h \<and> pd_Workload pd \<noteq> [] \<and> (\<forall>w \<in> set (pd_Workload pd). wl_hostname w = h)"

text \<open>
  Only host names are watched, a pending domain has workloads, and all of them have this domain as
  their host name; a started goroutine has addresses; what was sent has addresses and went to the
  channel of its own workload.
\<close>

definition dns_state_ok :: "dnsController \<Rightarrow> bool" where
  "dns_state_ok r \<longleftrightarrow>
     (\<forall>h pd. dc_workloadCache r h = Some pd \<longrightarrow> pending_ok h pd) \<and>
     (\<forall>(pd, h, as) \<in> set (dc_started r). pending_ok h pd \<and> as \<noteq> []) \<and>
     (\<forall>(uid, w) \<in> set (dc_received r). uid = wl_uid w \<and> wl_addresses w \<noteq> [] \<and> dns_name (wl_hostname w)) \<and>
     (\<forall>d \<in> watched (dc_dnsResolver r). dns_name d)"

lemma getPendingResolveDomain_cases:
  obtains "\<not> dns_name (wl_hostname w)" "getPendingResolveDomain w = []"
  | "dns_name (wl_hostname w)"
    "getPendingResolveDomain w = [(wl_hostname w, \<lparr>pd_Workload = [w], pd_RefreshRate = WorkloadDnsRefreshRate\<rparr>)]"
proof (cases "dns_name (wl_hostname w)")
  case True
  then show ?thesis using that(2) by (auto simp: getPendingResolveDomain_def dns_name_def Let_def)
next
  case False
  then have "getPendingResolveDomain w = []" by (auto simp: getPendingResolveDomain_def dns_name_def Let_def)
  then show ?thesis using False that(1) by blast
qed

lemma add_pending_ok:
  assumes "\<forall>h pd. c h = Some pd \<longrightarrow> pending_ok h pd" "dns_name (wl_hostname w)"
  shows "\<forall>h pd. add_pending w c h = Some pd \<longrightarrow> pending_ok h pd"
  using assms by (auto simp: add_pending_def pending_ok_def Let_def split: option.splits if_splits)

lemma RemoveUnwatchDomain_sel [simp]:
  "dn_cache (RemoveUnwatchDomain ds r) = filter (\<lambda>(d, v). d \<in> set ds) (dn_cache r)"
  "dn_refreshQueue (RemoveUnwatchDomain ds r) = dn_refreshQueue r"
  "dn_DnsChan (RemoveUnwatchDomain ds r) = dn_DnsChan r" "dn_delegates (RemoveUnwatchDomain ds r) = dn_delegates r"
  by (simp_all add: RemoveUnwatchDomain_def)

lemma AddDomainInQueue_sel [simp]:
  "dn_cache (AddDomainInQueue (Some i) t r) =
     (if map_of (dn_cache r) (di_Domain i) = None then AList.update (di_Domain i) [] (dn_cache r) else dn_cache r)"
  "dn_refreshQueue (AddDomainInQueue (Some i) t r) = dn_refreshQueue r @ [(i, t)]"
  "dn_DnsChan (AddDomainInQueue (Some i) t r) = dn_DnsChan r" "dn_delegates (AddDomainInQueue (Some i) t r) = dn_delegates r"
  by (simp_all add: AddDomainInQueue_def Let_def)

lemma processDomains_ok:
  assumes "dns_state_ok r" shows "dns_state_ok (processDomains w r)"
proof (cases w)
  case (Some wl)
  show ?thesis
  proof (cases rule: getPendingResolveDomain_cases [of wl])
    case 2
    have p: "\<forall>h pd. add_pending wl (dc_workloadCache r) h = Some pd \<longrightarrow> pending_ok h pd"
      using assms 2 by (intro add_pending_ok) (auto simp: dns_state_ok_def)
    have q: "pending_ok (wl_hostname wl) \<lparr>pd_Workload = [wl], pd_RefreshRate = t\<rparr>" for t
      using 2 by (simp add: pending_ok_def)
    show ?thesis using assms p q 2
      by (auto simp: Some processDomains_def watch_domain_def dns_state_ok_def Let_def)
  qed (simp add: Some processDomains_def assms)
qed (simp add: processDomains_def assms)

lemma overwrite_ready:
  assumes "overwriteDnsWorkload w h as = Some w'"
  shows "wl_addresses w' \<noteq> []" "wl_hostname w' = wl_hostname w"
  using assms by (auto simp: overwriteDnsWorkload_def Let_def split: if_splits)

lemma send_ready_ok:
  assumes "send_ready send w r = Some r'" "dns_state_ok r" "wl_addresses w \<noteq> []" "dns_name (wl_hostname w)"
  shows "dns_state_ok r' \<and> dc_workloadCache r' = dc_workloadCache r"
  using assms by (auto simp: send_ready_def dns_state_ok_def Let_def split: if_splits send_outcome.splits)

lemma for_each_send_ready_ok:
  assumes "for_each (send_ready send) ws r = Some r'" "dns_state_ok r"
    and "\<forall>w \<in> set ws. wl_addresses w \<noteq> [] \<and> dns_name (wl_hostname w)"
  shows "dns_state_ok r'"
  using assms by (induction ws arbitrary: r) (auto simp: bind_eq_Some_conv dest!: send_ready_ok)

lemma updateWorkloads_ok:
  assumes "updateWorkloads send (Some pd) h as r = Some r'" "dns_state_ok r" "pending_ok h pd"
  shows "dns_state_ok r'"
proof (cases "as = []")
  case False
  define ws where "ws = List.map_filter (\<lambda>w. overwriteDnsWorkload w h as) (pd_Workload pd)"
  have ws: "\<forall>w \<in> set ws. wl_addresses w \<noteq> [] \<and> dns_name (wl_hostname w)"
    using assms(3) by (fastforce simp: ws_def map_filter_def pending_ok_def dest: overwrite_ready)
  obtain r1 where r1: "for_each (send_ready send) ws r = Some r1"
    and r': "r' = (if ws \<noteq> [] then r1\<lparr>dc_workloadCache := (dc_workloadCache r1)(h := None)\<rparr> else r1)"
    using assms(1) False by (auto simp: updateWorkloads_def ws_def Let_def split: option.splits)
  have "dns_state_ok r1" by (rule for_each_send_ready_ok [OF r1 assms(2) ws])
  then show ?thesis unfolding r' by (auto simp: dns_state_ok_def)
qed (use assms in \<open>simp add: updateWorkloads_def\<close>)


lemma refreshWorker_Cons:
  assumes "dn_DnsChan (dc_dnsResolver r) = domain # rest" "r1 = r\<lparr>dc_dnsResolver := (dc_dnsResolver r)\<lparr>dn_DnsChan := rest\<rparr>\<rparr>"
  shows "refreshWorker send r =
     (case dc_workloadCache r domain of
        None \<Rightarrow> Some r1
      | Some pd \<Rightarrow> if domain = [] then Some r1
                   else updateWorkloads send (Some pd) domain (GetDNSAddresses domain (dc_dnsResolver r)) r1)"
  using assms by (auto simp: refreshWorker_def getWorkloadsByDomain_def updateWorkloads_def GetDNSAddresses_def Let_def split: option.split)

lemma refreshWorker_ok:
  assumes "refreshWorker send r = Some r'" "dns_state_ok r" shows "dns_state_ok r'"
proof (cases "dn_DnsChan (dc_dnsResolver r)")
  case (Cons domain rest)
  define r1 where "r1 = r\<lparr>dc_dnsResolver := (dc_dnsResolver r)\<lparr>dn_DnsChan := rest\<rparr>\<rparr>"
  have r1: "dns_state_ok r1" using assms(2) by (simp add: r1_def dns_state_ok_def)
  have p: "pending_ok domain pd" if "dc_workloadCache r domain = Some pd" for pd
    using that assms(2) by (simp add: dns_state_ok_def)
  show ?thesis using assms(1) r1 p updateWorkloads_ok unfolding refreshWorker_Cons [OF Cons r1_def]
    by (auto split: option.splits if_splits)
qed (use assms in \<open>simp add: refreshWorker_def\<close>)

lemma removeWorkload_ok: "dns_state_ok r \<Longrightarrow> dns_state_ok (removeWorkloadFromDnsCache name r)"
  by (auto simp: removeWorkloadFromDnsCache_def dns_state_ok_def pending_ok_def Let_def split: option.split)

lemma dns_exec_ok:
  assumes "dns_exec fqdn st r = Some r'" "dns_state_ok r" shows "dns_state_ok r'"
proof (cases st)
  case (RunStarted i send)
  show ?thesis
  proof (cases "i < length (dc_started r)")
    case True
    obtain pd h as where e: "dc_started r ! i = (pd, h, as)" by (metis prod_cases3)
    then have m: "(pd, h, as) \<in> set (dc_started r)" using True nth_mem by metis
    have "dns_state_ok (r\<lparr>dc_started := take i (dc_started r) @ drop (Suc i) (dc_started r)\<rparr>)"
      using assms(2) by (auto simp: dns_state_ok_def dest: in_set_takeD in_set_dropD)
    moreover have "pending_ok h pd" using m assms(2) by (auto simp: dns_state_ok_def)
    ultimately show ?thesis using assms(1) True e updateWorkloads_ok by (auto simp: RunStarted)
  qed (use assms RunStarted in simp)
next
  case (Announce send)
  show ?thesis using assms by (simp add: Announce refreshWorker_ok)
next
  case (Process w)
  show ?thesis using assms processDomains_ok by (auto simp: Process)
next
  case (Remove name)
  show ?thesis using assms removeWorkload_ok by (auto simp: Remove)
qed (use assms in \<open>auto simp: dns_state_ok_def\<close>)

text \<open>
  C17.  Every sequence of steps of the processor, the controller, the resolver and the goroutines that
  does not panic keeps the state well-formed: only host names are watched, never addresses; each
  pending workload is filed under its own host name; and what is sent has at least one address and
  goes to the channel of its own workload.
\<close>

theorem dns_state_well_formed:
  assumes "for_each (dns_exec fqdn) steps r = Some r'" "dns_state_ok r"
  shows "dns_state_ok r'"
  using assms by (induction steps arbitrary: r) (auto simp: bind_eq_Some_conv dest: dns_exec_ok)


subsection \<open>A workload is resolved\<close>

lemma bind_for_each_Nil: "Option.bind m (for_each f []) = m"
  by (cases m) simp_all

lemma map_of_filter_key: "map_of (filter (\<lambda>(d, v). d \<in> K) al) k = (if k \<in> K then map_of al k else None)"
  by (induction al) auto

lemma GetDNSAddresses_RemoveUnwatchDomain [simp]:
  "GetDNSAddresses h (RemoveUnwatchDomain ds r) = (if h \<in> set ds then GetDNSAddresses h r else [])"
  by (simp add: GetDNSAddresses_def map_of_filter_key)

lemma processDomains_queues:
  assumes "dns_name (wl_hostname w)" "GetDNSAddresses (wl_hostname w) (dc_dnsResolver r) = []"
  shows "processDomains (Some w) r =
    r\<lparr>dc_pendingHostnames := (dc_pendingHostnames r)(wl_name w \<mapsto> wl_hostname w),
      dc_workloadCache := add_pending w (dc_workloadCache r),
      dc_dnsResolver := AddDomainInQueue (Some \<lparr>di_Domain = wl_hostname w, di_RefreshRate = WorkloadDnsRefreshRate\<rparr>) 0
        (RemoveUnwatchDomain [wl_hostname w] (dc_dnsResolver r))\<rparr>"
  using assms
  by (cases rule: getPendingResolveDomain_cases [of w]) (auto simp: processDomains_def watch_domain_def Let_def)

lemma refreshDns_announces:
  assumes "di_Domain e \<in> watched r" "doResolve (dn_delegates r) fqdn a_first (di_Domain e) = (addrs, ttl, None)"
  shows "GetDNSAddresses (di_Domain e) (refreshDns fqdn a_first e r) = addrs \<and>
    dn_DnsChan (refreshDns fqdn a_first e r) = dn_DnsChan r @ [di_Domain e]"
  using assms by (auto simp: watched_iff refreshDns_def resolve_def GetDNSAddresses_def update_conv')

lemma new_domain_announced:
  assumes "di_Domain e = h" "length (dn_refreshQueue R) = n" "dn_DnsChan R = []"
    and "doResolve (dn_delegates R) fqdn a_first h = (addrs, ttl, None)"
    and "D = AddDomainInQueue (Some e) 0 (RemoveUnwatchDomain [h] R)"
  shows "GetDNSAddresses h (StartDnsResolver fqdn a_first n D) = addrs \<and> dn_DnsChan (StartDnsResolver fqdn a_first n D) = [h]"
proof -
  define D0 where "D0 = D\<lparr>dn_refreshQueue := dn_refreshQueue R\<rparr>"
  have "StartDnsResolver fqdn a_first n D = refreshDns fqdn a_first e D0"
    using assms by (auto simp: StartDnsResolver_def D0_def nth_append)
  then show ?thesis using refreshDns_announces [of e D0 fqdn a_first addrs ttl] assms
    by (simp add: D0_def)
qed

lemma parsed_addresses_String:
  assumes "\<forall>ip \<in> set ips. length ip = 4" shows "parsed_addresses (map ip_String ips) = ips"
proof -
  have "map (\<lambda>ip. map_option fst (ParseAddr (ip_String ip))) ips = map Some ips"
    using assms by (simp add: ip_String_v4 ParseAddr_dotted)
  then show ?thesis unfolding parsed_addresses_def map_filter_def
    by (induction ips) auto
qed

lemma updateWorkloads_one:
  assumes "pd_Workload pd = [w]" "wl_hostname w = h" "wl_addresses w = []" "wl_uid w \<in> dc_ResolvedDomainChanMap r"
    and "ips \<noteq> []" "\<forall>ip \<in> set ips. length ip = 4" "send (wl_uid w) = Received"
  shows "updateWorkloads send (Some pd) h (map ip_String ips) r =
    Some (r\<lparr>dc_cache := AddOrUpdateWorkload (dc_cache r) (Workload.truncate (w\<lparr>wl_addresses := ips\<rparr>)),
            dc_received := dc_received r @ [(wl_uid w, w\<lparr>wl_addresses := ips\<rparr>)],
            dc_ResolvedDomainChanMap := dc_ResolvedDomainChanMap r - {wl_uid w},
            dc_workloadCache := (dc_workloadCache r)(h := None)\<rparr>)"
  using assms
  by (simp add: updateWorkloads_def overwriteDnsWorkload_def parsed_addresses_String map_filter_def send_ready_def Let_def)



definition demo_dns_workload :: "string \<Rightarrow> DnsWorkload" where
  "demo_dns_workload h = \<lparr>wl_uid = ''uid-'' @ h, wl_name = ''wl-'' @ h, wl_namespace = ''default'', wl_addresses = [], wl_network = [],
     wl_trust_domain = [], wl_service_account = [], wl_waypoint = None, wl_node = [], wl_services = [], wl_authorization_policies = [],
     wl_status = HEALTHY, wl_cluster_id = [], wl_locality = None, wl_network_mode = STANDARD, wl_hostname = h\<rparr>"

definition demo_controller :: dnsController where
  "demo_controller = \<lparr>dc_cache = NewWorkloadCache, dc_dnsResolver = demo_resolver\<lparr>dn_cache := []\<rparr>, dc_ResolvedDomainChanMap = {},
     dc_received = [], dc_workloadCache = Map.empty, dc_pendingHostnames = Map.empty, dc_started = []\<rparr>"

lemma demo_names: "dns_name ''db''" "dns_name ''web''"
  by code_simp+

theorem dns_state_well_formed_witness:
  "\<exists>r'. for_each (dns_exec id) [OpenChan ''uid-db'', Process (Some (demo_dns_workload ''db'')), Resolve 0 True, Remove ''wl-db''] demo_controller = Some r' \<and>
     dns_state_ok r'"
proof -
  obtain r' where r': "for_each (dns_exec id) [OpenChan ''uid-db'', Process (Some (demo_dns_workload ''db'')), Resolve 0 True, Remove ''wl-db''] demo_controller = Some r'"
    by simp
  moreover have "dns_state_ok demo_controller"
    by (simp add: dns_state_ok_def demo_controller_def watched_def GetAllCachedDomains_def)
  ultimately show ?thesis using dns_state_well_formed [OF r'] by blast
qed


subsection \<open>Watched domains\<close>

lemma processDomains_watched:
  assumes "dns_name (wl_hostname w)"
  shows "watched (dc_dnsResolver (processDomains (Some w) r)) = {wl_hostname w}"
    and "dc_workloadCache (processDomains (Some w) r) = add_pending w (dc_workloadCache r)"
proof -
  have d: "wl_hostname w \<in> watched (dc_dnsResolver r)" if "GetDNSAddresses (wl_hostname w) (dc_dnsResolver r) \<noteq> []"
    using that by (auto simp: GetDNSAddresses_def watched_iff split: option.splits)
  show "watched (dc_dnsResolver (processDomains (Some w) r)) = {wl_hostname w}"
    using assms d by (cases rule: getPendingResolveDomain_cases [of w]) (auto simp: processDomains_def watch_domain_def Let_def)
  show "dc_workloadCache (processDomains (Some w) r) = add_pending w (dc_workloadCache r)"
    using assms by (cases rule: getPendingResolveDomain_cases [of w]) (auto simp: processDomains_def watch_domain_def Let_def)
qed

text \<open>
  C18.  Only the host name of the last workload is watched.  A workload with another host name makes the
  resolver forget the host name of the workload before: that workload stays pending, but the
  queued resolution of its name does nothing when it is due, and is not repeated.
\<close>

theorem second_workload_stops_first:
  assumes "dns_name (wl_hostname w1)" "dns_name (wl_hostname w2)" "wl_hostname w1 \<noteq> wl_hostname w2"
    and "r2 = processDomains (Some w2) (processDomains (Some w1) r)" "di_Domain e = wl_hostname w1"
  shows "watched (dc_dnsResolver r2) = {wl_hostname w2} \<and>
    (\<exists>pd. getWorkloadsByDomain (wl_hostname w1) r2 = Some pd \<and> w1 \<in> set (pd_Workload pd)) \<and>
    refreshDns fqdn a_first e (dc_dnsResolver r2) = dc_dnsResolver r2"
proof -
  have w: "watched (dc_dnsResolver r2) = {wl_hostname w2}" by (simp add: assms processDomains_watched)
  then have "map_of (dn_cache (dc_dnsResolver r2)) (wl_hostname w1) = None" using assms(3) by (auto simp: watched_iff set_eq_iff)
  then have "refreshDns fqdn a_first e (dc_dnsResolver r2) = dc_dnsResolver r2" by (simp add: refreshDns_def assms(5))
  moreover have "\<exists>pd. getWorkloadsByDomain (wl_hostname w1) r2 = Some pd \<and> w1 \<in> set (pd_Workload pd)"
    using assms by (simp add: processDomains_watched getWorkloadsByDomain_def add_pending_def Let_def)
  ultimately show ?thesis using w by blast
qed

theorem second_workload_stops_first_witness:
  "watched (dc_dnsResolver (processDomains (Some (demo_dns_workload ''web'')) (processDomains (Some (demo_dns_workload ''db'')) demo_controller))) = {''web''} \<and>
    refreshDns id True demo_info
      (dc_dnsResolver (processDomains (Some (demo_dns_workload ''web'')) (processDomains (Some (demo_dns_workload ''db'')) demo_controller))) =
    dc_dnsResolver (processDomains (Some (demo_dns_workload ''web'')) (processDomains (Some (demo_dns_workload ''db'')) demo_controller))"
proof -
  have h [simp]: "wl_hostname (demo_dns_workload x) = x" for x by (simp add: demo_dns_workload_def)
  show ?thesis
    using second_workload_stops_first [of "demo_dns_workload ''db''" "demo_dns_workload ''web''" _ demo_controller demo_info, OF _ _ _ refl] demo_names
    by (simp add: demo_info_def)
qed

text \<open>
  When the last workload of a host name is removed, this host name is the only one that stays
  watched.
\<close>

lemma removed_name_still_watched:
  assumes "dc_pendingHostnames r n = Some h" "dc_workloadCache r h = Some pd" "\<forall>w \<in> set (pd_Workload pd). wl_name w = n"
  shows "watched (dc_dnsResolver (removeWorkloadFromDnsCache n r)) = watched (dc_dnsResolver r) \<inter> {h}"
  using assms by (simp add: removeWorkloadFromDnsCache_def Let_def)

end
