(* ===== verification/Spec2Isabelle.thy ===== *)
theory Spec2Isabelle
  imports Processor_Safety Sendmsg Authz_Agreement Authz_Response Maglev Cert_Manager Ads_Safety Workload_Dns
begin

text \<open>
  A verification development for kmesh, a service mesh whose data plane is a set of bpf programs.

  \<^bold>\<open>The program.\<close>  In its workload mode a daemon on every node receives workloads, services and
  authorization policies from the control plane.  It keeps them in caches and writes what the
  kernel needs into bpf maps: frontends (address to service or workload), services (counts of
  endpoints, ports, waypoint), endpoints (service, priority and index to workload), backends
  (workload to address) and the policies of a workload.  The bpf programs read these maps when a
  socket connects, sends its first message, is accepted, or receives a packet.  In its listener
  mode the daemon receives clusters, endpoints, listeners and routes in the format of Envoy,
  translates them into its own messages, keeps these in caches and flushes the caches into bpf
  maps; it balances load with Maglev tables.

  \<^bold>\<open>Conventions\<close> (\<open>Kmesh_Prelude\<close>).  Integers keep their width; a panic or a loop that does not
  end is the outer \<open>None\<close>; errors are values of \<open>go_err\<close>; a Go map that some loop ranges over is
  an association list in the order of the range, and the theorems hold for every order.  Locks
  are not modelled: a handler is one sequential computation.

  \<^bold>\<open>The daemon.\<close>
  \<^item> \<open>Nets\<close>, \<open>Workload_Api\<close>: byte orders and addresses (\<open>pkg/nets/nets.go\<close>), the messages of
    \<open>api/v2/workloadapi\<close>.
  \<^item> \<open>Hash_Name\<close>: the numbers of names (\<open>pkg/utils/hash_name.go\<close>).  The locale \<open>name_table\<close> is
    the contract its clients rely on; numbers are never shared by two names, and the wrap of the
    probe at the end of the ring is unreachable.
  \<^item> \<open>Service_Cache\<close>, \<open>Waypoint_Cache\<close>, \<open>Endpoint_Cache\<close>: \<open>pkg/controller/workload/cache\<close>.  The
    locale \<open>addr_index\<close> is the contract of a cache with an index by address, interpreted for
    services and for workloads.
  \<^item> \<open>Bpf_Maps\<close>, \<open>Bpf_Cache\<close>, \<open>Locality_Lb\<close>: \<open>pkg/controller/workload/bpfcache\<close>.  The kernel and
    the ebpf library are the argument \<open>K\<close>; \<open>kernel_laws\<close> states what a map is and \<open>kernel_reliable\<close>
    that no call is refused.  A kernel that satisfies both, \<open>ref_kernel\<close>, is used by the witnesses.
    The history of a kernel is the list of all the views a program running meanwhile can read.
  \<^item> \<open>Endpoint_Groups\<close>, \<open>Endpoint_Table\<close>: the abstract endpoint table (the endpoints of a service at
    one priority are a list without gaps; deletion moves the last one into the hole) and the part
    of \<open>workload_processor.go\<close> that implements it.  The locale \<open>endpoint_groups\<close> states the laws and
    proves what deleting a batch does; its interpretation is the refinement.
  \<^item> \<open>Workload_Processor\<close>, \<open>Service_Processor\<close>, \<open>Processor_Safety\<close>: the handlers of
    \<open>workload_processor.go\<close>, and that each returns and leaves no gap in any view of the history,
    even when the kernel refuses writes.
  \<^item> \<open>Policy_Store\<close>, \<open>Rbac\<close>: \<open>pkg/auth\<close>.  The index of the store is exact; the decision on a
    connection does not depend on the order of the policies; address matching is prefix matching.
  \<^item> \<open>Authz_Response\<close>: the handlers of \<open>workload_processor.go\<close> for policies.  After every response
    the policy map of the kernel holds exactly the stored policies.
  \<^item> \<open>Maglev\<close>: \<open>pkg/utils/hash/murmur3.go\<close> and \<open>pkg/consistenthash/maglev\<close>.  Building the table
    ends, fills it and shares it out evenly, and gives the result of the published algorithm.
  \<^item> \<open>Ip_Text\<close>: parsing and printing of addresses as Go's libraries do it, and the functions of
    \<open>nets.go\<close> that use it.  Parsing what was printed gives the address back.
  \<^item> \<open>Cert_Manager\<close>: \<open>pkg/controller/security/manager.go\<close>, the references to the certificates of
    identities, their fetches, retries and rotations as a step relation.  No identity that is in
    use is forgotten, in whatever order the steps come; a rotation that is left over panics.
  \<^item> \<open>Ads_Types\<close>, \<open>Ads_Convert\<close>: the messages of \<open>api/v2\<close> and the translation in
    \<open>pkg/controller/ads/cache.go\<close> and \<open>convert_filter.go\<close>.  The messages of Envoy are records with the
    fields that the translation reads.  What it keeps of load assignments and routes is exact.
  \<^item> \<open>Ads_Cache\<close>, \<open>Ads_Processor\<close>, \<open>Ads_Safety\<close>: the caches of \<open>pkg/cache/v2\<close> with their flush, the
    handlers of \<open>ads_processor.go\<close>, and what a response does to the kernel.  The codec of the
    protobuf library and the C library behind the maps are arguments with the laws \<open>ads_laws\<close>; the
    locale \<open>cluster_invariant\<close> is the contract of an invariant of the cluster cache that every
    response keeps, interpreted for three of them.
  \<^item> \<open>Dns_Resolver\<close>, \<open>Workload_Dns\<close>: \<open>pkg/dns\<close> and \<open>pkg/controller/workload/dns.go\<close>.  A resolution does
    not depend on the order of its queries; a workload with a host name receives its addresses;
    the state stays well-formed in every order of the steps.  It is also shown that a second host
    name stops the resolution of the first.

  \<^bold>\<open>The bpf programs.\<close>
  \<^item> \<open>Bpf_Common\<close>: addresses, socket tuples by their bytes, the map of managed pods
    (\<open>bpf/include\<close>).
  \<^item> \<open>Data_Path\<close>: \<open>cgroup_sock.c\<close> and the managers it calls.  A connection to a service reaches one
    of its endpoints whenever the endpoint table has no gap, and IPv4-mapped connections behave as
    IPv4 ones.
  \<^item> \<open>Sendmsg\<close>: \<open>sendmsg.c\<close>, the prefix that tells a waypoint the original destination.
  \<^item> \<open>Sock_Ops\<close>: \<open>sockops.c\<close>, which asks user space about accepted connections.
  \<^item> \<open>Xdp_Authz\<close>: \<open>authz.h\<close> and \<open>xdp.c\<close>, the evaluation of policies on packets.
  \<^item> \<open>Authz_Agreement\<close>: the two evaluators agree on addresses and ports of IPv4 packets within the
    limits of the kernel, and a connection that user space denies is cut; it also proves where they
    differ (principals, and the precedence of deny policies).

  \<^bold>\<open>Bounds and fuel.\<close>  \<open>tail_calls\<close> makes at most \<open>MAX_TAIL_CALL_CNT\<close> = 33 calls, the limit of the
  kernel; two calls are made per policy and two more, so that fifteen policies are judged within
  it, more than the four a workload can have.  The unrolled loops of \<open>authz.h\<close> read at most four
  entries, as the code does.  \<open>find_slot\<close> is a partial function; that it returns is part of the
  theorem about the table.  The size of the Maglev table is the constant 16381 of the package.

  \<^bold>\<open>Simplifications.\<close>  A run of a bpf program reads one view of the maps, not several.  Kernel
  calls that may fail take their answer as an argument, and so do random numbers, the content
  of memory that is not initialised, and the result of a shift that C leaves undefined.  The
  arguments of format strings are dropped from error values.  Structs that the programs compare
  or overlay are their bytes on a little-endian machine.

  \<^bold>\<open>Not modelled.\<close> Loading and pinning of programs, streams to the control plane,
  the CNI plugin, encryption, the client of the certificate authority, metrics, the status server and
  the command line are input and output on the kernel, the cluster or the network.  The management of
  pods acts through informers, netlink and iptables.  The layer 7 programs of the listener mode run on a
  patched kernel.  The generic deserialization into bpf maps walks protobuf descriptors through raw
  memory; it is an argument of \<open>Authz_Response\<close>, and the policies it produces are
  represented by \<open>c_policy_of\<close>.  The dispatcher of responses in
  \<open>workload_processor.go\<close>, the DNS of the listener mode
  (\<open>pkg/controller/ads/dns.go\<close>) and the name table (\<open>pkg/dns/nametable.go\<close>)
  are left out.
\<close>

end
